(* ===== verification/Edo_Prelude.thy ===== *)
theory Edo_Prelude
  imports Main
begin

text \<open>
  What the components of the development share: the Python exceptions the code raises
  and catches, the types of fallible and of state-changing operations, the picker of the
  first free candidate that every allocator of the daemon uses, and generic lemmas on lists.

  An operation that can raise returns a value of \<open>exc + 'a\<close>: \<open>Inl\<close> is the exception that
  leaves it, \<open>Inr\<close> its result. An operation that also changes a state \<open>'s\<close> has the type
  \<open>'s \<Rightarrow> (exc + 'a) \<times> 's\<close>, so an exception keeps the state changes made before it was raised.
\<close>

section \<open>Exceptions\<close>

text \<open>
  The exceptions that the code names, with the text \<open>str(e)\<close> the code reads. \<open>DockerExc\<close>,
  \<open>APIError\<close>, \<open>NotFound\<close>, \<open>ImageNotFound\<close> and \<open>BuildError\<close> are those of the docker package,
  \<open>ConfigError\<close> is \<open>configparser.Error\<close>, \<open>StructError\<close> is \<open>struct.error\<close>, \<open>DatabaseError\<close> (a statement
  that the server refuses), \<open>StaleDataError\<close> and \<open>ObjectDeletedError\<close> are SQLAlchemy's, the last three are those of
  \<open>daemon_client.py\<close>; \<open>str\<close> of a \<open>KeyError\<close> is the key in quotes.
\<close>

datatype exc =
    ValueError string
  | TypeError string
  | IndexError string
  | KeyError string
  | AttributeError string
  | RuntimeError string
  | ConnectionError string
  | ConnectionRefusedError string
  | TimeoutError string
  | FileNotFoundError string
  | OSError string
  | IntegrityError string
  | DatabaseError string
  | StaleDataError string
  | ObjectDeletedError string
  | CalledProcessError string
  | DockerExc string
  | APIError string
  | NotFound string
  | ImageNotFound string
  | BuildError string
  | ConfigError string
  | StructError string
  | DaemonError string
  | DaemonTimeout string
  | DaemonUnavailable string

fun exc_str :: "exc \<Rightarrow> string" where
  "exc_str (ValueError s) = s"
| "exc_str (TypeError s) = s"
| "exc_str (IndexError s) = s"
| "exc_str (KeyError s) = [CHR 0x27] @ s @ [CHR 0x27]"
| "exc_str (AttributeError s) = s"
| "exc_str (RuntimeError s) = s"
| "exc_str (ConnectionError s) = s"
| "exc_str (ConnectionRefusedError s) = s"
| "exc_str (TimeoutError s) = s"
| "exc_str (FileNotFoundError s) = s"
| "exc_str (OSError s) = s"
| "exc_str (IntegrityError s) = s"
| "exc_str (DatabaseError s) = s"
| "exc_str (StaleDataError s) = s"
| "exc_str (ObjectDeletedError s) = s"
| "exc_str (CalledProcessError s) = s"
| "exc_str (DockerExc s) = s"
| "exc_str (APIError s) = s"
| "exc_str (NotFound s) = s"
| "exc_str (ImageNotFound s) = s"
| "exc_str (BuildError s) = s"
| "exc_str (ConfigError s) = s"
| "exc_str (StructError s) = s"
| "exc_str (DaemonError s) = s"
| "exc_str (DaemonTimeout s) = s"
| "exc_str (DaemonUnavailable s) = s"

text \<open>
  The \<open>except\<close> clauses match subclasses too: \<open>FileNotFoundError\<close>, \<open>ConnectionError\<close> (with
  \<open>ConnectionRefusedError\<close>) and \<open>TimeoutError\<close> (\<open>socket.timeout\<close>) are \<open>OSError\<close>s, and in the docker package \<open>NotFound\<close> and \<open>ImageNotFound\<close> are \<open>APIError\<close>s.
\<close>

fun is_OSError :: "exc \<Rightarrow> bool" where
  "is_OSError (OSError _) = True"
| "is_OSError (FileNotFoundError _) = True"
| "is_OSError (ConnectionError _) = True"
| "is_OSError (ConnectionRefusedError _) = True"
| "is_OSError (TimeoutError _) = True"
| "is_OSError _ = False"

fun is_APIError :: "exc \<Rightarrow> bool" where
  "is_APIError (APIError _) = True"
| "is_APIError (NotFound _) = True"
| "is_APIError (ImageNotFound _) = True"
| "is_APIError _ = False"

fun is_NotFound :: "exc \<Rightarrow> bool" where
  "is_NotFound (NotFound _) = True"
| "is_NotFound (ImageNotFound _) = True"
| "is_NotFound _ = False"

fun is_RuntimeError :: "exc \<Rightarrow> bool" where
  "is_RuntimeError (RuntimeError _) = True"
| "is_RuntimeError _ = False"

fun is_Called :: "exc \<Rightarrow> bool" where
  "is_Called (CalledProcessError _) = True"
| "is_Called _ = False"

lemma NotFound_is_APIError: "is_NotFound e \<Longrightarrow> is_APIError e"
  by (cases e) auto

type_synonym 'a res = "exc + 'a"
type_synonym ('s, 'a) act = "'s \<Rightarrow> (exc + 'a) \<times> 's"

text \<open>
  Two statements in sequence (an exception of the first skips the second), and
  \<open>try: \<dots> except C as e: handler\<close>, where \<open>matches\<close> says which exceptions belong to \<open>C\<close>.
\<close>

definition and_then :: "(exc + 'a) \<times> 's \<Rightarrow> ('a \<Rightarrow> 's \<Rightarrow> (exc + 'b) \<times> 's) \<Rightarrow> (exc + 'b) \<times> 's" where
  "and_then r f = (case r of (Inl e, s) \<Rightarrow> (Inl e, s) | (Inr x, s) \<Rightarrow> f x s)"

definition except ::
  "(exc + 'a) \<times> 's \<Rightarrow> (exc \<Rightarrow> bool) \<Rightarrow> (exc \<Rightarrow> 's \<Rightarrow> (exc + 'a) \<times> 's) \<Rightarrow> (exc + 'a) \<times> 's" where
  "except r matches handler =
     (case r of (Inl e, s) \<Rightarrow> if matches e then handler e s else (Inl e, s) | (Inr x, s) \<Rightarrow> (Inr x, s))"

lemma and_then_simps [simp]:
  "and_then (Inl e, s) f = (Inl e, s)" "and_then (Inr x, s) f = f x s"
  by (simp_all add: and_then_def)

lemma except_simps [simp]:
  "except (Inr x, s) m g = (Inr x, s)"
  "except (Inl e, s) m g = (if m e then g e s else (Inl e, s))"
  by (simp_all add: except_def)

lemma and_then_InrD:
  "and_then r f = (Inr y, s') \<Longrightarrow> \<exists>x s. r = (Inr x, s) \<and> f x s = (Inr y, s')"
  by (auto simp: and_then_def split: prod.splits sum.splits)

lemma and_then_InlD:
  "and_then r f = (Inl e, s') \<Longrightarrow> r = (Inl e, s') \<or> (\<exists>x s. r = (Inr x, s) \<and> f x s = (Inl e, s'))"
  by (auto simp: and_then_def split: prod.splits sum.splits)

lemma except_D:
  "except r m g = (y, s') \<Longrightarrow>
   r = (y, s') \<and> (\<forall>e. y = Inl e \<longrightarrow> \<not> m e) \<or> (\<exists>e s. r = (Inl e, s) \<and> m e \<and> g e s = (y, s'))"
  by (auto simp: except_def split: prod.splits sum.splits if_splits)

text \<open>A property of the state that every outcome of a statement has.\<close>

lemma and_then_state:
  assumes "Q (snd r)" and "\<And>x s. r = (Inr x, s) \<Longrightarrow> Q (snd (f x s))"
  shows "Q (snd (and_then r f))"
  using assms by (cases r; cases "fst r") auto

lemma except_state:
  assumes "Q (snd r)" and "\<And>e s. r = (Inl e, s) \<Longrightarrow> m e \<Longrightarrow> Q (snd (g e s))"
  shows "Q (snd (except r m g))"
  using assms by (cases r; cases "fst r") auto

section \<open>Owners\<close>

text \<open>
  \<open>(owner_type, owner_id)\<close>: the key under which every owner-scoped table stores its rows, and
  the key of the dictionaries that the firewall builder reads.
\<close>

type_synonym owner = "string \<times> int"

section \<open>Lists\<close>

lemma map_filter_distinct: "distinct (map f xs) \<Longrightarrow> distinct (map f (filter P xs))"
  by (induction xs) auto

lemma find_Some_in: "find P xs = Some x \<Longrightarrow> x \<in> set xs \<and> P x"
  by (auto simp: find_Some_iff)

lemma find_append:
  "find P (xs @ ys) = (case find P xs of None \<Rightarrow> find P ys | Some x \<Rightarrow> Some x)"
  by (induction xs) auto

lemma filter_eq_self: "(\<And>x. x \<in> set xs \<Longrightarrow> P x) \<Longrightarrow> filter P xs = xs"
  by (induction xs) auto

lemma distinct_map_inj: "distinct (map f xs) \<Longrightarrow> x \<in> set xs \<Longrightarrow> y \<in> set xs \<Longrightarrow> f x = f y \<Longrightarrow> x = y"
  by (auto simp: distinct_map inj_on_def)

section \<open>Runs\<close>

text \<open>The interleavings are closures of step relations; these put concrete steps together.\<close>

lemma three_steps: "r x y \<Longrightarrow> r y z \<Longrightarrow> r z u \<Longrightarrow> r\<^sup>*\<^sup>* x u"
  by (meson converse_rtranclp_into_rtranclp r_into_rtranclp)

lemma four_steps: "r a b \<Longrightarrow> r b c \<Longrightarrow> r c d \<Longrightarrow> r d e \<Longrightarrow> r\<^sup>*\<^sup>* a e"
  by (meson converse_rtranclp_into_rtranclp r_into_rtranclp)

section \<open>Picking the first free candidate\<close>

text \<open>
  \<open>next((x for x in candidates if x not in used), None)\<close>, the expression by which the daemon
  hands out WireGuard addresses, owner octets, container addresses and public host ports.
\<close>

definition first_free :: "'v list \<Rightarrow> 'v list \<Rightarrow> 'v option" where
  "first_free cands used = find (\<lambda>x. x \<notin> set used) cands"

text \<open>What an allocator may rely on when it asks a picker for a free value.\<close>

locale free_picker =
  fixes pick :: "'v list \<Rightarrow> 'v list \<Rightarrow> 'v option"
  assumes pick_fresh: "pick cands used = Some v \<Longrightarrow> v \<in> set cands \<and> v \<notin> set used"
    and pick_exhausted: "pick cands used = None \<Longrightarrow> set cands \<subseteq> set used"
begin

lemma pick_available: "\<not> set cands \<subseteq> set used \<Longrightarrow> \<exists>v. pick cands used = Some v"
  using pick_exhausted by fastforce

lemma pick_enough:
  assumes "distinct cands" and "length used < length cands"
  shows "\<exists>v. pick cands used = Some v"
proof (rule pick_available, rule notI)
  assume "set cands \<subseteq> set used"
  then have "card (set cands) \<le> card (set used)" by (simp add: card_mono)
  also have "\<dots> \<le> length used" by (rule card_length)
  finally show False using assms by (simp add: distinct_card)
qed

lemma pick_keeps_distinct:
  "pick cands used = Some v \<Longrightarrow> distinct used \<Longrightarrow> distinct (used @ [v])"
  using pick_fresh by fastforce

lemma pick_None_iff: "pick cands used = None \<Longrightarrow> x \<in> set cands \<Longrightarrow> x \<in> set used"
  using pick_exhausted by blast

end

interpretation ff: free_picker first_free
  by unfold_locales (auto simp: first_free_def find_Some_iff find_None_iff)

lemma first_free_None: "first_free cs us = None \<longleftrightarrow> set cs \<subseteq> set us"
  by (auto simp: first_free_def find_None_iff)

lemma first_free_first:
  "first_free cs us = Some v \<Longrightarrow>
   \<exists>pre post. cs = pre @ v # post \<and> set pre \<subseteq> set us \<and> v \<notin> set us"
proof (induction cs)
  case (Cons c cs)
  show ?case
  proof (cases "c \<in> set us")
    case True
    with Cons.prems have "first_free cs us = Some v" by (simp add: first_free_def)
    with Cons.IH obtain pre post where
      "cs = pre @ v # post" "set pre \<subseteq> set us" "v \<notin> set us" by blast
    with True have "c # cs = (c # pre) @ v # post \<and> set (c # pre) \<subseteq> set us \<and> v \<notin> set us"
      by simp
    then show ?thesis by blast
  next
    case False
    with Cons.prems have "v = c" by (simp add: first_free_def)
    with False have "c # cs = [] @ v # cs \<and> set [] \<subseteq> set us \<and> v \<notin> set us" by simp
    then show ?thesis by blast
  qed
qed (simp add: first_free_def)

end
