(* ===== verification/Py_Text.thy ===== *)
theory Py_Text
  imports Edo_Prelude
begin

text \<open>
  The operations of Python's \<open>str\<close> that the code uses, over lists of characters: decimal
  printing (\<open>f"{n}"\<close>) and reading (\<open>int(s)\<close>), \<open>split\<close>, \<open>strip\<close>, \<open>lower\<close>, substring tests and
  joining. A character is a byte, so the model covers texts in Latin-1.
\<close>

abbreviation quote :: string where
  "quote \<equiv> [CHR 0x27]"

abbreviation newline :: string where
  "newline \<equiv> [CHR 0x0A]"

section \<open>Decimal numbers\<close>

definition digit_char :: "nat \<Rightarrow> char" where
  "digit_char d = char_of (48 + d)"

definition is_digit :: "char \<Rightarrow> bool" where
  "is_digit c \<longleftrightarrow> 48 \<le> (of_char c :: nat) \<and> (of_char c :: nat) \<le> 57"

definition digit_val :: "char \<Rightarrow> nat" where
  "digit_val c = of_char c - 48"

fun str_nat :: "nat \<Rightarrow> string" where
  "str_nat n = (if n < 10 then [digit_char n] else str_nat (n div 10) @ [digit_char (n mod 10)])"

declare str_nat.simps [simp del]

definition str_int :: "int \<Rightarrow> string" where
  "str_int i = (if i < 0 then CHR ''-'' # str_nat (nat (- i)) else str_nat (nat i))"

definition dec_value :: "string \<Rightarrow> nat" where
  "dec_value s = foldl (\<lambda>a c. 10 * a + digit_val c) 0 s"

lemma digit_char_inverse: "d < 10 \<Longrightarrow> is_digit (digit_char d) \<and> digit_val (digit_char d) = d"
  by (simp add: is_digit_def digit_val_def digit_char_def)

lemma str_nat_digits: "list_all is_digit (str_nat n)"
proof (induction n rule: str_nat.induct)
  case (1 n)
  then show ?case
    by (subst str_nat.simps) (simp add: digit_char_inverse)
qed

lemma str_nat_nonempty [simp]: "str_nat n \<noteq> []"
  by (subst str_nat.simps) simp

lemma dec_value_append1: "dec_value (s @ [c]) = 10 * dec_value s + digit_val c"
  by (simp add: dec_value_def)

lemma dec_value_str_nat [simp]: "dec_value (str_nat n) = n"
proof (induction n rule: str_nat.induct)
  case (1 n)
  show ?case
  proof (cases "n < 10")
    case True
    then show ?thesis
      by (subst str_nat.simps) (simp add: dec_value_def digit_char_inverse)
  next
    case False
    with 1 show ?thesis
      by (subst str_nat.simps) (simp add: dec_value_append1 digit_char_inverse)
  qed
qed

lemma str_nat_inj [simp]: "str_nat m = str_nat n \<longleftrightarrow> m = n"
  by (metis dec_value_str_nat)

lemma is_digit_minus: "\<not> is_digit (CHR ''-'')"
  by (simp add: is_digit_def)

lemma str_nat_no: "\<not> is_digit c \<Longrightarrow> c \<notin> set (str_nat n)"
  using str_nat_digits[of n] by (auto simp: list_all_iff)

lemma hd_str_nat: "is_digit (hd (str_nat n))"
  using str_nat_digits[of n] by (cases "str_nat n") auto

lemma str_int_inj [simp]: "str_int i = str_int j \<longleftrightarrow> i = j"
proof -
  have "CHR ''-'' # s \<noteq> str_nat n" for s n
    using str_nat_no[OF is_digit_minus, of n] by (metis list.set_intros(1))
  then show ?thesis
    by (auto simp: str_int_def dest: sym)
qed

lemma str_int_nat: "0 \<le> i \<Longrightarrow> str_int i = str_nat (nat i)"
  by (simp add: str_int_def)

lemma hd_str_nat_zero: "hd (str_nat n) = CHR ''0'' \<Longrightarrow> n = 0"
proof (induction n rule: str_nat.induct)
  case (1 n)
  show ?case
  proof (cases "n < 10")
    case True
    with "1.prems" have "digit_char n = CHR ''0''" by (subst (asm) str_nat.simps) simp
    then have "digit_val (digit_char n) = digit_val (CHR ''0'')" by simp
    with True show ?thesis by (simp add: digit_char_inverse) (simp add: digit_val_def)
  next
    case False
    with "1.prems" have "hd (str_nat (n div 10)) = CHR ''0''"
      by (subst (asm) str_nat.simps) (simp add: hd_append)
    with "1.IH" False have "n div 10 = 0" by simp
    with False show ?thesis by simp
  qed
qed

lemma length_str_nat: "n < 10 ^ Suc k \<Longrightarrow> length (str_nat n) \<le> Suc k"
proof (induction k arbitrary: n)
  case 0
  then show ?case by (subst str_nat.simps) simp
next
  case (Suc k)
  show ?case
  proof (cases "n < 10")
    case True
    then show ?thesis by (subst str_nat.simps) simp
  next
    case False
    from Suc.prems have "n div 10 < 10 ^ Suc k"
      by (simp add: less_mult_imp_div_less)
    with Suc.IH False show ?thesis by (subst str_nat.simps) simp
  qed
qed

section \<open>Splitting and joining\<close>

text \<open>\<open>s.split(sep)\<close> for a one-character separator, and \<open>sep.join(parts)\<close>.\<close>

fun splitc :: "char \<Rightarrow> string \<Rightarrow> string list" where
  "splitc sep [] = [[]]"
| "splitc sep (c # cs) =
     (if c = sep then [] # splitc sep cs
      else (case splitc sep cs of [] \<Rightarrow> [[c]] | p # ps \<Rightarrow> (c # p) # ps))"

fun joins :: "string \<Rightarrow> string list \<Rightarrow> string" where
  "joins sep [] = []"
| "joins sep [p] = p"
| "joins sep (p # q # ps) = p @ sep @ joins sep (q # ps)"

lemma splitc_nonempty [simp]: "splitc sep s \<noteq> []"
  by (cases s) (auto split: list.splits)

lemma splitc_plain: "sep \<notin> set p \<Longrightarrow> splitc sep p = [p]"
  by (induction p) auto

lemma splitc_append: "sep \<notin> set p \<Longrightarrow> splitc sep (p @ sep # q) = p # splitc sep q"
  by (induction p) auto

lemma splitc_joins:
  "ps \<noteq> [] \<Longrightarrow> (\<And>p. p \<in> set ps \<Longrightarrow> sep \<notin> set p) \<Longrightarrow> splitc sep (joins [sep] ps) = ps"
proof (induction "[sep]" ps rule: joins.induct)
  case (2 p)
  then show ?case by (simp add: splitc_plain)
next
  case (3 p q ps)
  then show ?case by (simp add: splitc_append)
qed simp

section \<open>Other string operations\<close>

text \<open>\<open>str.lower\<close>, \<open>str.strip\<close>, \<open>str.isspace\<close>, and the operator \<open>sub in s\<close>.\<close>

definition lower_char :: "char \<Rightarrow> char" where
  "lower_char c =
     (if 65 \<le> (of_char c :: nat) \<and> (of_char c :: nat) \<le> 90 then char_of ((of_char c :: nat) + 32) else c)"

definition lower :: "string \<Rightarrow> string" where
  "lower s = map lower_char s"

definition is_space :: "char \<Rightarrow> bool" where
  "is_space c \<longleftrightarrow> (of_char c :: nat) \<in> {9, 10, 11, 12, 13, 28, 29, 30, 31, 32, 133, 160}"

definition lstrip :: "string \<Rightarrow> string" where
  "lstrip s = dropWhile is_space s"

definition rstrip :: "string \<Rightarrow> string" where
  "rstrip s = rev (dropWhile is_space (rev s))"

definition strip :: "string \<Rightarrow> string" where
  "strip s = rstrip (lstrip s)"

definition startswith :: "string \<Rightarrow> string \<Rightarrow> bool" where
  "startswith p s \<longleftrightarrow> take (length p) s = p"

fun contains :: "string \<Rightarrow> string \<Rightarrow> bool" where
  "contains sub [] \<longleftrightarrow> sub = []"
| "contains sub (c # cs) \<longleftrightarrow> startswith sub (c # cs) \<or> contains sub cs"

text \<open>\<open>s.split()\<close> without an argument: the maximal runs of non-space characters.\<close>

fun words_aux :: "string \<Rightarrow> string \<Rightarrow> string list" where
  "words_aux acc [] = (if acc = [] then [] else [rev acc])"
| "words_aux acc (c # cs) =
     (if is_space c then (if acc = [] then words_aux [] cs else rev acc # words_aux [] cs)
      else words_aux (c # acc) cs)"

definition split_ws :: "string \<Rightarrow> string list" where
  "split_ws s = words_aux [] s"

lemma startswith_append [simp]: "startswith p (p @ s)"
  by (simp add: startswith_def)

lemma contains_refl [simp]: "contains s s"
  by (cases s) (auto simp: startswith_def)

lemma contains_append_left: "contains p s \<Longrightarrow> contains p (q @ s)"
  by (induction q) auto

lemma contains_prefix: "contains p (p @ s)"
  by (cases "p @ s") (auto simp: startswith_def, metis startswith_append startswith_def)

lemma containsI: "contains p (q @ p @ s)"
  by (simp add: contains_append_left contains_prefix)

text \<open>
  \<open>int(s)\<close> of a string: surrounding space, an optional sign, and decimal digits in which a
  single underscore may separate two digits.
\<close>

fun digit_groups_ok :: "string \<Rightarrow> bool" where
  "digit_groups_ok [] = False"
| "digit_groups_ok [c] = is_digit c"
| "digit_groups_ok (c # d # cs) =
     (is_digit c \<and> (if d = CHR ''_'' then digit_groups_ok cs else digit_groups_ok (d # cs)))"

definition nat_of_text :: "string \<Rightarrow> nat option" where
  "nat_of_text s =
     (if digit_groups_ok s then Some (dec_value (filter is_digit s)) else None)"

definition int_of_text :: "string \<Rightarrow> exc + int" where
  "int_of_text s =
     (let t = strip s;
          err = Inl (ValueError (''invalid literal for int() with base 10: '' @ s))
      in case t of
           [] \<Rightarrow> err
         | c # cs \<Rightarrow>
             if c = CHR ''-'' then (case nat_of_text cs of None \<Rightarrow> err | Some n \<Rightarrow> Inr (- int n))
             else if c = CHR ''+'' then (case nat_of_text cs of None \<Rightarrow> err | Some n \<Rightarrow> Inr (int n))
             else (case nat_of_text t of None \<Rightarrow> err | Some n \<Rightarrow> Inr (int n)))"

lemma digits_groups_ok: "s \<noteq> [] \<Longrightarrow> list_all is_digit s \<Longrightarrow> digit_groups_ok s"
proof (induction s rule: digit_groups_ok.induct)
  case (3 c d cs)
  then have "d \<noteq> CHR ''_''" by (auto simp: is_digit_def)
  with 3 show ?case by simp
qed auto

lemma nat_of_text_str_nat [simp]: "nat_of_text (str_nat n) = Some n"
  using str_nat_digits[of n]
  by (simp add: nat_of_text_def digits_groups_ok filter_eq_self list_all_iff)

lemma digit_not_space: "is_digit c \<Longrightarrow> \<not> is_space c"
  by (auto simp: is_digit_def is_space_def)

lemma strip_solid:
  assumes "s \<noteq> []" "\<not> is_space (hd s)" "\<not> is_space (last s)"
  shows "strip s = s"
proof -
  have "lstrip s = s" using assms by (cases s) (auto simp: lstrip_def)
  moreover have "rev s \<noteq> []" "\<not> is_space (hd (rev s))" using assms by (auto simp: hd_rev)
  then have "dropWhile is_space (rev s) = rev s" by (cases "rev s") auto
  ultimately show ?thesis by (simp add: strip_def rstrip_def)
qed

lemma last_str_nat: "is_digit (last (str_nat n))"
  using str_nat_digits[of n] by (simp add: list_all_iff)

lemma last_str_nat_solid: "\<not> is_space (last (str_nat n))"
  by (rule digit_not_space) (rule last_str_nat)

text \<open>Reading back a printed integer gives the integer.\<close>

lemma int_of_text_str_int [simp]: "int_of_text (str_int i) = Inr i"
proof (cases "i < 0")
  case True
  have "strip (CHR ''-'' # str_nat (nat (- i))) = CHR ''-'' # str_nat (nat (- i))"
    by (rule strip_solid) (simp_all add: last_str_nat_solid, simp add: is_space_def)
  with True show ?thesis by (simp add: str_int_def int_of_text_def)
next
  case False
  have strip: "strip (str_nat (nat i)) = str_nat (nat i)"
    by (rule strip_solid) (auto simp: hd_str_nat last_str_nat_solid digit_not_space)
  obtain c cs where c: "str_nat (nat i) = c # cs" "is_digit c"
    using hd_str_nat[of "nat i"] by (cases "str_nat (nat i)") auto
  then have "c \<noteq> CHR ''-''" "c \<noteq> CHR ''+''" by (auto simp: is_digit_def)
  moreover have "nat_of_text (c # cs) = Some (nat i)"
    using c nat_of_text_str_nat[of "nat i"] by simp
  ultimately show ?thesis using c strip False by (simp add: str_int_def int_of_text_def)
qed

section \<open>Order\<close>

text \<open>Strings compare by code points.\<close>

fun str_less_eq :: "string \<Rightarrow> string \<Rightarrow> bool" where
  "str_less_eq [] t = True"
| "str_less_eq (a # s) [] = False"
| "str_less_eq (a # s) (b # t) =
     ((of_char a :: nat) < of_char b \<or> a = b \<and> str_less_eq s t)"

end
