(* ===== verification/Net_Topology.thy ===== *)
theory Net_Topology
  imports Py_Text
begin

text \<open>
  The topology half of \<open>daemon/edo_core/network.py\<close>: the constants, the per-owner subnets,
  gateways and bridge names, and the two functions that enumerate the host addresses of a
  subnet. An IPv4 address is its value as a natural number below \<open>2 ^ 32\<close>, as in Python's
  \<open>ipaddress\<close>; \<open>ip_str\<close> and \<open>net_str\<close> are \<open>str\<close> of an address and of a network, and
  \<open>ipv4_network_of\<close> is the constructor \<open>ipaddress.IPv4Network(text)\<close> for the notation with a
  prefix length (a dotted netmask, which the code never writes, is not read).
\<close>

section \<open>IPv4 addresses and networks (ipaddress)\<close>

record ipv4_network =
  net_addr :: nat
  prefixlen :: nat

abbreviation mk_net :: "nat \<Rightarrow> nat \<Rightarrow> ipv4_network" where
  "mk_net a p \<equiv> \<lparr>net_addr = a, prefixlen = p\<rparr>"

definition ip_of_octets :: "nat \<Rightarrow> nat \<Rightarrow> nat \<Rightarrow> nat \<Rightarrow> nat" where
  "ip_of_octets a b c d = a * 16777216 + b * 65536 + c * 256 + d"

definition ip_octets :: "nat \<Rightarrow> nat list" where
  "ip_octets a = [a div 16777216 mod 256, a div 65536 mod 256, a div 256 mod 256, a mod 256]"

definition ip_str :: "nat \<Rightarrow> string" where
  "ip_str a = joins ''.'' (map str_nat (ip_octets a))"

definition net_str :: "ipv4_network \<Rightarrow> string" where
  "net_str n = ip_str (net_addr n) @ ''/'' @ str_nat (prefixlen n)"

definition parse_octet :: "string \<Rightarrow> nat option" where
  "parse_octet s =
     (if s \<noteq> [] \<and> list_all is_digit s \<and> length s \<le> 3 \<and> (hd s = CHR ''0'' \<longrightarrow> length s = 1)
         \<and> dec_value s \<le> 255
      then Some (dec_value s) else None)"

definition parse_ip :: "string \<Rightarrow> nat option" where
  "parse_ip s =
     (case map parse_octet (splitc (CHR ''.'') s) of
        [Some a, Some b, Some c, Some d] \<Rightarrow> Some (ip_of_octets a b c d)
      | _ \<Rightarrow> None)"

definition parse_prefix :: "string \<Rightarrow> nat option" where
  "parse_prefix s =
     (if s \<noteq> [] \<and> list_all is_digit s \<and> dec_value s \<le> 32 then Some (dec_value s) else None)"

definition net_size :: "ipv4_network \<Rightarrow> nat" where
  "net_size n = 2 ^ (32 - prefixlen n)"

definition strict_net :: "string \<Rightarrow> nat \<Rightarrow> nat \<Rightarrow> exc + ipv4_network" where
  "strict_net s a p =
     (if a mod net_size (mk_net a p) = 0 then Inr (mk_net a p)
      else Inl (ValueError (s @ '' has host bits set'')))"

definition ipv4_network_of :: "string \<Rightarrow> exc + ipv4_network" where
  "ipv4_network_of s =
     (case splitc (CHR ''/'') s of
        [t] \<Rightarrow> (case parse_ip t of None \<Rightarrow> Inl (ValueError s) | Some a \<Rightarrow> strict_net s a 32)
      | [t, u] \<Rightarrow>
          (case parse_ip t of None \<Rightarrow> Inl (ValueError s)
           | Some a \<Rightarrow> (case parse_prefix u of None \<Rightarrow> Inl (ValueError s) | Some p \<Rightarrow> strict_net s a p))
      | _ \<Rightarrow> Inl (ValueError s))"

definition wf_net :: "ipv4_network \<Rightarrow> bool" where
  "wf_net n \<longleftrightarrow> prefixlen n \<le> 32 \<and> net_addr n < 2 ^ 32 \<and> net_addr n mod net_size n = 0"

text \<open>Membership, \<open>addr in network\<close>: the addresses that agree with it on the prefix.\<close>

definition in_net :: "nat \<Rightarrow> ipv4_network \<Rightarrow> bool" where
  "in_net a n \<longleftrightarrow> a div net_size n = net_addr n div net_size n"

text \<open>\<open>network.hosts()\<close>: without the network and the broadcast address, except for /31 and /32.\<close>

definition hosts :: "ipv4_network \<Rightarrow> nat list" where
  "hosts n =
     (if prefixlen n = 32 then [net_addr n]
      else if prefixlen n = 31 then [net_addr n, net_addr n + 1]
      else [net_addr n + 1 ..< net_addr n + net_size n - 1])"

section \<open>Topology constants and per-owner names\<close>

definition WG_SUBNET :: ipv4_network where
  "WG_SUBNET = mk_net (ip_of_octets 10 8 0 0) 24"

definition WG_SERVER_IP :: string where
  "WG_SERVER_IP = ''10.8.0.1''"

definition DOCKER_POOL :: ipv4_network where
  "DOCKER_POOL = mk_net (ip_of_octets 10 9 0 0) 16"

definition DOCKER_BRIDGE_PREFIX :: string where
  "DOCKER_BRIDGE_PREFIX = ''edo_o''"

definition owner_subnet :: "int \<Rightarrow> exc + ipv4_network" where
  "owner_subnet octet =
     (if \<not> (1 \<le> octet \<and> octet \<le> 254)
      then Inl (ValueError (''octet '' @ str_int octet @ '' out of range 1-254''))
      else ipv4_network_of (''10.9.'' @ str_int octet @ ''.0/24''))"

definition owner_gateway_ip :: "int \<Rightarrow> string" where
  "owner_gateway_ip octet = ''10.9.'' @ str_int octet @ ''.1''"

definition bridge_name :: "int \<Rightarrow> string" where
  "bridge_name octet = DOCKER_BRIDGE_PREFIX @ str_int octet"

section \<open>Subnet host iteration\<close>

definition iter_subnet_hosts :: "ipv4_network \<Rightarrow> string list \<Rightarrow> exc + string" where
  "iter_subnet_hosts network exclude =
     (case first_free (map ip_str (hosts network)) exclude of
        Some candidate \<Rightarrow> Inr candidate
      | None \<Rightarrow> Inl (RuntimeError (''subnet '' @ net_str network @ '' is exhausted'')))"

definition ordered_subnet_hosts :: "ipv4_network \<Rightarrow> string list \<Rightarrow> string list" where
  "ordered_subnet_hosts network reserved =
     [ip_str h. h \<leftarrow> hosts network, ip_str h \<notin> set reserved]"

section \<open>Printing and reading addresses\<close>

lemma str_nat_no_sep: "CHR ''.'' \<notin> set (str_nat n)" "CHR ''/'' \<notin> set (str_nat n)"
  by (rule str_nat_no, simp add: is_digit_def)+

lemma parse_octet_str_nat: "n < 256 \<Longrightarrow> parse_octet (str_nat n) = Some n"
proof -
  assume n: "n < 256"
  then have "length (str_nat n) \<le> 3" using length_str_nat[of n 2] by simp
  moreover have "hd (str_nat n) = CHR ''0'' \<Longrightarrow> length (str_nat n) = 1"
    by (drule hd_str_nat_zero) (simp add: str_nat.simps)
  ultimately show ?thesis using n by (simp add: parse_octet_def str_nat_digits)
qed

lemma ip_of_octets_inverse: "a < 2 ^ 32 \<Longrightarrow>
   ip_of_octets (a div 16777216 mod 256) (a div 65536 mod 256) (a div 256 mod 256) (a mod 256) = a"
proof -
  assume a: "a < 2 ^ 32"
  have 1: "a div 16777216 mod 256 = a div 16777216"
    using a by (simp add: less_mult_imp_div_less)
  have 2: "a div 16777216 = a div 65536 div 256" "a div 65536 = a div 256 div 256"
    by (simp_all add: div_mult2_eq[symmetric])
  have "a div 16777216 * 256 + a div 65536 mod 256 = a div 65536" unfolding 2(1) by simp
  moreover have "a div 65536 * 256 + a div 256 mod 256 = a div 256" unfolding 2(2) by simp
  moreover have "a div 256 * 256 + a mod 256 = a" by simp
  ultimately show ?thesis unfolding ip_of_octets_def 1 by linarith
qed

lemma parse_ip_ip_str: "a < 2 ^ 32 \<Longrightarrow> parse_ip (ip_str a) = Some a"
proof -
  assume a: "a < 2 ^ 32"
  have "splitc (CHR ''.'') (ip_str a) = map str_nat (ip_octets a)"
    unfolding ip_str_def
    by (rule splitc_joins) (auto simp: ip_octets_def str_nat_no_sep)
  then have "parse_ip (ip_str a) = Some (ip_of_octets (a div 16777216 mod 256)
      (a div 65536 mod 256) (a div 256 mod 256) (a mod 256))"
    unfolding parse_ip_def ip_octets_def
    by (simp only: list.simps parse_octet_str_nat mod_less_divisor zero_less_numeral option.case)
  then show ?thesis by (simp only: ip_of_octets_inverse[OF a])
qed

lemma ip_str_inj: "a < 2 ^ 32 \<Longrightarrow> b < 2 ^ 32 \<Longrightarrow> ip_str a = ip_str b \<longleftrightarrow> a = b"
  by (metis option.inject parse_ip_ip_str)

lemma ip_str_no_slash: "CHR ''/'' \<notin> set (ip_str a)"
  by (simp add: ip_str_def ip_octets_def str_nat_no_sep)

lemma parse_prefix_str_nat: "p \<le> 32 \<Longrightarrow> parse_prefix (str_nat p) = Some p"
  by (simp add: parse_prefix_def str_nat_digits)

lemma network_of_net_str: "wf_net n \<Longrightarrow> ipv4_network_of (net_str n) = Inr n"
  by (cases n)
    (simp add: ipv4_network_of_def net_str_def splitc_append splitc_plain ip_str_no_slash
      str_nat_no_sep parse_ip_ip_str parse_prefix_str_nat strict_net_def wf_net_def)

lemma net_str_inj: "wf_net m \<Longrightarrow> wf_net n \<Longrightarrow> net_str m = net_str n \<longleftrightarrow> m = n"
  by (metis network_of_net_str sum.inject(2))

section \<open>Owner subnets\<close>

definition owner_net :: "nat \<Rightarrow> ipv4_network" where
  "owner_net k = mk_net (ip_of_octets 10 9 k 0) 24"

lemma owner_net_size [simp]: "net_size (owner_net k) = 256"
  by (simp add: net_size_def owner_net_def)

lemma wf_owner_net: "k < 256 \<Longrightarrow> wf_net (owner_net k)"
proof -
  assume "k < 256"
  moreover have "168361984 + k * 256 = (657664 + k) * 256" by simp
  then have "(168361984 + k * 256) mod 256 = 0" by (simp only: mod_mult_self2_is_0)
  ultimately show ?thesis
    by (simp add: wf_net_def net_size_def owner_net_def ip_of_octets_def)
qed

lemma wf_pools [simp]: "wf_net WG_SUBNET" "wf_net DOCKER_POOL"
  by (simp_all add: wf_net_def net_size_def WG_SUBNET_def DOCKER_POOL_def ip_of_octets_def)

lemma div_65536: "a div 65536 = a div 256 div (256::nat)"
  by (simp add: div_mult2_eq[symmetric])

lemma ip_str_10_9:
  assumes "k < 256" "d < 256"
  shows "ip_str (ip_of_octets 10 9 k d) = ''10.9.'' @ str_nat k @ ''.'' @ str_nat d"
proof -
  let ?a = "ip_of_octets 10 9 k d"
  have low: "?a = d + (k + 2569 * 256) * 256" by (simp add: ip_of_octets_def)
  have d: "?a mod 256 = d" unfolding low mod_mult_self1 using assms by simp
  have x: "?a div 256 = k + 2569 * 256" unfolding low using assms by simp
  have c: "?a div 256 mod 256 = k" unfolding x mod_mult_self1 using assms by simp
  have y: "?a div 65536 = 2569" unfolding div_65536 x using assms by simp
  have b: "?a div 65536 mod 256 = 9" unfolding y by simp
  have "?a div 16777216 = ?a div 65536 div 256" by (simp add: div_mult2_eq[symmetric])
  then have a: "?a div 16777216 mod 256 = 10" unfolding y by simp
  have "str_nat 10 = ''10''" "str_nat 9 = ''9''"
    by code_simp+
  then show ?thesis by (simp only: ip_str_def ip_octets_def a b c d) simp
qed

lemma net_str_owner_net:
  "k < 256 \<Longrightarrow> net_str (owner_net k) = ''10.9.'' @ str_nat k @ ''.0/24''"
proof -
  assume "k < 256"
  moreover have "str_nat 0 = ''0''" "str_nat 24 = ''24''" by code_simp+
  ultimately show ?thesis using ip_str_10_9[of k 0] by (simp add: net_str_def owner_net_def)
qed

lemma owner_subnet_eq:
  "owner_subnet octet =
     (if 1 \<le> octet \<and> octet \<le> 254 then Inr (owner_net (nat octet))
      else Inl (ValueError (''octet '' @ str_int octet @ '' out of range 1-254'')))"
proof (cases "1 \<le> octet \<and> octet \<le> 254")
  case True
  then have k: "nat octet < 256" "0 \<le> octet" by auto
  have "ipv4_network_of (net_str (owner_net (nat octet))) = Inr (owner_net (nat octet))"
    by (rule network_of_net_str) (rule wf_owner_net[OF k(1)])
  then show ?thesis
    using True k by (simp add: owner_subnet_def net_str_owner_net str_int_nat)
qed (simp add: owner_subnet_def)

lemma in_owner_net_iff: "k < 256 \<Longrightarrow> in_net a (owner_net k) \<longleftrightarrow> a div 256 = 657664 + k"
  by (simp add: in_net_def, simp add: owner_net_def ip_of_octets_def)

lemma in_docker_pool_iff: "in_net a DOCKER_POOL \<longleftrightarrow> a div 65536 = 2569"
  by (simp add: in_net_def DOCKER_POOL_def net_size_def ip_of_octets_def)

lemma in_wg_subnet_iff: "in_net a WG_SUBNET \<longleftrightarrow> a div 256 = 657408"
  by (simp add: in_net_def WG_SUBNET_def net_size_def ip_of_octets_def)

lemma owner_net_in_pool: "k < 256 \<Longrightarrow> in_net a (owner_net k) \<Longrightarrow> in_net a DOCKER_POOL"
  by (simp add: in_owner_net_iff in_docker_pool_iff div_65536)

lemma wg_not_pool: "in_net a WG_SUBNET \<Longrightarrow> \<not> in_net a DOCKER_POOL"
  by (simp add: in_wg_subnet_iff in_docker_pool_iff div_65536)

lemma owner_nets_disjoint:
  "j < 256 \<Longrightarrow> k < 256 \<Longrightarrow> in_net a (owner_net j) \<Longrightarrow> in_net a (owner_net k) \<Longrightarrow> j = k"
  by (simp add: in_owner_net_iff)

lemma in_host_net: "in_net a (mk_net b 32) \<longleftrightarrow> a = b"
  by (simp add: in_net_def net_size_def)

lemma hosts_owner_net:
  "hosts (owner_net k) = [ip_of_octets 10 9 k 1 ..< ip_of_octets 10 9 k 255]"
  by (simp add: hosts_def net_size_def owner_net_def ip_of_octets_def)

lemma hosts_bound: "wf_net n \<Longrightarrow> h \<in> set (hosts n) \<Longrightarrow> h < 2 ^ 32"
proof -
  assume wf: "wf_net n" and h: "h \<in> set (hosts n)"
  define m where "m = net_size n"
  have m: "0 < m" "m dvd 2 ^ 32"
    unfolding m_def net_size_def by (simp, rule le_imp_power_dvd, simp)
  then obtain q where q: "2 ^ 32 = m * q" by blast
  have "m dvd net_addr n" using wf by (auto simp: wf_net_def m_def mod_eq_0_iff_dvd)
  then obtain r where r: "net_addr n = m * r" by blast
  have "m * r < m * q" using wf r q by (simp add: wf_net_def)
  then have "Suc r \<le> q" using m(1) by simp
  then have "m * Suc r \<le> m * q" by (rule mult_le_mono2)
  then have top: "net_addr n + m \<le> 2 ^ 32" using r q by simp
  have "h < net_addr n + m" using h m(1) wf
    by (auto simp: hosts_def m_def net_size_def wf_net_def split: if_splits)
  with top show ?thesis by simp
qed

lemma distinct_hosts: "distinct (hosts n)"
  by (auto simp: hosts_def)

lemma distinct_host_strs: "wf_net n \<Longrightarrow> distinct (map ip_str (hosts n))"
  using hosts_bound ip_str_inj by (auto simp: distinct_map distinct_hosts inj_on_def)

lemma bridge_name_inj: "bridge_name i = bridge_name j \<longleftrightarrow> i = j"
  by (simp add: bridge_name_def)

end
