(* ===== verification/Firewall_Rules.thy ===== *)
theory Firewall_Rules
  imports Net_Topology
begin

text \<open>
  The rule set of the daemon's firewall: \<open>_build_chain_rules\<close> of \<open>daemon/edo_core/network.py\<close>,
  which turns the peers and octets of every owner into the argument lists of
  \<open>iptables -A\<close>, and the policy those rules implement. The rules are texts, as in the code;
  which packets a rule matches is decided by iptables, a parameter \<open>rm\<close> here, of which the
  theorems assume what iptables(8) documents for the two shapes of rule the code writes
  (\<open>documented_match\<close>).
\<close>

section \<open>Building the chain\<close>

definition EDO_CHAIN :: string where
  "EDO_CHAIN = ''EDO_FORWARD''"

type_synonym rule = "string list"

definition accept_pair :: "string \<Rightarrow> string \<Rightarrow> rule list" where
  "accept_pair subnet ip =
     [[EDO_CHAIN, ''-s'', ip @ ''/32'', ''-d'', subnet, ''-j'', ''ACCEPT''],
      [EDO_CHAIN, ''-s'', subnet, ''-d'', ip @ ''/32'', ''-j'', ''ACCEPT'']]"

text \<open>
  The loop over \<open>octets_by_owner.items()\<close>, with \<open>peers_by_owner.get(key, [])\<close>. The first
  dictionary is the list of its items in insertion order, the second one a partial map.
\<close>

definition get_peers :: "(owner \<Rightarrow> string list option) \<Rightarrow> owner \<Rightarrow> string list" where
  "get_peers peers_by_owner key = (case peers_by_owner key of None \<Rightarrow> [] | Some ips \<Rightarrow> ips)"

fun owner_rules ::
  "(owner \<Rightarrow> string list option) \<Rightarrow> (owner \<times> int) list \<Rightarrow> exc + rule list" where
  "owner_rules peers_by_owner [] = Inr []"
| "owner_rules peers_by_owner ((key, octet) # items) =
     (case owner_subnet octet of
        Inl e \<Rightarrow> Inl e
      | Inr subnet \<Rightarrow>
          (case owner_rules peers_by_owner items of
             Inl e \<Rightarrow> Inl e
           | Inr rules \<Rightarrow>
               Inr (concat (map (accept_pair (net_str subnet)) (get_peers peers_by_owner key)) @ rules)))"

definition build_chain_rules ::
  "string \<Rightarrow> (owner \<Rightarrow> string list option) \<Rightarrow> (owner \<times> int) list \<Rightarrow> exc + rule list" where
  "build_chain_rules public_iface peers_by_owner octets_by_owner =
     (let wg = net_str WG_SUBNET; docker_pool = net_str DOCKER_POOL in
      case owner_rules peers_by_owner octets_by_owner of
        Inl e \<Rightarrow> Inl e
      | Inr accepts \<Rightarrow>
          Inr ([[EDO_CHAIN, ''-s'', wg, ''-d'', wg, ''-j'', ''DROP'']]
               @ accepts
               @ [[EDO_CHAIN, ''-s'', docker_pool, ''-d'', docker_pool, ''-j'', ''DROP''],
                  [EDO_CHAIN, ''-s'', docker_pool, ''-o'', public_iface, ''-j'', ''DROP'']]))"

section \<open>What iptables does with a chain\<close>

record packet =
  pkt_src :: nat
  pkt_dst :: nat
  pkt_oif :: string

text \<open>
  A matcher says which packets the specification of a rule (its arguments after the chain)
  matches. \<open>documented_match\<close> is what iptables(8) says of the two shapes in use: \<open>-s\<close> and \<open>-d\<close>
  compare the address with a network, \<open>-o\<close> compares the name of the output interface (a name
  ending in \<open>+\<close> is a wildcard, so it is excluded).
\<close>

type_synonym matcher = "rule \<Rightarrow> packet \<Rightarrow> bool"

definition plain_iface :: "string \<Rightarrow> bool" where
  "plain_iface i \<longleftrightarrow> i \<noteq> [] \<and> last i \<noteq> CHR ''+''"

definition documented_match :: "matcher \<Rightarrow> bool" where
  "documented_match rm \<longleftrightarrow>
     (\<forall>a b t p. wf_net a \<longrightarrow> wf_net b \<longrightarrow>
        rm [''-s'', net_str a, ''-d'', net_str b, ''-j'', t] p
          = (in_net (pkt_src p) a \<and> in_net (pkt_dst p) b)) \<and>
     (\<forall>a i t p. wf_net a \<longrightarrow> plain_iface i \<longrightarrow>
        rm [''-s'', net_str a, ''-o'', i, ''-j'', t] p = (in_net (pkt_src p) a \<and> pkt_oif p = i))"

text \<open>
  The first matching rule decides; its target is its last argument. A packet that no rule
  matches leaves the chain undecided (\<open>None\<close>) and goes on to the rules after the hook.
\<close>

definition chain_verdict :: "matcher \<Rightarrow> rule list \<Rightarrow> packet \<Rightarrow> string option" where
  "chain_verdict rm specs p = map_option last (find (\<lambda>r. rm r p) specs)"

text \<open>A matcher that has the documented behaviour, by reading the networks of the rule back.\<close>

definition reading_match :: matcher where
  "reading_match r p =
     (case r of
        [s, a, k, b, j, t] \<Rightarrow>
          s = ''-s'' \<and>
          (case ipv4_network_of a of Inl _ \<Rightarrow> False | Inr n \<Rightarrow> in_net (pkt_src p) n) \<and>
          (if k = ''-d'' then (case ipv4_network_of b of Inl _ \<Rightarrow> False | Inr n \<Rightarrow> in_net (pkt_dst p) n)
           else k = ''-o'' \<and> pkt_oif p = b)
      | _ \<Rightarrow> False)"

lemma documented_reading_match: "documented_match reading_match"
  by (simp add: documented_match_def reading_match_def network_of_net_str)

section \<open>The policy\<close>

text \<open>
  What the rule set promises, over owners, addresses and subnets instead of texts.
\<close>

datatype decision = Accepted | Dropped | Undecided

definition decision_of :: "string option \<Rightarrow> decision" where
  "decision_of v =
     (case v of None \<Rightarrow> Undecided
      | Some t \<Rightarrow> if t = ''ACCEPT'' then Accepted else if t = ''DROP'' then Dropped else Undecided)"

text \<open>The pairs of one peer address and the octet of the owner it belongs to.\<close>

definition grants ::
  "(owner \<Rightarrow> string list option) \<Rightarrow> (owner \<times> int) list \<Rightarrow> (string \<times> int) set" where
  "grants peers octets = {(ip, k). \<exists>key. (key, k) \<in> set octets \<and> ip \<in> set (get_peers peers key)}"

definition granted :: "(string \<times> int) set \<Rightarrow> packet \<Rightarrow> bool" where
  "granted G p \<longleftrightarrow>
     (\<exists>(ip, k) \<in> G.
        ip = ip_str (pkt_src p) \<and> in_net (pkt_dst p) (owner_net (nat k)) \<or>
        ip = ip_str (pkt_dst p) \<and> in_net (pkt_src p) (owner_net (nat k)))"

definition policy ::
  "string \<Rightarrow> (owner \<Rightarrow> string list option) \<Rightarrow> (owner \<times> int) list \<Rightarrow> packet \<Rightarrow> decision" where
  "policy public_iface peers octets p =
     (if in_net (pkt_src p) WG_SUBNET \<and> in_net (pkt_dst p) WG_SUBNET then Dropped
      else if granted (grants peers octets) p then Accepted
      else if in_net (pkt_src p) DOCKER_POOL \<and> in_net (pkt_dst p) DOCKER_POOL then Dropped
      else if in_net (pkt_src p) DOCKER_POOL \<and> pkt_oif p = public_iface then Dropped
      else Undecided)"

text \<open>The inputs the daemon gives to the builder.\<close>

definition wf_packet :: "packet \<Rightarrow> bool" where
  "wf_packet p \<longleftrightarrow> pkt_src p < 2 ^ 32 \<and> pkt_dst p < 2 ^ 32"

definition ip_text :: "string \<Rightarrow> bool" where
  "ip_text s \<longleftrightarrow> (\<exists>a < 2 ^ 32. s = ip_str a)"

definition wf_inputs :: "(owner \<Rightarrow> string list option) \<Rightarrow> (owner \<times> int) list \<Rightarrow> bool" where
  "wf_inputs peers octets \<longleftrightarrow>
     (\<forall>(key, k) \<in> set octets. 1 \<le> k \<and> k \<le> 254 \<and> (\<forall>ip \<in> set (get_peers peers key). ip_text ip))"

section \<open>The rules implement the policy\<close>

lemma decision_simps [simp]:
  "decision_of (Some ''ACCEPT'') = Accepted" "decision_of (Some ''DROP'') = Dropped"
  "decision_of None = Undecided"
  by (simp_all add: decision_of_def)

lemma owner_rules_ok:
  "wf_inputs peers octets \<Longrightarrow>
   owner_rules peers octets =
     Inr (concat (map (\<lambda>(key, k). concat (map (accept_pair (net_str (owner_net (nat k))))
                                            (get_peers peers key))) octets))"
  by (induction octets) (auto simp: wf_inputs_def owner_subnet_eq)

lemma host_net_str: "ip_str a @ ''/32'' = net_str (mk_net a 32)"
proof -
  have "str_nat 32 = ''32''" by code_simp
  then show ?thesis by (simp add: net_str_def)
qed

lemma wf_host_net: "a < 2 ^ 32 \<Longrightarrow> wf_net (mk_net a 32)"
  by (simp add: wf_net_def net_size_def)

lemma match_net_net:
  "documented_match rm \<Longrightarrow> wf_net a \<Longrightarrow> wf_net b \<Longrightarrow>
   rm [''-s'', net_str a, ''-d'', net_str b, ''-j'', t] p
     = (in_net (pkt_src p) a \<and> in_net (pkt_dst p) b)"
  by (simp add: documented_match_def)

lemma match_net_oif:
  "documented_match rm \<Longrightarrow> wf_net a \<Longrightarrow> plain_iface i \<Longrightarrow>
   rm [''-s'', net_str a, ''-o'', i, ''-j'', t] p = (in_net (pkt_src p) a \<and> pkt_oif p = i)"
  by (simp add: documented_match_def)

lemma match_accept_pair:
  assumes "documented_match rm" "k < 256" "a < 2 ^ 32"
  shows "list_ex (\<lambda>r. rm (tl r) p) (accept_pair (net_str (owner_net k)) (ip_str a)) \<longleftrightarrow>
     (pkt_src p = a \<and> in_net (pkt_dst p) (owner_net k) \<or>
      in_net (pkt_src p) (owner_net k) \<and> pkt_dst p = a)"
  using assms
  by (simp add: accept_pair_def host_net_str match_net_net wf_host_net wf_owner_net in_host_net)

lemma accept_pair_accepts: "r \<in> set (accept_pair s ip) \<Longrightarrow> last (tl r) = ''ACCEPT''"
  by (auto simp: accept_pair_def)

text \<open>A run of rules with one target decides like a single rule that matches what they match.\<close>

lemma verdict_same_target:
  assumes "\<And>r. r \<in> set rs \<Longrightarrow> last r = t"
  shows "chain_verdict rm (rs @ rest) p
       = (if list_ex (\<lambda>r. rm r p) rs then Some t else chain_verdict rm rest p)"
  using assms by (induction rs) (auto simp: chain_verdict_def)

lemma verdict_Cons:
  "chain_verdict rm (r # rest) p = (if rm r p then Some (last r) else chain_verdict rm rest p)"
  by (simp add: chain_verdict_def)

lemma verdict_Nil [simp]: "chain_verdict rm [] p = None"
  by (simp add: chain_verdict_def)

lemma granted_iff:
  assumes "documented_match rm" "wf_inputs peers octets" "wf_packet p"
    and "owner_rules peers octets = Inr accepts"
  shows "list_ex (\<lambda>r. rm r p) (map tl accepts) \<longleftrightarrow> granted (grants peers octets) p"
proof -
  have acc: "accepts = concat (map (\<lambda>(key, k). concat (map
      (accept_pair (net_str (owner_net (nat k)))) (get_peers peers key))) octets)"
    using assms(2,4) by (simp add: owner_rules_ok)
  have one: "list_ex (\<lambda>r. rm (tl r) p) (accept_pair (net_str (owner_net (nat k))) ip) \<longleftrightarrow>
      ip = ip_str (pkt_src p) \<and> in_net (pkt_dst p) (owner_net (nat k)) \<or>
      ip = ip_str (pkt_dst p) \<and> in_net (pkt_src p) (owner_net (nat k))"
    if "(key, k) \<in> set octets" "ip \<in> set (get_peers peers key)" for key k ip
  proof -
    have range: "1 \<le> k" "k \<le> 254" and "ip_text ip"
      using assms(2) that by (auto simp: wf_inputs_def)
    then obtain a where "a < 2 ^ 32" "ip = ip_str a" by (auto simp: ip_text_def)
    then show ?thesis
      using range assms(3) match_accept_pair[OF assms(1), of "nat k" a p]
      by (auto simp: ip_str_inj wf_packet_def)
  qed
  have "list_ex (\<lambda>r. rm r p) (map tl accepts) \<longleftrightarrow>
    (\<exists>(key, k) \<in> set octets. \<exists>ip \<in> set (get_peers peers key).
       list_ex (\<lambda>r. rm (tl r) p) (accept_pair (net_str (owner_net (nat k))) ip))"
    by (fastforce simp: acc list_ex_iff)
  also have "\<dots> \<longleftrightarrow> granted (grants peers octets) p"
    unfolding granted_def grants_def using one by fastforce
  finally show ?thesis .
qed

lemma build_rules_ok:
  "wf_inputs peers octets \<Longrightarrow> \<exists>rules. build_chain_rules i peers octets = Inr rules"
  by (simp add: build_chain_rules_def owner_rules_ok Let_def)

lemma verdict_is_policy:
  assumes "documented_match rm" "plain_iface i" "wf_inputs peers octets" "wf_packet p"
    and rules: "build_chain_rules i peers octets = Inr rules"
  shows "decision_of (chain_verdict rm (map tl rules) p) = policy i peers octets p"
proof -
  obtain accepts where acc: "owner_rules peers octets = Inr accepts"
    using assms(3) by (simp add: owner_rules_ok)
  have tgt: "last r = ''ACCEPT''" if "r \<in> set (map tl accepts)" for r
    using that acc assms(3) by (auto simp: owner_rules_ok dest: accept_pair_accepts)
  let ?wg = "net_str WG_SUBNET" and ?dp = "net_str DOCKER_POOL"
  have specs: "map tl rules =
      [''-s'', ?wg, ''-d'', ?wg, ''-j'', ''DROP''] # map tl accepts
      @ [[''-s'', ?dp, ''-d'', ?dp, ''-j'', ''DROP''], [''-s'', ?dp, ''-o'', i, ''-j'', ''DROP'']]"
    using rules acc by (auto simp: build_chain_rules_def Let_def)
  have accepts: "chain_verdict rm (map tl accepts @ rest) p
      = (if granted (grants peers octets) p then Some ''ACCEPT'' else chain_verdict rm rest p)" for rest
    unfolding granted_iff[OF assms(1,3,4) acc, symmetric]
    by (rule verdict_same_target) (rule tgt)
  show ?thesis
    unfolding specs
    by (simp add: verdict_Cons accepts match_net_net[OF assms(1)]
        match_net_oif[OF assms(1) _ assms(2)] policy_def)
qed

section \<open>Isolation, from what the state store promises\<close>

text \<open>
  The decision of the chain that the daemon builds from a state, and the contract of the store
  it reads: octets are in range, belong to one owner each and are unique for an owner; a peer's
  address lies in the WireGuard subnet and belongs to one owner.
\<close>

definition chain_decision ::
  "matcher \<Rightarrow> string \<Rightarrow> (owner \<Rightarrow> string list option) \<Rightarrow> (owner \<times> int) list \<Rightarrow> packet \<Rightarrow> decision" where
  "chain_decision rm i peers octets p =
     (case build_chain_rules i peers octets of
        Inl _ \<Rightarrow> Undecided
      | Inr rules \<Rightarrow> decision_of (chain_verdict rm (map tl rules) p))"

lemma chain_decision_policy:
  "documented_match rm \<Longrightarrow> plain_iface i \<Longrightarrow> wf_inputs peers octets \<Longrightarrow> wf_packet p \<Longrightarrow>
   chain_decision rm i peers octets p = policy i peers octets p"
  using build_rules_ok[of peers octets i] verdict_is_policy[of rm i peers octets p]
  by (auto simp: chain_decision_def)

lemma grantedI:
  "(key, k) \<in> set octets \<Longrightarrow> ip_str (pkt_src p) \<in> set (get_peers peers key) \<Longrightarrow>
   in_net (pkt_dst p) (owner_net (nat k)) \<Longrightarrow> granted (grants peers octets) p"
  unfolding granted_def grants_def by blast

lemma wg_addr_bound: "in_net a WG_SUBNET \<Longrightarrow> a < 2 ^ 32"
proof -
  assume "in_net a WG_SUBNET"
  then have "a div 256 < 657409" by (simp add: in_wg_subnet_iff)
  then have "a < 657409 * 256" by (simp only: div_less_iff_less_mult zero_less_numeral)
  then show ?thesis by simp
qed

locale firewall_source =
  fixes inv :: "'s \<Rightarrow> bool"
    and peers :: "'s \<Rightarrow> owner \<Rightarrow> string list option"
    and octets :: "'s \<Rightarrow> (owner \<times> int) list"
  assumes octet_range: "inv s \<Longrightarrow> (key, k) \<in> set (octets s) \<Longrightarrow> 1 \<le> k \<and> k \<le> 254"
    and octet_owner: "inv s \<Longrightarrow> (key, k) \<in> set (octets s) \<Longrightarrow> (key', k) \<in> set (octets s) \<Longrightarrow> key = key'"
    and octet_unique: "inv s \<Longrightarrow> (key, k) \<in> set (octets s) \<Longrightarrow> (key, k') \<in> set (octets s) \<Longrightarrow> k = k'"
    and peer_addr: "inv s \<Longrightarrow> ip \<in> set (get_peers (peers s) key) \<Longrightarrow>
           \<exists>a. in_net a WG_SUBNET \<and> ip = ip_str a"
    and peer_owner: "inv s \<Longrightarrow> ip \<in> set (get_peers (peers s) key) \<Longrightarrow>
           ip \<in> set (get_peers (peers s) key') \<Longrightarrow> key = key'"
begin

lemma peer_text: "inv s \<Longrightarrow> ip \<in> set (get_peers (peers s) key) \<Longrightarrow> ip_text ip"
  using peer_addr wg_addr_bound unfolding ip_text_def by blast

lemma inputs_ok: "inv s \<Longrightarrow> wf_inputs (peers s) (octets s)"
  using octet_range peer_text unfolding wf_inputs_def by blast

lemma granted_cases:
  assumes "inv s" "wf_packet p" "granted (grants (peers s) (octets s)) p"
  obtains key k where "(key, k) \<in> set (octets s)"
    "ip_str (pkt_src p) \<in> set (get_peers (peers s) key)" "in_net (pkt_src p) WG_SUBNET"
    "in_net (pkt_dst p) (owner_net (nat k))"
  | key k where "(key, k) \<in> set (octets s)"
    "ip_str (pkt_dst p) \<in> set (get_peers (peers s) key)" "in_net (pkt_dst p) WG_SUBNET"
    "in_net (pkt_src p) (owner_net (nat k))"
proof -
  have addr: "in_net a WG_SUBNET" if "ip_str a \<in> set (get_peers (peers s) key)" "a < 2 ^ 32" for a key
    using peer_addr[OF assms(1) that(1)] wg_addr_bound that(2) by (auto simp: ip_str_inj)
  from assms(3) show ?thesis
    using that addr assms(2) by (fastforce simp: granted_def grants_def wf_packet_def)
qed

lemma containers_isolated:
  assumes "documented_match rm" "plain_iface i" "inv s" "wf_packet p"
    and "in_net (pkt_src p) DOCKER_POOL" "in_net (pkt_dst p) DOCKER_POOL"
  shows "chain_decision rm i (peers s) (octets s) p = Dropped"
proof -
  have "\<not> granted (grants (peers s) (octets s)) p"
    using granted_cases[OF assms(3,4)] assms(5,6) wg_not_pool by metis
  then show ?thesis
    using assms by (simp add: chain_decision_policy inputs_ok policy_def)
qed

lemma egress_contained:
  assumes "documented_match rm" "plain_iface i" "inv s" "wf_packet p"
    and "in_net (pkt_src p) DOCKER_POOL" "\<not> in_net (pkt_dst p) WG_SUBNET" "pkt_oif p = i"
  shows "chain_decision rm i (peers s) (octets s) p = Dropped"
proof -
  have "\<not> granted (grants (peers s) (octets s)) p"
    using granted_cases[OF assms(3,4)] assms(5,6) wg_not_pool by metis
  then show ?thesis
    using assms by (simp add: chain_decision_policy inputs_ok policy_def)
qed

lemma accepted_only_own:
  assumes "documented_match rm" "plain_iface i" "inv s" "wf_packet p"
    and "chain_decision rm i (peers s) (octets s) p = Accepted"
  shows "\<exists>key k. (key, k) \<in> set (octets s) \<and>
     (ip_str (pkt_src p) \<in> set (get_peers (peers s) key) \<and> in_net (pkt_dst p) (owner_net (nat k)) \<or>
      ip_str (pkt_dst p) \<in> set (get_peers (peers s) key) \<and> in_net (pkt_src p) (owner_net (nat k)))"
proof -
  have "granted (grants (peers s) (octets s)) p"
    using assms by (simp add: chain_decision_policy inputs_ok policy_def split: if_splits)
  then show ?thesis using granted_cases[OF assms(3,4)] by metis
qed

lemma own_access_accepted:
  assumes "documented_match rm" "plain_iface i" "inv s" "wf_packet p"
    and key: "(key, k) \<in> set (octets s)"
    and peer: "ip_str (pkt_src p) \<in> set (get_peers (peers s) key)"
    and dst: "in_net (pkt_dst p) (owner_net (nat k))"
  shows "chain_decision rm i (peers s) (octets s) p = Accepted"
proof -
  have "granted (grants (peers s) (octets s)) p"
    by (rule grantedI[OF key peer dst])
  moreover have "\<not> in_net (pkt_dst p) WG_SUBNET"
    using dst octet_range[OF assms(3) key] owner_net_in_pool[of "nat k"] wg_not_pool by force
  ultimately show ?thesis
    using assms by (simp add: chain_decision_policy inputs_ok policy_def)
qed

text \<open>
  A peer's packet to the subnet of another owner is never accepted, but no rule of the chain
  drops it either: it leaves the chain undecided.
\<close>

lemma foreign_access_undecided:
  assumes "documented_match rm" "plain_iface i" "inv s" "wf_packet p"
    and peer: "ip_str (pkt_src p) \<in> set (get_peers (peers s) key)"
    and key': "(key', k') \<in> set (octets s)" "key' \<noteq> key"
    and dst: "in_net (pkt_dst p) (owner_net (nat k'))"
  shows "chain_decision rm i (peers s) (octets s) p = Undecided"
proof -
  obtain a where "in_net a WG_SUBNET" "ip_str (pkt_src p) = ip_str a"
    using peer_addr[OF assms(3) peer] by blast
  then have src: "in_net (pkt_src p) WG_SUBNET"
    using assms(4) wg_addr_bound by (auto simp: wf_packet_def ip_str_inj)
  have r': "1 \<le> k'" "k' \<le> 254" using octet_range[OF assms(3) key'(1)] by auto
  then have dst': "in_net (pkt_dst p) DOCKER_POOL" using dst owner_net_in_pool[of "nat k'"] by force
  have "\<not> granted (grants (peers s) (octets s)) p"
  proof
    assume "granted (grants (peers s) (octets s)) p"
    then show False
    proof (rule granted_cases[OF assms(3,4)])
      fix key1 k1
      assume g: "(key1, k1) \<in> set (octets s)" "ip_str (pkt_src p) \<in> set (get_peers (peers s) key1)"
        "in_net (pkt_dst p) (owner_net (nat k1))"
      have "key1 = key" using peer_owner[OF assms(3) g(2) peer] .
      moreover have "nat k1 = nat k'"
        using owner_nets_disjoint[OF _ _ g(3) dst] octet_range[OF assms(3) g(1)] r' by force
      then have "k1 = k'" using octet_range[OF assms(3) g(1)] r' by simp
      ultimately show False using octet_owner[OF assms(3)] g(1) key' by blast
    qed (use dst' wg_not_pool in blast)
  qed
  then show ?thesis
    using assms(1-4) src dst' wg_not_pool
    by (auto simp: chain_decision_policy inputs_ok policy_def)
qed

end

end
