(* ===== verification/Store_Contracts.thy ===== *)
theory Store_Contracts
  imports Edo_Prelude
begin

text \<open>
  The contracts under which the daemon's components use its state store: a pool that hands out
  a value to one holder each (owner octets, WireGuard addresses), and a store of rows that have
  a key and an identifier (tracked containers). The laws are the assumptions of the locales;
  what a client may conclude about any sequence of requests is proved from them once. The
  locales are interpreted on the tables of \<open>db.py\<close> in \<open>Daemon_Db\<close>.
\<close>

section \<open>Pools of exclusive values\<close>

datatype 'k request = Claim 'k | Release 'k

text \<open>The state after a sequence of requests, each of which may fail.\<close>

fun serve ::
  "('k \<Rightarrow> 's \<Rightarrow> (exc + 'v) \<times> 's) \<Rightarrow> ('k \<Rightarrow> 's \<Rightarrow> bool \<times> 's) \<Rightarrow> 'k request list \<Rightarrow> 's \<Rightarrow> 's" where
  "serve claim release [] s = s"
| "serve claim release (Claim k # rs) s = serve claim release rs (snd (claim k s))"
| "serve claim release (Release k # rs) s = serve claim release rs (snd (release k s))"

locale exclusive_pool =
  fixes inv :: "'s \<Rightarrow> bool"
    and pool :: "'v set"
    and holding :: "'k \<Rightarrow> 's \<Rightarrow> 'v option"
    and claim :: "'k \<Rightarrow> 's \<Rightarrow> (exc + 'v) \<times> 's"
    and release :: "'k \<Rightarrow> 's \<Rightarrow> bool \<times> 's"
  assumes holding_pool: "inv s \<Longrightarrow> holding k s = Some v \<Longrightarrow> v \<in> pool"
    and exclusive: "inv s \<Longrightarrow> holding k s = Some v \<Longrightarrow> holding k' s = Some v \<Longrightarrow> k = k'"
    and claim_inv: "inv s \<Longrightarrow> claim k s = (r, s') \<Longrightarrow> inv s'"
    and claim_held: "inv s \<Longrightarrow> claim k s = (Inr v, s') \<Longrightarrow> holding k s' = Some v"
    and claim_others: "inv s \<Longrightarrow> claim k s = (r, s') \<Longrightarrow> k' \<noteq> k \<Longrightarrow> holding k' s' = holding k' s"
    and claim_failed: "inv s \<Longrightarrow> claim k s = (Inl e, s') \<Longrightarrow> s' = s"
    and claim_room: "inv s \<Longrightarrow> holding k s = None \<Longrightarrow> v \<in> pool \<Longrightarrow> (\<And>k'. holding k' s \<noteq> Some v) \<Longrightarrow>
          \<exists>u s'. claim k s = (Inr u, s')"
    and release_inv: "inv s \<Longrightarrow> release k s = (b, s') \<Longrightarrow> inv s'"
    and release_self: "inv s \<Longrightarrow> release k s = (b, s') \<Longrightarrow> holding k s' = None \<and> b = (holding k s \<noteq> None)"
    and release_others: "inv s \<Longrightarrow> release k s = (b, s') \<Longrightarrow> k' \<noteq> k \<Longrightarrow> holding k' s' = holding k' s"
begin

lemma serve_inv: "inv s \<Longrightarrow> inv (serve claim release rs s)"
proof (induction rs arbitrary: s)
  case (Cons r rs)
  then show ?case
    using claim_inv[OF Cons.prems surjective_pairing] release_inv[OF Cons.prems surjective_pairing]
    by (cases r) simp_all
qed simp

text \<open>Whatever was requested, no two keys hold the same value and every value is of the pool.\<close>

lemma serve_exclusive:
  "inv s \<Longrightarrow> holding k (serve claim release rs s) = Some v \<Longrightarrow>
   holding k' (serve claim release rs s) = Some v \<Longrightarrow> k = k' \<and> v \<in> pool"
  using serve_inv exclusive holding_pool by blast

lemma serve_untouched:
  "inv s \<Longrightarrow> Claim k \<notin> set rs \<Longrightarrow> Release k \<notin> set rs \<Longrightarrow>
   holding k (serve claim release rs s) = holding k s"
proof (induction rs arbitrary: s)
  case (Cons r rs)
  show ?case
  proof (cases r)
    case (Claim k')
    obtain x s' where step: "claim k' s = (x, s')" by (cases "claim k' s")
    have "k' \<noteq> k" using Claim Cons.prems by auto
    then show ?thesis
      using Claim Cons step claim_inv[OF Cons.prems(1) step] claim_others[OF Cons.prems(1) step] by simp
  next
    case (Release k')
    obtain x s' where step: "release k' s = (x, s')" by (cases "release k' s")
    have "k' \<noteq> k" using Release Cons.prems by auto
    then show ?thesis
      using Release Cons step release_inv[OF Cons.prems(1) step]
        release_others[OF Cons.prems(1) step] by simp
  qed
qed simp

text \<open>A value that was given back can be handed out again.\<close>

lemma reusable:
  assumes "inv s" "holding k s = Some v" "release k s = (b, s')" "holding k' s' = None"
  shows "\<exists>u s''. claim k' s' = (Inr u, s'')"
proof (rule claim_room[OF release_inv[OF assms(1,3)] assms(4) holding_pool[OF assms(1,2)]])
  fix k'' show "holding k'' s' \<noteq> Some v"
    using release_self[OF assms(1,3)] release_others[OF assms(1,3), of k'']
      exclusive[OF assms(1,2), of k''] by (cases "k'' = k") auto
qed

text \<open>A claim fails only when every value of the pool is held or the key already holds one.\<close>

lemma failed_exhausted:
  assumes "inv s" "holding k s = None" "claim k s = (Inl e, s')" "v \<in> pool"
  shows "\<exists>k'. holding k' s = Some v"
  using claim_room[OF assms(1,2,4)] assms(3) by fastforce

end

text \<open>A pool whose claim is idempotent: a key that holds a value is given that value again.\<close>

locale idempotent_pool = exclusive_pool +
  assumes claim_again: "inv s \<Longrightarrow> holding k s = Some v \<Longrightarrow> claim k s = (Inr v, s)"
begin

lemma claim_twice:
  "inv s \<Longrightarrow> claim k s = (Inr v, s') \<Longrightarrow> claim k s' = (Inr v, s')"
  using claim_again claim_held claim_inv by metis

lemma claim_keeps_all:
  "inv s \<Longrightarrow> claim k s = (r, s') \<Longrightarrow> holding k' s = Some v \<Longrightarrow> holding k' s' = Some v"
  using claim_again claim_others by (cases "k' = k") fastforce+

text \<open>Claims alone never take a value away.\<close>

lemma claims_stable:
  "inv s \<Longrightarrow> holding k s = Some v \<Longrightarrow> holding k (serve claim release (map Claim ks) s) = Some v"
proof (induction ks arbitrary: s)
  case (Cons k' ks)
  obtain r s' where step: "claim k' s = (r, s')" by (cases "claim k' s")
  then show ?case
    using Cons claim_inv[OF Cons.prems(1) step] claim_keeps_all[OF Cons.prems(1) step] by simp
qed simp

end

section \<open>Stores of keyed rows\<close>

text \<open>
  Rows with a unique key and a unique identifier: looked up by key, removed by identifier.
\<close>

locale keyed_store =
  fixes inv :: "'s \<Rightarrow> bool"
    and key_of :: "'r \<Rightarrow> 'k"
    and id_of :: "'r \<Rightarrow> 'i"
    and rows :: "'s \<Rightarrow> 'r list"
    and lookup :: "'k \<Rightarrow> 's \<Rightarrow> 'r option"
    and insert_row :: "'r \<Rightarrow> 's \<Rightarrow> (exc + 'r) \<times> 's"
    and delete :: "'i \<Rightarrow> 's \<Rightarrow> bool \<times> 's"
  assumes lookup_rows: "inv s \<Longrightarrow> lookup k s = Some r \<longleftrightarrow> r \<in> set (rows s) \<and> key_of r = k"
    and id_unique: "inv s \<Longrightarrow> r \<in> set (rows s) \<Longrightarrow> r' \<in> set (rows s) \<Longrightarrow> id_of r = id_of r' \<Longrightarrow> r = r'"
    and insert_inv: "inv s \<Longrightarrow> insert_row r s = (x, s') \<Longrightarrow> inv s'"
    and insert_ok: "inv s \<Longrightarrow> insert_row r s = (Inr r', s') \<Longrightarrow>
          rows s' = rows s @ [r'] \<and> key_of r' = key_of r \<and> id_of r' = id_of r"
    and insert_err: "inv s \<Longrightarrow> insert_row r s = (Inl e, s') \<Longrightarrow>
          s' = s \<and> (\<exists>r' \<in> set (rows s). key_of r' = key_of r \<or> id_of r' = id_of r)"
    and delete_ok: "inv s \<Longrightarrow> delete i s = (b, s') \<Longrightarrow>
          inv s' \<and> rows s' = filter (\<lambda>r. id_of r \<noteq> i) (rows s) \<and> b = (\<exists>r \<in> set (rows s). id_of r = i)"
begin

lemma lookup_None: "inv s \<Longrightarrow> lookup k s = None \<longleftrightarrow> (\<forall>r \<in> set (rows s). key_of r \<noteq> k)"
  using lookup_rows[of s k] by (cases "lookup k s") auto

lemma lookup_insert:
  assumes "inv s" "insert_row r s = (Inr r', s')"
  shows "lookup (key_of r) s' = Some r'"
  using lookup_rows[OF insert_inv[OF assms]] insert_ok[OF assms] by auto

lemma lookup_eqI:
  assumes "inv s" "inv s'" "\<And>q. q \<in> set (rows s') \<and> key_of q = k \<longleftrightarrow> q \<in> set (rows s) \<and> key_of q = k \<and> P q"
  shows "lookup k s' = (case lookup k s of None \<Rightarrow> None | Some r \<Rightarrow> if P r then Some r else None)"
proof -
  have eq: "lookup k s' = Some q \<longleftrightarrow> lookup k s = Some q \<and> P q" for q
    unfolding lookup_rows[OF assms(1)] lookup_rows[OF assms(2)] using assms(3) by blast
  show ?thesis
  proof (cases "lookup k s")
    case None
    then have "lookup k s' = None" using eq by (metis not_Some_eq)
    with None show ?thesis by simp
  next
    case (Some r)
    have "lookup k s' = (if P r then Some r else None)"
    proof (cases "P r")
      case True
      then show ?thesis using eq[of r] Some by simp
    next
      case False
      then show ?thesis using eq Some by (metis not_Some_eq option.inject)
    qed
    with Some show ?thesis by simp
  qed
qed

lemma lookup_insert_other:
  assumes "inv s" "insert_row r s = (x, s')" "k \<noteq> key_of r"
  shows "lookup k s' = lookup k s"
proof (cases x)
  case (Inl e)
  then show ?thesis using assms insert_err by blast
next
  case (Inr r')
  note ins = insert_ok[OF assms(1,2)[unfolded Inr]]
  have "lookup k s' = (case lookup k s of None \<Rightarrow> None | Some r \<Rightarrow> if True then Some r else None)"
    by (rule lookup_eqI[OF assms(1) insert_inv[OF assms(1,2)]]) (use ins assms(3) in auto)
  then show ?thesis by (simp split: option.splits)
qed

lemma delete_lookup:
  assumes "inv s" "delete i s = (b, s')"
  shows "lookup k s' = (case lookup k s of None \<Rightarrow> None | Some r \<Rightarrow> if id_of r \<noteq> i then Some r else None)"
  using delete_ok[OF assms] by (intro lookup_eqI assms(1)) auto

lemma insert_delete_rows:
  assumes "inv s" "insert_row r s = (Inr r', s')" "delete (id_of r) s' = (b, s'')"
    and "\<forall>q \<in> set (rows s). id_of q \<noteq> id_of r"
  shows "b \<and> rows s'' = rows s"
  using delete_ok[OF insert_inv[OF assms(1,2)] assms(3)] insert_ok[OF assms(1,2)] assms(4)
  by (auto intro: filter_eq_self)

end

end
