(* ===== verification/Daemon_Db.thy ===== *)
theory Daemon_Db
  imports Firewall_Rules Store_Contracts
begin

text \<open>
  The daemon's SQLite state, \<open>daemon/edo_core/db.py\<close>: the three tables, the operations of
  \<open>DatabaseManager\<close>, the invariant that the operations keep, and the contracts under which the
  other components use them. Every \<open>with self._conn()\<close> block is one transaction under the
  manager's lock, so an operation of the model is a function on the whole database; a block
  that raises rolls back, which returns the database it started from. A table is the list of
  its rows in the order of their row ids: rows are appended with a fresh id, so
  \<open>ORDER BY id\<close> is the order of the list.
\<close>

section \<open>Rows and tables\<close>

record peer =
  peer_id :: int
  peer_owner :: owner
  username :: string
  ip_address :: string
  public_key :: string
  private_key :: "string option"

record owner_octet =
  oct_owner :: owner
  octet :: int

record inst =
  inst_id :: int
  container_id :: string
  container_name :: string
  inst_owner :: owner
  challenge_ref :: string
  assigned_ip :: string
  ports :: string
  status :: string
  expires_at :: "string option"
  published_ports :: "string option"

text \<open>\<open>peer_seq\<close> and \<open>inst_seq\<close> are the AUTOINCREMENT counters: the largest id handed out.\<close>

record db =
  peers :: "peer list"
  peer_seq :: int
  octets :: "owner_octet list"
  instances :: "inst list"
  inst_seq :: int

definition empty_db :: db where
  "empty_db = \<lparr>peers = [], peer_seq = 0, octets = [], instances = [], inst_seq = 0\<rparr>"

text \<open>
  The three INSERTs. A row that breaks a constraint raises \<open>IntegrityError\<close> with SQLite's
  message; of two UNIQUE constraints that fail, SQLite reports the one declared last (and an
  explicit PRIMARY KEY clause of several columns counts as declared last).
\<close>

definition insert_peer ::
  "owner \<Rightarrow> string \<Rightarrow> string \<Rightarrow> string \<Rightarrow> string option \<Rightarrow> db \<Rightarrow> (exc + peer) \<times> db" where
  "insert_peer ow user ip pub priv d =
     (if ip \<in> ip_address ` set (peers d)
      then (Inl (IntegrityError ''UNIQUE constraint failed: peers.ip_address''), d)
      else if user \<in> username ` set (peers d)
      then (Inl (IntegrityError ''UNIQUE constraint failed: peers.username''), d)
      else (let p = \<lparr>peer_id = peer_seq d + 1, peer_owner = ow, username = user, ip_address = ip,
                     public_key = pub, private_key = priv\<rparr>
            in (Inr p, d\<lparr>peers := peers d @ [p], peer_seq := peer_seq d + 1\<rparr>)))"

definition insert_octet :: "owner \<Rightarrow> int \<Rightarrow> db \<Rightarrow> (exc + unit) \<times> db" where
  "insert_octet ow k d =
     (if \<not> (1 \<le> k \<and> k \<le> 254)
      then (Inl (IntegrityError ''CHECK constraint failed: octet BETWEEN 1 AND 254''), d)
      else if ow \<in> oct_owner ` set (octets d)
      then (Inl (IntegrityError ''UNIQUE constraint failed: owner_octets.owner_type, owner_octets.owner_id''), d)
      else if k \<in> octet ` set (octets d)
      then (Inl (IntegrityError ''UNIQUE constraint failed: owner_octets.octet''), d)
      else (Inr (), d\<lparr>octets := octets d @ [\<lparr>oct_owner = ow, octet = k\<rparr>]\<rparr>))"

definition insert_inst ::
  "string \<Rightarrow> string \<Rightarrow> owner \<Rightarrow> string \<Rightarrow> string \<Rightarrow> string \<Rightarrow> string option \<Rightarrow> string \<Rightarrow> string option
   \<Rightarrow> db \<Rightarrow> (exc + int) \<times> db" where
  "insert_inst cid cname ow chal ip ps pub st expi d =
     (if (ow, chal) \<in> (\<lambda>i. (inst_owner i, challenge_ref i)) ` set (instances d)
      then (Inl (IntegrityError
        ''UNIQUE constraint failed: instances.owner_type, instances.owner_id, instances.challenge_ref''), d)
      else if cid \<in> container_id ` set (instances d)
      then (Inl (IntegrityError ''UNIQUE constraint failed: instances.container_id''), d)
      else (let i = \<lparr>inst_id = inst_seq d + 1, container_id = cid, container_name = cname,
                     inst_owner = ow, challenge_ref = chal, assigned_ip = ip, ports = ps, status = st,
                     expires_at = expi, published_ports = pub\<rparr>
            in (Inr (inst_seq d + 1), d\<lparr>instances := instances d @ [i], inst_seq := inst_seq d + 1\<rparr>)))"

section \<open>Peers\<close>

definition last_error_str :: "exc option \<Rightarrow> string" where
  "last_error_str e = (case e of None \<Rightarrow> ''None'' | Some x \<Rightarrow> exc_str x)"

text \<open>
  The retry loop of \<open>allocate_peer\<close>: \<open>left\<close> attempts remain of the \<open>attempts\<close> in the message.
  An \<open>IntegrityError\<close> on the address is retried, one on the user name is a \<open>ValueError\<close>, any
  other one is raised again.
\<close>

fun allocate_peer_loop ::
  "nat \<Rightarrow> nat \<Rightarrow> exc option \<Rightarrow> owner \<Rightarrow> string \<Rightarrow> string \<Rightarrow> string list \<Rightarrow> string option \<Rightarrow> db
   \<Rightarrow> (exc + peer) \<times> db" where
  "allocate_peer_loop 0 attempts last_error ow user pub cands priv d =
     (Inl (RuntimeError (''could not allocate an IP for '' @ quote @ user @ quote @ '' after '' @ str_nat attempts
        @ '' attempts (last error: '' @ last_error_str last_error @ '')'')), d)"
| "allocate_peer_loop (Suc left) attempts last_error ow user pub cands priv d =
     (case first_free cands (map ip_address (peers d)) of
        None \<Rightarrow> (Inl (RuntimeError ''WireGuard subnet is exhausted''), d)
      | Some ip \<Rightarrow>
          (case insert_peer ow user ip pub priv d of
             (Inr p, d') \<Rightarrow> (Inr p, d')
           | (Inl (IntegrityError s), d') \<Rightarrow>
               if contains ''username'' (lower s)
               then (Inl (ValueError (''peer '' @ quote @ user @ quote @ '' already exists'')), d')
               else if contains ''ip_address'' (lower s)
               then allocate_peer_loop left attempts (Some (IntegrityError s)) ow user pub cands priv d'
               else (Inl (IntegrityError s), d')
           | (Inl e, d') \<Rightarrow> (Inl e, d')))"

definition allocate_peer ::
  "owner \<Rightarrow> string \<Rightarrow> string \<Rightarrow> string list \<Rightarrow> string option \<Rightarrow> db \<Rightarrow> (exc + peer) \<times> db" where
  "allocate_peer ow user pub cands priv d =
     (let attempts = max 8 (length cands)
      in allocate_peer_loop attempts attempts None ow user pub cands priv d)"

definition remove_peer_row :: "string \<Rightarrow> db \<Rightarrow> bool \<times> db" where
  "remove_peer_row user d =
     (list_ex (\<lambda>p. username p = user) (peers d),
      d\<lparr>peers := filter (\<lambda>p. username p \<noteq> user) (peers d)\<rparr>)"

definition get_peer :: "string \<Rightarrow> db \<Rightarrow> peer option" where
  "get_peer user d = find (\<lambda>p. username p = user) (peers d)"

definition get_peer_by_owner :: "owner \<Rightarrow> db \<Rightarrow> peer list" where
  "get_peer_by_owner ow d = filter (\<lambda>p. peer_owner p = ow) (peers d)"

definition get_all_peers :: "db \<Rightarrow> peer list" where
  "get_all_peers d = peers d"

definition get_used_peer_ips :: "db \<Rightarrow> string list" where
  "get_used_peer_ips d = map ip_address (peers d)"

text \<open>\<open>out.setdefault((p.owner_type, p.owner_id), []).append(p.ip_address)\<close> for every peer.\<close>

fun group_peers :: "(owner \<Rightarrow> string list option) \<Rightarrow> peer list \<Rightarrow> owner \<Rightarrow> string list option" where
  "group_peers out [] = out"
| "group_peers out (p # ps) =
     group_peers (out(peer_owner p \<mapsto>
       (case out (peer_owner p) of None \<Rightarrow> [] | Some ips \<Rightarrow> ips) @ [ip_address p])) ps"

definition peers_grouped_by_owner :: "db \<Rightarrow> owner \<Rightarrow> string list option" where
  "peers_grouped_by_owner d = group_peers Map.empty (get_all_peers d)"

section \<open>Owner octets\<close>

definition get_octet :: "owner \<Rightarrow> db \<Rightarrow> int option" where
  "get_octet ow d = map_option octet (find (\<lambda>o'. oct_owner o' = ow) (octets d))"

text \<open>\<open>range(1, 255)\<close>\<close>

definition OCTETS :: "int list" where
  "OCTETS = [1..254]"

text \<open>
  The transaction in the body of the loop of \<open>allocate_octet\<close>, and the loop, which is entered
  when \<open>get_octet\<close> found no row: an \<open>IntegrityError\<close> is retried.
\<close>

definition octet_attempt :: "owner \<Rightarrow> db \<Rightarrow> (exc + int) \<times> db" where
  "octet_attempt ow d =
     (case first_free OCTETS (map octet (octets d)) of
        None \<Rightarrow> (Inl (RuntimeError ''docker subnet pool exhausted (254 owners already allocated)''), d)
      | Some k \<Rightarrow> and_then (insert_octet ow k d) (\<lambda>_ d'. (Inr k, d')))"

definition octet_give_up :: "exc option \<Rightarrow> exc" where
  "octet_give_up last_error =
     RuntimeError (''could not allocate an octet (last error: '' @ last_error_str last_error @ '')'')"

fun allocate_octet_loop :: "nat \<Rightarrow> exc option \<Rightarrow> owner \<Rightarrow> db \<Rightarrow> (exc + int) \<times> db" where
  "allocate_octet_loop 0 last_error ow d = (Inl (octet_give_up last_error), d)"
| "allocate_octet_loop (Suc left) last_error ow d =
     (case octet_attempt ow d of
        (Inl (IntegrityError s), d') \<Rightarrow> allocate_octet_loop left (Some (IntegrityError s)) ow d'
      | (r, d') \<Rightarrow> (r, d'))"

definition allocate_octet :: "owner \<Rightarrow> db \<Rightarrow> (exc + int) \<times> db" where
  "allocate_octet ow d =
     (case get_octet ow d of
        Some k \<Rightarrow> (Inr k, d)
      | None \<Rightarrow> allocate_octet_loop 254 None ow d)"

definition free_octet :: "owner \<Rightarrow> db \<Rightarrow> bool \<times> db" where
  "free_octet ow d =
     (list_ex (\<lambda>o'. oct_owner o' = ow) (octets d),
      d\<lparr>octets := filter (\<lambda>o'. oct_owner o' \<noteq> ow) (octets d)\<rparr>)"

definition get_all_owner_octets :: "db \<Rightarrow> owner_octet list" where
  "get_all_owner_octets d = sort_key octet (octets d)"

text \<open>The dictionary that \<open>_rebuild_firewall\<close> makes of them (\<open>daemon/edo_daemon.py\<close>).\<close>

definition octets_by_owner :: "db \<Rightarrow> (owner \<times> int) list" where
  "octets_by_owner d = map (\<lambda>o'. (oct_owner o', octet o')) (get_all_owner_octets d)"

section \<open>Instances\<close>

definition add_instance ::
  "string \<Rightarrow> string \<Rightarrow> owner \<Rightarrow> string \<Rightarrow> string \<Rightarrow> string \<Rightarrow> string option \<Rightarrow> string \<Rightarrow> string option
   \<Rightarrow> db \<Rightarrow> (exc + inst) \<times> db" where
  "add_instance cid cname ow chal ip ps expi st pub d =
     (case insert_inst cid cname ow chal ip ps pub st expi d of
        (Inl e, d') \<Rightarrow> (Inl (ValueError (''instance record collision: '' @ exc_str e)), d')
      | (Inr row_id, d') \<Rightarrow>
          (Inr \<lparr>inst_id = row_id, container_id = cid, container_name = cname, inst_owner = ow,
                challenge_ref = chal, assigned_ip = ip, ports = ps, status = st, expires_at = expi,
                published_ports = pub\<rparr>, d'))"

definition remove_instance :: "string \<Rightarrow> db \<Rightarrow> bool \<times> db" where
  "remove_instance cid d =
     (list_ex (\<lambda>i. container_id i = cid) (instances d),
      d\<lparr>instances := filter (\<lambda>i. container_id i \<noteq> cid) (instances d)\<rparr>)"

definition find_instance :: "owner \<Rightarrow> string \<Rightarrow> db \<Rightarrow> inst option" where
  "find_instance ow chal d = find (\<lambda>i. inst_owner i = ow \<and> challenge_ref i = chal) (instances d)"

definition get_active_instances :: "db \<Rightarrow> inst list" where
  "get_active_instances d = filter (\<lambda>i. status i = ''running'') (instances d)"

definition get_all_instances :: "db \<Rightarrow> inst list" where
  "get_all_instances d = instances d"

definition get_used_instance_ips :: "owner \<Rightarrow> db \<Rightarrow> string list" where
  "get_used_instance_ips ow d =
     map assigned_ip (filter (\<lambda>i. inst_owner i = ow \<and> status i = ''running'') (instances d))"

definition count_instances_for_owner :: "owner \<Rightarrow> db \<Rightarrow> nat" where
  "count_instances_for_owner ow d = length (filter (\<lambda>i. inst_owner i = ow) (instances d))"

definition update_instance_status :: "string \<Rightarrow> string \<Rightarrow> db \<Rightarrow> bool \<times> db" where
  "update_instance_status cid st d =
     (list_ex (\<lambda>i. container_id i = cid) (instances d),
      d\<lparr>instances := map (\<lambda>i. if container_id i = cid then i\<lparr>status := st\<rparr> else i) (instances d)\<rparr>)"

section \<open>The invariant\<close>

text \<open>
  The UNIQUE, PRIMARY KEY and CHECK constraints of the schema, ids below their counters, and
  what the callers of \<open>allocate_peer\<close> add: every address is a host of the WireGuard subnet.
\<close>

definition inst_key :: "inst \<Rightarrow> owner \<times> string" where
  "inst_key i = (inst_owner i, challenge_ref i)"

definition wg_host_text :: "string \<Rightarrow> bool" where
  "wg_host_text s \<longleftrightarrow> (\<exists>a. in_net a WG_SUBNET \<and> s = ip_str a)"

definition peers_ok :: "db \<Rightarrow> bool" where
  "peers_ok d \<longleftrightarrow>
     distinct (map username (peers d)) \<and> distinct (map ip_address (peers d)) \<and>
     (\<forall>p \<in> set (peers d). wg_host_text (ip_address p) \<and> peer_id p \<le> peer_seq d)"

definition octets_ok :: "db \<Rightarrow> bool" where
  "octets_ok d \<longleftrightarrow>
     distinct (map oct_owner (octets d)) \<and> distinct (map octet (octets d)) \<and>
     (\<forall>o' \<in> set (octets d). 1 \<le> octet o' \<and> octet o' \<le> 254)"

definition instances_ok :: "db \<Rightarrow> bool" where
  "instances_ok d \<longleftrightarrow>
     distinct (map container_id (instances d)) \<and> distinct (map inst_key (instances d)) \<and>
     (\<forall>i \<in> set (instances d). inst_id i \<le> inst_seq d)"

definition db_ok :: "db \<Rightarrow> bool" where
  "db_ok d \<longleftrightarrow> peers_ok d \<and> octets_ok d \<and> instances_ok d"

lemma empty_db_ok: "db_ok empty_db"
  by (simp add: db_ok_def peers_ok_def octets_ok_def instances_ok_def empty_db_def)


section \<open>Peers: what the operations do\<close>

lemma exc_texts:
  "contains ''username'' (lower ''UNIQUE constraint failed: peers.username'')"
  by code_simp

text \<open>
  Run without a concurrent writer, the retry loop of \<open>allocate_peer\<close> inserts at its first
  attempt: the address it picked is free.
\<close>

lemma allocate_peer_eq:
  "allocate_peer ow user pub cands priv d =
     (case first_free cands (map ip_address (peers d)) of
        None \<Rightarrow> (Inl (RuntimeError ''WireGuard subnet is exhausted''), d)
      | Some ip \<Rightarrow>
          if user \<in> username ` set (peers d)
          then (Inl (ValueError (''peer '' @ quote @ user @ quote @ '' already exists'')), d)
          else (let p = \<lparr>peer_id = peer_seq d + 1, peer_owner = ow, username = user, ip_address = ip,
                         public_key = pub, private_key = priv\<rparr>
                in (Inr p, d\<lparr>peers := peers d @ [p], peer_seq := peer_seq d + 1\<rparr>)))"
proof -
  obtain n where n: "max 8 (length cands) = Suc n"
    by (metis Suc_le_D max.cobounded1 numeral_eq_Suc)
  show ?thesis
  proof (cases "first_free cands (map ip_address (peers d))")
    case None
    then show ?thesis by (simp add: allocate_peer_def n)
  next
    case (Some ip)
    have "ip \<notin> ip_address ` set (peers d)" using ff.pick_fresh[OF Some] by simp
    then show ?thesis using Some exc_texts by (simp add: allocate_peer_def n insert_peer_def Let_def)
  qed
qed

lemma allocate_peer_Inr:
  assumes "allocate_peer ow user pub cands priv d = (Inr p, d')"
  shows "peers d' = peers d @ [p]" "peer_seq d' = peer_id p" "peer_id p = peer_seq d + 1"
    "octets d' = octets d" "instances d' = instances d" "inst_seq d' = inst_seq d"
    "peer_owner p = ow" "username p = user" "public_key p = pub" "private_key p = priv"
    "ip_address p \<in> set cands" "ip_address p \<notin> ip_address ` set (peers d)"
    "user \<notin> username ` set (peers d)"
  using assms ff.pick_fresh[of cands "map ip_address (peers d)"]
  by (auto simp: allocate_peer_eq Let_def split: option.splits if_splits)

lemma allocate_peer_Inl:
  "allocate_peer ow user pub cands priv d = (Inl e, d') \<Longrightarrow>
   d' = d \<and> (set cands \<subseteq> set (get_used_peer_ips d) \<or> get_peer user d \<noteq> None)"
  by (auto simp: allocate_peer_eq Let_def get_used_peer_ips_def get_peer_def find_None_iff first_free_None
      split: option.splits if_splits)

lemma get_peer_Some:
  "distinct (map username (peers d)) \<Longrightarrow>
   get_peer user d = Some p \<longleftrightarrow> p \<in> set (peers d) \<and> username p = user"
proof -
  assume dist: "distinct (map username (peers d))"
  show ?thesis
  proof (cases "get_peer user d")
    case None
    then have "\<forall>q \<in> set (peers d). username q \<noteq> user" by (auto simp: get_peer_def find_None_iff)
    then show ?thesis using None by auto
  next
    case (Some q)
    then have "q \<in> set (peers d) \<and> username q = user" unfolding get_peer_def by (rule find_Some_in)
    then show ?thesis using Some distinct_map_inj[OF dist] by auto
  qed
qed

lemma get_peer_None: "get_peer user d = None \<longleftrightarrow> user \<notin> username ` set (peers d)"
  by (auto simp: get_peer_def find_None_iff)

lemma allocate_peer_ok:
  assumes "db_ok d" "allocate_peer ow user pub cands priv d = (r, d')" "\<forall>c \<in> set cands. wg_host_text c"
  shows "db_ok d'"
proof (cases r)
  case (Inl e)
  then show ?thesis using assms(1,2) allocate_peer_Inl by blast
next
  case (Inr p)
  note new = allocate_peer_Inr[OF assms(2)[unfolded Inr]]
  have "\<forall>q \<in> set (peers d). peer_id q \<le> peer_id p"
    using assms(1) new(3) by (fastforce simp: db_ok_def peers_ok_def)
  then show ?thesis
    using assms(1,3) new by (auto simp: db_ok_def peers_ok_def octets_ok_def instances_ok_def)
qed

lemma remove_peer_row_ok: "db_ok d \<Longrightarrow> remove_peer_row user d = (b, d') \<Longrightarrow> db_ok d'"
  by (auto simp: remove_peer_row_def db_ok_def peers_ok_def octets_ok_def instances_ok_def
      map_filter_distinct)

text \<open>Removing the row that was just inserted restores the table (the roll back of \<open>add_peer\<close>).\<close>

lemma remove_allocated_peer:
  assumes "allocate_peer ow user pub cands priv d = (Inr p, d')"
  shows "remove_peer_row user d' = (True, d\<lparr>peer_seq := peer_seq d + 1\<rparr>)"
proof -
  note new = allocate_peer_Inr[OF assms]
  have "filter (\<lambda>p. username p \<noteq> user) (peers d) = peers d"
    using new(13) by (intro filter_eq_self) auto
  then show ?thesis using new by (simp add: remove_peer_row_def)
qed

lemma group_peers_get:
  "get_peers (group_peers out ps) key =
     get_peers out key @ map ip_address (filter (\<lambda>p. peer_owner p = key) ps)"
proof (induction ps arbitrary: out)
  case (Cons p ps)
  then show ?case by (auto simp: get_peers_def split: option.splits)
qed simp

lemma get_peers_grouped:
  "get_peers (peers_grouped_by_owner d) ow = map ip_address (get_peer_by_owner ow d)"
  by (simp add: peers_grouped_by_owner_def get_all_peers_def group_peers_get get_peer_by_owner_def)
    (simp add: get_peers_def)

section \<open>Octets: what the operations do\<close>

lemma set_OCTETS [simp]: "set OCTETS = {1..254}"
  by (auto simp: OCTETS_def simp del: upto_rec_numeral)

lemma distinct_OCTETS [simp]: "distinct OCTETS"
  by (simp add: OCTETS_def del: upto_rec_numeral)

lemma length_OCTETS [simp]: "length OCTETS = 254"
  by (simp add: OCTETS_def del: upto_rec_numeral)

lemma get_octet_None: "get_octet ow d = None \<longleftrightarrow> ow \<notin> oct_owner ` set (octets d)"
  by (auto simp: get_octet_def find_None_iff)

lemma octet_eta [simp]: "\<lparr>oct_owner = oct_owner q, octet = octet q\<rparr> = q"
  by (cases q) simp

lemma get_octet_Some:
  assumes "distinct (map oct_owner (octets d))"
  shows "get_octet ow d = Some k \<longleftrightarrow> \<lparr>oct_owner = ow, octet = k\<rparr> \<in> set (octets d)"
proof (cases "get_octet ow d")
  case None
  then have "ow \<notin> oct_owner ` set (octets d)" by (simp add: get_octet_None)
  then have "\<lparr>oct_owner = ow, octet = k\<rparr> \<notin> set (octets d)" by force
  then show ?thesis by (simp add: None)
next
  case (Some j)
  then obtain q where "find (\<lambda>o'. oct_owner o' = ow) (octets d) = Some q" "octet q = j"
    by (auto simp: get_octet_def)
  then have q: "q \<in> set (octets d)" "oct_owner q = ow" "octet q = j" using find_Some_in by force+
  then have "q = \<lparr>oct_owner = ow, octet = j\<rparr>" using octet_eta[of q] by simp
  then show ?thesis using q Some distinct_map_inj[OF assms] by fastforce
qed

text \<open>
  An attempt for an owner without a row serves it the first free octet. An attempt for an owner
  that has a row already fails on the primary key, so the loop never serves it: it ends in an
  exception without changing the table.
\<close>

lemma octet_attempt_new:
  assumes "ow \<notin> oct_owner ` set (octets d)"
  shows "octet_attempt ow d =
     (case first_free OCTETS (map octet (octets d)) of
        None \<Rightarrow> (Inl (RuntimeError ''docker subnet pool exhausted (254 owners already allocated)''), d)
      | Some k \<Rightarrow> (Inr k, d\<lparr>octets := octets d @ [\<lparr>oct_owner = ow, octet = k\<rparr>]\<rparr>))"
proof (cases "first_free OCTETS (map octet (octets d))")
  case (Some k)
  have "1 \<le> k" "k \<le> 254" "k \<notin> octet ` set (octets d)" using ff.pick_fresh[OF Some] by auto
  then show ?thesis using Some assms by (simp add: insert_octet_def octet_attempt_def)
qed (simp add: octet_attempt_def)

lemma octet_attempt_taken:
  assumes "ow \<in> oct_owner ` set (octets d)"
  shows "(\<exists>e. octet_attempt ow d = (Inl (IntegrityError e), d)) \<or> (\<exists>e. octet_attempt ow d = (Inl (RuntimeError e), d))"
proof (cases "first_free OCTETS (map octet (octets d))")
  case (Some k)
  have "1 \<le> k" "k \<le> 254" using ff.pick_fresh[OF Some] by auto
  then show ?thesis using Some assms by (simp add: insert_octet_def octet_attempt_def)
qed (simp add: octet_attempt_def)

lemma octet_loop_first:
  "ow \<notin> oct_owner ` set (octets d) \<Longrightarrow> allocate_octet_loop (Suc n) last_error ow d = octet_attempt ow d"
  by (simp add: octet_attempt_new split: option.splits)

lemma octet_loop_taken:
  assumes "ow \<in> oct_owner ` set (octets d)"
  shows "\<exists>e. allocate_octet_loop n last_error ow d = (Inl (RuntimeError e), d)"
proof (induction n arbitrary: last_error)
  case (Suc n)
  then show ?case using octet_attempt_taken[OF assms] by fastforce
qed (simp add: octet_give_up_def)

lemma allocate_octet_eq:
  "allocate_octet ow d =
     (case get_octet ow d of
        Some k \<Rightarrow> (Inr k, d)
      | None \<Rightarrow>
          (case first_free OCTETS (map octet (octets d)) of
             None \<Rightarrow> (Inl (RuntimeError ''docker subnet pool exhausted (254 owners already allocated)''), d)
           | Some k \<Rightarrow> (Inr k, d\<lparr>octets := octets d @ [\<lparr>oct_owner = ow, octet = k\<rparr>]\<rparr>)))"
  using octet_loop_first[of ow d 253 None] octet_attempt_new[of ow d] get_octet_None[of ow d]
  by (cases "get_octet ow d") (simp_all add: allocate_octet_def)

lemma allocate_octet_ok:
  assumes "db_ok d" "allocate_octet ow d = (r, d')"
  shows "db_ok d'"
  using assms ff.pick_fresh[of OCTETS "map octet (octets d)"] get_octet_None[of ow d]
  by (auto simp: allocate_octet_eq db_ok_def octets_ok_def peers_ok_def instances_ok_def
      split: option.splits)

lemma allocate_octet_Inr:
  assumes "octets_ok d" "allocate_octet ow d = (Inr k, d')"
  shows "get_octet ow d' = Some k" "1 \<le> k" "k \<le> 254"
    "peers d' = peers d" "peer_seq d' = peer_seq d" "instances d' = instances d" "inst_seq d' = inst_seq d"
proof -
  have range: "1 \<le> j \<and> j \<le> 254" if "get_octet ow d = Some j" for j
    using that assms(1) by (auto simp: octets_ok_def get_octet_Some)
  have found: "find (\<lambda>o'. oct_owner o' = ow) (xs @ [\<lparr>oct_owner = ow, octet = k\<rparr>])
      = Some \<lparr>oct_owner = ow, octet = k\<rparr>" if "find (\<lambda>o'. oct_owner o' = ow) xs = None" for xs
    using that by (induction xs) (auto split: if_splits)
  show "get_octet ow d' = Some k" "1 \<le> k" "k \<le> 254"
    "peers d' = peers d" "peer_seq d' = peer_seq d" "instances d' = instances d" "inst_seq d' = inst_seq d"
    using assms(2) range found ff.pick_fresh[of OCTETS "map octet (octets d)"]
    by (auto simp: allocate_octet_eq get_octet_def split: option.splits)
qed

lemma allocate_octet_Inl:
  "allocate_octet ow d = (Inl e, d') \<Longrightarrow>
   d' = d \<and> get_octet ow d = None \<and> {1..254} \<subseteq> octet ` set (octets d)"
  by (auto simp: allocate_octet_eq first_free_None split: option.splits)

lemma allocate_octet_held: "get_octet ow d = Some k \<Longrightarrow> allocate_octet ow d = (Inr k, d)"
  by (simp add: allocate_octet_def)

lemma allocate_octet_others:
  "allocate_octet ow d = (r, d') \<Longrightarrow> ow' \<noteq> ow \<Longrightarrow> get_octet ow' d' = get_octet ow' d"
  by (auto simp: allocate_octet_eq get_octet_def find_append split: option.splits)

lemma free_octet_ok: "db_ok d \<Longrightarrow> free_octet ow d = (b, d') \<Longrightarrow> db_ok d'"
  by (auto simp: free_octet_def db_ok_def octets_ok_def peers_ok_def instances_ok_def map_filter_distinct)

lemma find_filter_other:
  "find (\<lambda>x. f x = a) (filter (\<lambda>x. f x \<noteq> b) xs) = (if a = b then None else find (\<lambda>x. f x = a) xs)"
  by (induction xs) auto

lemma free_octet_get:
  "free_octet ow d = (b, d') \<Longrightarrow>
   get_octet ow' d' = (if ow' = ow then None else get_octet ow' d) \<and> b = (get_octet ow d \<noteq> None)"
  by (auto simp: free_octet_def get_octet_def list_ex_iff find_filter_other find_None_iff
      simp del: not_None_eq)

text \<open>The octets are a pool of which every owner holds at most one value, and no two the same.\<close>

interpretation op: idempotent_pool db_ok "{1..254}" get_octet allocate_octet free_octet
proof
  show "get_octet k s = Some v \<Longrightarrow> v \<in> {1..254}" if "db_ok s" for k s v
    using that by (auto simp: db_ok_def octets_ok_def get_octet_Some)
  show "k = k'" if "db_ok s" "get_octet k s = Some v" "get_octet k' s = Some v" for k k' s v
    using that by (auto simp: db_ok_def octets_ok_def get_octet_Some dest: distinct_map_inj)
  show "\<exists>u s'. allocate_octet k s = (Inr u, s')"
    if "db_ok s" "v \<in> {1..254}" "\<And>k'. get_octet k' s \<noteq> Some v" for k s v
  proof (cases "allocate_octet k s")
    case (Pair r s')
    show ?thesis
    proof (cases r)
      case (Inl e)
      then have "v \<in> octet ` set (octets s)" using allocate_octet_Inl Pair that(2) by blast
      then obtain q where "q \<in> set (octets s)" "v = octet q" by blast
      then have "get_octet (oct_owner q) s = Some v"
        using that(1) get_octet_Some[of s "oct_owner q" v] by (simp add: db_ok_def octets_ok_def)
      then show ?thesis using that(3) by blast
    qed (use Pair in simp)
  qed
  show "get_octet k s' = Some v" if "db_ok s" "allocate_octet k s = (Inr v, s')" for k s v s'
    using that(1) allocate_octet_Inr(1)[OF _ that(2)] by (simp add: db_ok_def)
  show "db_ok s'" if "db_ok s" "allocate_octet k s = (r, s')" for k s r s'
    using that by (rule allocate_octet_ok)
  show "db_ok s'" if "db_ok s" "free_octet k s = (b, s')" for k s b s'
    using that by (rule free_octet_ok)
  show "s' = s" if "allocate_octet k s = (Inl e, s')" for k s e s'
    using allocate_octet_Inl[OF that] by simp
  show "get_octet k s' = None \<and> b = (get_octet k s \<noteq> None)" if "free_octet k s = (b, s')" for k s b s'
    using free_octet_get[OF that, of k] by simp
qed (simp_all add: free_octet_get allocate_octet_others allocate_octet_held)

section \<open>Instances: what the operations do\<close>

lemma add_instance_Inr:
  assumes "add_instance cid cname ow chal ip ps expi st pub d = (Inr i, d')"
  shows "i = \<lparr>inst_id = inst_seq d + 1, container_id = cid, container_name = cname, inst_owner = ow,
           challenge_ref = chal, assigned_ip = ip, ports = ps, status = st, expires_at = expi,
           published_ports = pub\<rparr>"
    and "d' = d\<lparr>instances := instances d @ [i], inst_seq := inst_seq d + 1\<rparr>"
    and "(ow, chal) \<notin> inst_key ` set (instances d)" "cid \<notin> container_id ` set (instances d)"
  using assms by (auto simp: add_instance_def insert_inst_def inst_key_def Let_def split: if_splits)

lemma add_instance_Inl:
  assumes "add_instance cid cname ow chal ip ps expi st pub d = (Inl e, d')"
  shows "d' = d" "\<exists>msg. e = ValueError msg"
    "(ow, chal) \<in> inst_key ` set (instances d) \<or> cid \<in> container_id ` set (instances d)"
  using assms by (auto simp: add_instance_def insert_inst_def inst_key_def Let_def split: if_splits)

lemma add_instance_ok:
  assumes "db_ok d" "add_instance cid cname ow chal ip ps expi st pub d = (r, d')"
  shows "db_ok d'"
proof (cases r)
  case (Inl e)
  then show ?thesis using assms add_instance_Inl(1) by blast
next
  case (Inr i)
  note new = add_instance_Inr[OF assms(2)[unfolded Inr]]
  have "inst_key i = (ow, chal)" "container_id i = cid" "inst_id i = inst_seq d + 1"
    by (simp_all add: new(1) inst_key_def)
  then show ?thesis
    using assms(1) new(2-4)
    by (fastforce simp: db_ok_def peers_ok_def octets_ok_def instances_ok_def)
qed

lemma remove_instance_ok: "db_ok d \<Longrightarrow> remove_instance cid d = (b, d') \<Longrightarrow> db_ok d'"
  by (auto simp: remove_instance_def db_ok_def peers_ok_def octets_ok_def instances_ok_def
      map_filter_distinct)

lemma update_instance_status_ok: "db_ok d \<Longrightarrow> update_instance_status cid st d = (b, d') \<Longrightarrow> db_ok d'"
proof -
  assume ok: "db_ok d" and upd: "update_instance_status cid st d = (b, d')"
  define g where "g i = (if container_id i = cid then i\<lparr>status := st\<rparr> else i)" for i :: inst
  have g: "container_id \<circ> g = container_id" "inst_key \<circ> g = inst_key" "inst_id \<circ> g = inst_id"
    by (auto simp: g_def inst_key_def fun_eq_iff)
  have d': "d' = d\<lparr>instances := map g (instances d)\<rparr>"
    using upd by (simp add: update_instance_status_def g_def[abs_def])
  have "\<forall>i \<in> set (instances d). inst_id (g i) \<le> inst_seq d"
    using ok g(3) by (auto simp: db_ok_def instances_ok_def fun_eq_iff)
  then show ?thesis
    using ok by (simp add: d' db_ok_def peers_ok_def octets_ok_def instances_ok_def g)
qed

lemma find_instance_Some:
  assumes "distinct (map inst_key (instances d))"
  shows "find_instance ow chal d = Some i \<longleftrightarrow> i \<in> set (instances d) \<and> inst_key i = (ow, chal)"
proof (cases "find_instance ow chal d")
  case None
  then have "\<forall>q \<in> set (instances d). inst_key q \<noteq> (ow, chal)"
    by (auto simp: find_instance_def find_None_iff inst_key_def)
  then show ?thesis using None by auto
next
  case (Some q)
  then have "q \<in> set (instances d) \<and> inst_key q = (ow, chal)"
    unfolding find_instance_def inst_key_def by (auto dest: find_Some_in)
  then show ?thesis using Some distinct_map_inj[OF assms] by auto
qed

text \<open>A row of the table, inserted by \<open>add_instance\<close>.\<close>

definition add_row :: "inst \<Rightarrow> db \<Rightarrow> (exc + inst) \<times> db" where
  "add_row i = add_instance (container_id i) (container_name i) (inst_owner i) (challenge_ref i)
     (assigned_ip i) (ports i) (expires_at i) (status i) (published_ports i)"

interpretation ist: keyed_store db_ok inst_key container_id instances
  "\<lambda>k. find_instance (fst k) (snd k)" add_row remove_instance
proof
  show "find_instance (fst k) (snd k) s = Some r \<longleftrightarrow> r \<in> set (instances s) \<and> inst_key r = k"
    if "db_ok s" for s k r
    using that by (simp add: db_ok_def instances_ok_def find_instance_Some)
  show "r = r'" if "db_ok s" "r \<in> set (instances s)" "r' \<in> set (instances s)"
    "container_id r = container_id r'" for s r r'
    using that by (auto simp: db_ok_def instances_ok_def dest: distinct_map_inj)
  show "db_ok s'" if "db_ok s" "add_row r s = (x, s')" for s r x s'
    using that unfolding add_row_def by (rule add_instance_ok)
  show "instances s' = instances s @ [r'] \<and> inst_key r' = inst_key r \<and> container_id r' = container_id r"
    if "add_row r s = (Inr r', s')" for s r r' s'
  proof -
    note new = add_instance_Inr[OF that[unfolded add_row_def]]
    have "inst_key r' = inst_key r \<and> container_id r' = container_id r"
      by (simp add: new(1) inst_key_def)
    then show ?thesis using new(2) by simp
  qed
  show "s' = s \<and> (\<exists>r' \<in> set (instances s). inst_key r' = inst_key r \<or> container_id r' = container_id r)"
    if "add_row r s = (Inl e, s')" for s r e s'
    using add_instance_Inl[OF that[unfolded add_row_def]] by (force simp: inst_key_def)
  show "db_ok s' \<and> instances s' = filter (\<lambda>r. container_id r \<noteq> i) (instances s) \<and>
      b = (\<exists>r \<in> set (instances s). container_id r = i)"
    if "db_ok s" "remove_instance i s = (b, s')" for s i b s'
    using that remove_instance_ok[OF that] by (auto simp: remove_instance_def list_ex_iff)
qed

section \<open>What the firewall builder reads\<close>

lemma octets_by_owner_set:
  "(ow, k) \<in> set (octets_by_owner d) \<longleftrightarrow> \<lparr>oct_owner = ow, octet = k\<rparr> \<in> set (octets d)"
  by (force simp: octets_by_owner_def get_all_owner_octets_def)

lemma octets_by_owner_iff:
  "db_ok d \<Longrightarrow> (ow, k) \<in> set (octets_by_owner d) \<longleftrightarrow> get_octet ow d = Some k"
  by (simp add: octets_by_owner_set get_octet_Some db_ok_def octets_ok_def)

lemma grouped_iff:
  "ip \<in> set (get_peers (peers_grouped_by_owner d) ow) \<longleftrightarrow>
   (\<exists>p \<in> set (peers d). peer_owner p = ow \<and> ip_address p = ip)"
  by (auto simp: get_peers_grouped get_peer_by_owner_def)

interpretation fwdb: firewall_source db_ok peers_grouped_by_owner octets_by_owner
proof
  show "1 \<le> k \<and> k \<le> 254" if "db_ok s" "(key, k) \<in> set (octets_by_owner s)" for s key k
    using that op.holding_pool by (auto simp: octets_by_owner_iff)
  show "key = key'" if "db_ok s" "(key, k) \<in> set (octets_by_owner s)"
    "(key', k) \<in> set (octets_by_owner s)" for s key key' k
    using that by (auto simp: octets_by_owner_iff dest: op.exclusive)
  show "k = k'" if "db_ok s" "(key, k) \<in> set (octets_by_owner s)"
    "(key, k') \<in> set (octets_by_owner s)" for s key k k'
    using that by (simp add: octets_by_owner_iff)
  show "\<exists>a. in_net a WG_SUBNET \<and> ip = ip_str a"
    if "db_ok s" "ip \<in> set (get_peers (peers_grouped_by_owner s) key)" for s ip key
    using that by (auto simp: grouped_iff db_ok_def peers_ok_def wg_host_text_def)
  show "key = key'" if "db_ok s" "ip \<in> set (get_peers (peers_grouped_by_owner s) key)"
    "ip \<in> set (get_peers (peers_grouped_by_owner s) key')" for s ip key key'
    using that by (auto simp: grouped_iff db_ok_def peers_ok_def dest: distinct_map_inj)
qed

end
