(* ===== verification/Host_Process.thy ===== *)
theory Host_Process
  imports Py_Text
begin

text \<open>
  How the daemon runs host programs (\<open>wg\<close>, \<open>iptables\<close>, \<open>docker\<close>, \<dots>): \<open>subprocess.run\<close>, the
  \<open>_run\<close> helper that \<open>network.py\<close> and \<open>wireguard.py\<close> share, and the table of install hints
  (\<open>install_hints.py\<close>). The programs themselves and the machine they act on are not part of the
  repository: they are a parameter, a \<open>host\<close> over an arbitrary machine state \<open>'w\<close>. What a theorem
  needs of a program is a named hypothesis about that parameter.
\<close>

section \<open>Running a program\<close>

text \<open>
  The outcome of \<open>subprocess.run(argv, input=\<dots>, env=\<dots>, capture_output=True)\<close>: the program ran
  (return code, stdout, stderr), its binary is missing (\<open>FileNotFoundError\<close>), or another
  \<open>OSError\<close> stopped it from starting.
\<close>

datatype proc = Exited int string string | Missing | OsFail string

record call =
  argv :: "string list"
  stdin :: string
  environ :: "(string \<times> string) list"

definition cmd :: "string list \<Rightarrow> call" where
  "cmd args = \<lparr>argv = args, stdin = [], environ = []\<rparr>"

text \<open>\<open>which\<close> is \<open>shutil.which(name) is not None\<close>.\<close>

record 'w host =
  exec :: "call \<Rightarrow> 'w \<Rightarrow> proc \<times> 'w"
  which :: "string \<Rightarrow> 'w \<Rightarrow> bool"

section \<open>Install hints\<close>

definition HINTS :: "(string \<times> string) list" where
  "HINTS =
     [(''wg'', ''apt install wireguard-tools''),
      (''wg-quick'', ''apt install wireguard-tools''),
      (''iptables'', ''apt install iptables''),
      (''ip'', ''apt install iproute2''),
      (''firewall-cmd'', ''apt install firewalld''),
      (''docker'', ''apt install docker.io  (or see docs.docker.com/engine/install)'')]"

definition install_hint :: "string \<Rightarrow> string" where
  "install_hint binary =
     (case map_of HINTS binary of
        Some h \<Rightarrow> h
      | None \<Rightarrow> ''install '' @ quote @ binary @ quote @ '' via your distro'' @ quote @ ''s package manager'')"

section \<open>The run helpers\<close>

text \<open>\<open>subprocess.run\<close> with \<open>check=False\<close>: only a program that cannot start raises.\<close>

definition raw_run :: "'w host \<Rightarrow> call \<Rightarrow> 'w \<Rightarrow> (exc + int \<times> string \<times> string) \<times> 'w" where
  "raw_run h c w =
     (case exec h c w of
        (Exited rc out err, w') \<Rightarrow> (Inr (rc, out, err), w')
      | (Missing, w') \<Rightarrow> (Inl (FileNotFoundError (hd (argv c))), w')
      | (OsFail s, w') \<Rightarrow> (Inl (OSError s), w'))"

text \<open>
  \<open>_run(cmd)\<close> with \<open>check=True\<close>: the standard output of a program that returns 0; a missing
  binary is a \<open>RuntimeError\<close> that carries the hint, another return code a
  \<open>CalledProcessError\<close> that carries stderr.
\<close>

definition py_run :: "'w host \<Rightarrow> call \<Rightarrow> 'w \<Rightarrow> (exc + string) \<times> 'w" where
  "py_run h c w =
     (case exec h c w of
        (Exited rc out err, w') \<Rightarrow>
          if rc \<noteq> 0 then (Inl (CalledProcessError err), w') else (Inr out, w')
      | (Missing, w') \<Rightarrow>
          (Inl (RuntimeError (''required binary not found: '' @ hd (argv c) @ newline
                 @ ''  install: '' @ install_hint (hd (argv c)))), w')
      | (OsFail s, w') \<Rightarrow> (Inl (OSError s), w'))"

lemma py_run_Inr:
  "py_run h c w = (Inr out, w') \<Longrightarrow> \<exists>err. exec h c w = (Exited 0 out err, w')"
  by (auto simp: py_run_def split: prod.splits proc.splits if_splits)

lemma py_run_Missing:
  "exec h c w = (Missing, w') \<Longrightarrow>
   \<exists>msg. py_run h c w = (Inl (RuntimeError msg), w') \<and> contains (install_hint (hd (argv c))) msg"
  using contains_append_left[of "install_hint (hd (argv c))" "install_hint (hd (argv c))"
      "''required binary not found: '' @ hd (argv c) @ newline @ ''  install: ''"]
  by (simp add: py_run_def)

end
