(* ===== verification/Json_Text.thy ===== *)
theory Json_Text
  imports Py_Text "HOL-Library.AList"
begin

text \<open>
  The part of Python's \<open>json\<close> module that the code uses: \<open>json.dumps\<close> with its separators,
  and \<open>json.loads\<close>. The daemon stores ports as JSON columns (\<open>db.py\<close>, \<open>containers.py\<close>) and both
  ends of the socket exchange JSON objects (\<open>edo_daemon.py\<close>, \<open>daemon_client.py\<close>). A string is a
  list of code points below 256; a float is kept as its literal. \<open>loads\<close> gives the value or a
  \<open>ValueError\<close> (\<open>JSONDecodeError\<close>), whose text is not modelled.
\<close>

datatype json =
    JNull
  | JBool bool
  | JInt int
  | JFloat string
  | JStr string
  | JList "json list"
  | JObj "(string \<times> json) list"

section \<open>dumps\<close>

definition hex_char :: "nat \<Rightarrow> char" where
  "hex_char n = ''0123456789abcdef'' ! n"

text \<open>The escapes of \<open>ensure_ascii\<close>: everything but printable ASCII, the quotation mark, the backslash.\<close>

definition esc_char :: "char \<Rightarrow> string" where
  "esc_char c =
     (if c = CHR 0x22 then [CHR 0x5C, CHR 0x22]
      else if c = CHR 0x5C then [CHR 0x5C, CHR 0x5C]
      else if c = CHR 0x0A then [CHR 0x5C, CHR ''n'']
      else if c = CHR 0x0D then [CHR 0x5C, CHR ''r'']
      else if c = CHR 0x09 then [CHR 0x5C, CHR ''t'']
      else if c = CHR 0x0C then [CHR 0x5C, CHR ''f'']
      else if c = CHR 0x08 then [CHR 0x5C, CHR ''b'']
      else if 32 \<le> (of_char c :: nat) \<and> (of_char c :: nat) \<le> 126 then [c]
      else [CHR 0x5C, CHR ''u'', CHR ''0'', CHR ''0'', hex_char (of_char c div 16), hex_char (of_char c mod 16)])"

definition dump_str :: "string \<Rightarrow> string" where
  "dump_str s = CHR 0x22 # concat (map esc_char s) @ [CHR 0x22]"

fun dumps :: "string \<Rightarrow> string \<Rightarrow> json \<Rightarrow> string" and dump_members where
  "dumps si sk JNull = ''null''"
| "dumps si sk (JBool b) = (if b then ''true'' else ''false'')"
| "dumps si sk (JInt i) = str_int i"
| "dumps si sk (JFloat t) = t"
| "dumps si sk (JStr s) = dump_str s"
| "dumps si sk (JList vs) = ''['' @ joins si (map (dumps si sk) vs) @ '']''"
| "dumps si sk (JObj kvs) = ''{'' @ joins si (map (dump_members si sk) kvs) @ ''}''"
| "dump_members si sk (k, v) = dump_str k @ sk @ dumps si sk v"

text \<open>\<open>sort_keys=True\<close>: the members of every object, by their keys.\<close>

fun insert_member :: "string \<times> json \<Rightarrow> (string \<times> json) list \<Rightarrow> (string \<times> json) list" where
  "insert_member m [] = [m]"
| "insert_member m (n # ns) =
     (if str_less_eq (fst m) (fst n) then m # n # ns else n # insert_member m ns)"

fun sort_json :: "json \<Rightarrow> json" and sort_member :: "string \<times> json \<Rightarrow> string \<times> json" where
  "sort_json (JList vs) = JList (map sort_json vs)"
| "sort_json (JObj kvs) = JObj (foldr insert_member (map sort_member kvs) [])"
| "sort_json v = v"
| "sort_member (k, v) = (k, sort_json v)"

section \<open>loads\<close>

definition json_space :: "char \<Rightarrow> bool" where
  "json_space c \<longleftrightarrow> (of_char c :: nat) \<in> {9, 10, 13, 32}"

definition skip_ws :: "string \<Rightarrow> string" where
  "skip_ws s = dropWhile json_space s"

definition hex_val :: "char \<Rightarrow> nat option" where
  "hex_val c =
     (let n = (of_char c :: nat) in
      if 48 \<le> n \<and> n \<le> 57 then Some (n - 48)
      else if 97 \<le> n \<and> n \<le> 102 then Some (n - 87)
      else if 65 \<le> n \<and> n \<le> 70 then Some (n - 55) else None)"

definition hex4 :: "char \<Rightarrow> char \<Rightarrow> char \<Rightarrow> char \<Rightarrow> nat option" where
  "hex4 a b c d =
     (case (hex_val a, hex_val b, hex_val c, hex_val d) of
        (Some w, Some x, Some y, Some z) \<Rightarrow> Some (4096 * w + 256 * x + 16 * y + z)
      | _ \<Rightarrow> None)"

definition unesc_char :: "char \<Rightarrow> char option" where
  "unesc_char e =
     (if e = CHR 0x22 \<or> e = CHR 0x5C \<or> e = CHR ''/'' then Some e
      else if e = CHR ''n'' then Some (CHR 0x0A)
      else if e = CHR ''r'' then Some (CHR 0x0D)
      else if e = CHR ''t'' then Some (CHR 0x09)
      else if e = CHR ''f'' then Some (CHR 0x0C)
      else if e = CHR ''b'' then Some (CHR 0x08)
      else None)"

text \<open>
  The rest of a string literal after its opening quotation mark, and what follows it. Control
  characters are refused; so is an escape of a code point that the model's strings do not have.
\<close>

fun scan_str :: "string \<Rightarrow> (string \<times> string) option" where
  "scan_str [] = None"
| "scan_str (c # cs) =
     (if c = CHR 0x22 then Some ([], cs)
      else if c = CHR 0x5C then
        (case cs of
           [] \<Rightarrow> None
         | e # rest \<Rightarrow>
             if e = CHR ''u'' then
               (case rest of
                  h1 # h2 # h3 # h4 # rest' \<Rightarrow>
                    (case hex4 h1 h2 h3 h4 of
                       None \<Rightarrow> None
                     | Some n \<Rightarrow>
                         if n < 256 then map_option (\<lambda>(s, r). (char_of n # s, r)) (scan_str rest') else None)
                | _ \<Rightarrow> None)
             else
               (case unesc_char e of
                  None \<Rightarrow> None
                | Some x \<Rightarrow> map_option (\<lambda>(s, r). (x # s, r)) (scan_str rest)))
      else if (of_char c :: nat) < 32 then None
      else map_option (\<lambda>(s, r). (c # s, r)) (scan_str cs))"

text \<open>\<open>NUMBER_RE\<close>: an integer, with a fraction or an exponent a float.\<close>

definition scan_digits :: "string \<Rightarrow> string \<times> string" where
  "scan_digits s = (takeWhile is_digit s, dropWhile is_digit s)"

definition scan_frac :: "string \<Rightarrow> string \<times> string" where
  "scan_frac s =
     (case s of
        [] \<Rightarrow> ([], s)
      | c # cs \<Rightarrow>
          (case scan_digits cs of (ds, r) \<Rightarrow> if c = CHR ''.'' \<and> ds \<noteq> [] then (c # ds, r) else ([], s)))"

definition exp_sign :: "string \<Rightarrow> string" where
  "exp_sign cs = (if cs \<noteq> [] \<and> (hd cs = CHR ''+'' \<or> hd cs = CHR ''-'') then [hd cs] else [])"

definition scan_exp :: "string \<Rightarrow> string \<times> string" where
  "scan_exp s =
     (case s of
        [] \<Rightarrow> ([], s)
      | c # cs \<Rightarrow>
          if c = CHR ''e'' \<or> c = CHR ''E'' then
            (case scan_digits (drop (length (exp_sign cs)) cs) of
               (ds, r) \<Rightarrow> if ds \<noteq> [] then (c # exp_sign cs @ ds, r) else ([], s))
          else ([], s))"

definition scan_int :: "string \<Rightarrow> (string \<times> string) option" where
  "scan_int s =
     (case scan_digits s of
        ([], _) \<Rightarrow> None
      | (d # ds, r) \<Rightarrow> if d = CHR ''0'' then Some ([d], ds @ r) else Some (d # ds, r))"

definition scan_number :: "string \<Rightarrow> (json \<times> string) option" where
  "scan_number s =
     (let neg = (s \<noteq> [] \<and> hd s = CHR ''-''); body = (if neg then tl s else s)
      in case scan_int body of
           None \<Rightarrow> None
         | Some (ds, r) \<Rightarrow>
             (case scan_frac r of
                (fr, r1) \<Rightarrow>
                  (case scan_exp r1 of
                     (ex, r2) \<Rightarrow>
                       if fr = [] \<and> ex = []
                       then Some (JInt (if neg then - int (dec_value ds) else int (dec_value ds)), r2)
                       else Some (JFloat ((if neg then [CHR ''-''] else []) @ ds @ fr @ ex), r2))))"

definition scan_word :: "string \<Rightarrow> (json \<times> string) option" where
  "scan_word s =
     (if startswith ''null'' s then Some (JNull, drop 4 s)
      else if startswith ''true'' s then Some (JBool True, drop 4 s)
      else if startswith ''false'' s then Some (JBool False, drop 5 s)
      else if startswith ''NaN'' s then Some (JFloat ''NaN'', drop 3 s)
      else if startswith ''Infinity'' s then Some (JFloat ''Infinity'', drop 8 s)
      else if startswith ''-Infinity'' s then Some (JFloat ''-Infinity'', drop 9 s)
      else scan_number s)"

text \<open>
  The scanner of values. The first argument bounds the nesting and the number of elements, so it
  is fuel; \<open>loads\<close> gives it the length of the text, which every call shortens. A key that
  occurs twice in an object keeps its first place and its last value.
\<close>

fun parse_json :: "nat \<Rightarrow> string \<Rightarrow> (json \<times> string) option"
  and parse_elems :: "nat \<Rightarrow> string \<Rightarrow> (json list \<times> string) option"
  and parse_members :: "nat \<Rightarrow> (string \<times> json) list \<Rightarrow> string \<Rightarrow> ((string \<times> json) list \<times> string) option" where
  "parse_json 0 s = None"
| "parse_json (Suc n) s =
     (case s of
        [] \<Rightarrow> None
      | c # cs \<Rightarrow>
          if c = CHR 0x22 then map_option (\<lambda>(t, r). (JStr t, r)) (scan_str cs)
          else if c = CHR ''['' then
            (let b = skip_ws cs in
             if b \<noteq> [] \<and> hd b = CHR '']'' then Some (JList [], tl b)
             else map_option (\<lambda>(vs, r). (JList vs, r)) (parse_elems n b))
          else if c = CHR ''{'' then
            (let b = skip_ws cs in
             if b \<noteq> [] \<and> hd b = CHR ''}'' then Some (JObj [], tl b)
             else map_option (\<lambda>(kvs, r). (JObj kvs, r)) (parse_members n [] b))
          else scan_word s)"
| "parse_elems 0 s = None"
| "parse_elems (Suc n) s =
     (case parse_json n s of
        None \<Rightarrow> None
      | Some (v, r) \<Rightarrow>
          (case skip_ws r of
             [] \<Rightarrow> None
           | c # r' \<Rightarrow>
               if c = CHR '']'' then Some ([v], r')
               else if c = CHR '','' then map_option (\<lambda>(vs, q). (v # vs, q)) (parse_elems n (skip_ws r'))
               else None))"
| "parse_members 0 kvs s = None"
| "parse_members (Suc n) kvs s =
     (case s of
        [] \<Rightarrow> None
      | q # s1 \<Rightarrow>
          if q \<noteq> CHR 0x22 then None
          else
            (case scan_str s1 of
               None \<Rightarrow> None
             | Some (k, s2) \<Rightarrow>
                 (case skip_ws s2 of
                    [] \<Rightarrow> None
                  | col # s3 \<Rightarrow>
                      if col \<noteq> CHR '':'' then None
                      else
                        (case parse_json n (skip_ws s3) of
                           None \<Rightarrow> None
                         | Some (v, r) \<Rightarrow>
                             (case skip_ws r of
                                [] \<Rightarrow> None
                              | c # r' \<Rightarrow>
                                  if c = CHR ''}'' then Some (AList.update k v kvs, r')
                                  else if c = CHR '','' then
                                    parse_members n (AList.update k v kvs) (skip_ws r')
                                  else None)))))"

definition loads :: "string \<Rightarrow> exc + json" where
  "loads s =
     (case parse_json (Suc (length s)) (skip_ws s) of
        None \<Rightarrow> Inl (ValueError ''Expecting value'')
      | Some (v, r) \<Rightarrow> if skip_ws r = [] then Inr v else Inl (ValueError ''Extra data''))"

section \<open>Literals of floats\<close>

text \<open>
  The literals that \<open>loads\<close> makes a float of: a number with a fraction or an exponent, or one of
  the three words.
\<close>

definition literal :: "string \<Rightarrow> bool" where
  "literal t \<longleftrightarrow> scan_number t = Some (JFloat t, [])"

definition float_word :: "string \<Rightarrow> bool" where
  "float_word t \<longleftrightarrow> t = ''NaN'' \<or> t = ''Infinity'' \<or> t = ''-Infinity''"

lemma scan_digits_only:
  assumes "list_all is_digit ds" "r = [] \<or> \<not> is_digit (hd r)"
  shows "scan_digits (ds @ r) = (ds, r)"
proof -
  have "takeWhile is_digit r = []" "dropWhile is_digit r = r" using assms(2) by (cases r; simp)+
  then show ?thesis using assms(1) by (simp add: scan_digits_def takeWhile_append2 dropWhile_append2 list_all_iff)
qed

lemma scan_digits_fst: "list_all is_digit (fst (scan_digits s))"
  by (auto simp: scan_digits_def list_all_iff dest: set_takeWhileD)

text \<open>What the parts of a number look like, and that each scanner reads its own part again.\<close>

lemma scan_int_again:
  assumes "scan_int s = Some (ds, q)" "r = [] \<or> \<not> is_digit (hd r)"
  shows "scan_int (ds @ r) = Some (ds, r)"
proof -
  obtain d es where d: "fst (scan_digits s) = d # es" "ds = (if d = CHR ''0'' then [d] else d # es)"
    using assms(1) by (auto simp: scan_int_def split: prod.splits list.splits if_splits)
  then have "list_all is_digit ds" using scan_digits_fst[of s] by (auto split: if_splits)
  then show ?thesis
    using d(2) scan_digits_only[of ds r] assms(2) by (auto simp: scan_int_def split: if_splits)
qed

lemma scan_frac_parts:
  assumes "scan_frac s = (fr, q)"
  shows "fr = [] \<or> (\<exists>ds. fr = CHR ''.'' # ds \<and> ds \<noteq> [] \<and> list_all is_digit ds)"
  using assms scan_digits_fst[of "tl s"] by (cases s) (auto simp: scan_frac_def split: prod.splits if_splits)

lemma scan_exp_parts:
  assumes "scan_exp s = (ex, q)"
  shows "ex = [] \<or> (\<exists>c sg ds. ex = c # sg @ ds \<and> (c = CHR ''e'' \<or> c = CHR ''E'') \<and>
      (sg = [] \<or> sg = ''+'' \<or> sg = ''-'') \<and> ds \<noteq> [] \<and> list_all is_digit ds)"
proof (cases s)
  case (Cons c cs)
  have "exp_sign cs = [] \<or> exp_sign cs = ''+'' \<or> exp_sign cs = ''-''" by (auto simp: exp_sign_def)
  then show ?thesis
    using assms Cons scan_digits_fst[of "drop (length (exp_sign cs)) cs"]
    by (auto simp: scan_exp_def split: prod.splits if_splits)
qed (use assms in \<open>simp add: scan_exp_def\<close>)

lemma scan_exp_again: "scan_exp s = (ex, q) \<Longrightarrow> scan_exp ex = (ex, [])"
proof -
  assume "scan_exp s = (ex, q)"
  note ex = scan_exp_parts[OF this]
  show ?thesis
  proof (cases "ex = []")
    case False
    then obtain c sg ds where ex: "ex = c # sg @ ds" "ds \<noteq> []" "list_all is_digit ds" "c = CHR ''e'' \<or> c = CHR ''E''"
      "sg = [] \<or> sg = ''+'' \<or> sg = ''-''" using ex by blast
    then have "exp_sign (sg @ ds) = sg" by (cases ds) (auto simp: exp_sign_def is_digit_def)
    moreover have "scan_digits ds = (ds, [])" using scan_digits_only[of ds "[]"] ex by simp
    ultimately show ?thesis using ex(1,2,4) by (auto simp: scan_exp_def)
  qed (simp add: scan_exp_def)
qed

lemma scan_frac_again:
  assumes "scan_frac s = (fr, q)" "scan_exp q = (ex, q')"
  shows "scan_frac (fr @ ex) = (fr, ex)"
proof (cases "fr = []")
  case True
  then show ?thesis using scan_exp_parts[OF assms(2)] by (auto simp: scan_frac_def split: prod.split)
next
  case False
  then obtain ds where "fr = CHR ''.'' # ds" "ds \<noteq> []" "list_all is_digit ds"
    using scan_frac_parts[OF assms(1)] by blast
  moreover have "ex = [] \<or> \<not> is_digit (hd ex)" using scan_exp_parts[OF assms(2)] by (auto simp: is_digit_def)
  ultimately show ?thesis using scan_digits_only[of ds ex] by (simp add: scan_frac_def)
qed

lemma scan_number_literal: "scan_number s = Some (JFloat t, r) \<Longrightarrow> literal t"
proof -
  define neg where "neg = (s \<noteq> [] \<and> hd s = CHR ''-'')"
  assume "scan_number s = Some (JFloat t, r)"
  then obtain ds q fr q1 ex where parts: "scan_int (if neg then tl s else s) = Some (ds, q)" "scan_frac q = (fr, q1)"
      "scan_exp q1 = (ex, r)" "fr \<noteq> [] \<or> ex \<noteq> []" "t = (if neg then [CHR ''-''] else []) @ ds @ fr @ ex"
    by (auto simp: scan_number_def neg_def Let_def split: option.splits prod.splits if_splits)
  have "fr @ ex = [] \<or> \<not> is_digit (hd (fr @ ex))"
    using scan_frac_parts[OF parts(2)] scan_exp_parts[OF parts(3)] by (auto simp: is_digit_def)
  then have int: "scan_int (ds @ fr @ ex) = Some (ds, fr @ ex)" using scan_int_again[OF parts(1)] by blast
  obtain d es where "ds = d # es" "is_digit d"
    using int scan_digits_fst[of "ds @ fr @ ex"] by (auto simp: scan_int_def split: prod.splits list.splits if_splits)
  then show ?thesis
    using int scan_frac_again[OF parts(2,3)] scan_exp_again[OF parts(3)] parts(4)
    by (auto simp: literal_def scan_number_def Let_def parts(5) is_digit_def)
qed

section \<open>Reading back what was written\<close>

text \<open>
  Values that \<open>dumps\<close> writes so that \<open>loads\<close> reads the same value: the keys of an object are
  distinct, as in a dictionary, and the literal of a float is one that \<open>loads\<close> accepts.
\<close>

fun wf_json :: "json \<Rightarrow> bool" and wf_member :: "string \<times> json \<Rightarrow> bool" where
  "wf_json JNull = True"
| "wf_json (JBool b) = True"
| "wf_json (JInt i) = True"
| "wf_json (JFloat t) = (literal t \<or> float_word t)"
| "wf_json (JStr s) = True"
| "wf_json (JList vs) = list_all wf_json vs"
| "wf_json (JObj kvs) = (distinct (map fst kvs) \<and> list_all wf_member kvs)"
| "wf_member (k, v) = wf_json v"

definition seps :: "string \<Rightarrow> string \<Rightarrow> bool" where
  "seps si sk \<longleftrightarrow> si \<noteq> [] \<and> hd si = CHR '','' \<and> list_all json_space (tl si) \<and>
     sk \<noteq> [] \<and> hd sk = CHR '':'' \<and> list_all json_space (tl sk)"

text \<open>What may follow a value inside a text.\<close>

definition follow :: "string \<Rightarrow> bool" where
  "follow r \<longleftrightarrow> r = [] \<or> hd r \<in> {CHR '','', CHR '']'', CHR ''}''}"

lemma hex_val_char: "n < 16 \<Longrightarrow> hex_val (hex_char n) = Some n"
proof -
  have "list_all (\<lambda>n. hex_val (hex_char n) = Some n) [0..<16]" by code_simp
  then show "n < 16 \<Longrightarrow> hex_val (hex_char n) = Some n" by (simp add: list_all_iff)
qed

lemma hex4_char: "n < 256 \<Longrightarrow> hex4 (CHR ''0'') (CHR ''0'') (hex_char (n div 16)) (hex_char (n mod 16)) = Some n"
proof -
  assume "n < 256"
  moreover have "hex_val (CHR ''0'') = Some 0" by code_simp
  ultimately show ?thesis by (simp add: hex4_def hex_val_char less_mult_imp_div_less)
qed

lemma scan_esc: "scan_str (esc_char c @ r) = map_option (\<lambda>(s, q). (c # s, q)) (scan_str r)"
proof -
  have "(of_char c :: nat) < 256" by simp
  from hex4_char[OF this] show ?thesis
    by (auto simp: esc_char_def unesc_char_def)
qed

lemma scan_dump: "scan_str (concat (map esc_char s) @ CHR 0x22 # r) = Some (s, r)"
  by (induction s) (simp_all add: scan_esc)

lemma skip_solid: "s \<noteq> [] \<Longrightarrow> \<not> json_space (hd s) \<Longrightarrow> skip_ws s = s"
  by (cases s) (simp_all add: skip_ws_def)

lemma skip_spaces: "list_all json_space w \<Longrightarrow> skip_ws (w @ s) = skip_ws s"
  by (induction w) (simp_all add: skip_ws_def)

lemma follow_no_digit: "follow r \<Longrightarrow> takeWhile is_digit r = [] \<and> dropWhile is_digit r = r"
  by (cases r) (auto simp: follow_def is_digit_def)

lemma scan_digits_app:
  assumes "follow r"
  shows "scan_digits (s @ r) = (fst (scan_digits s), snd (scan_digits s) @ r)"
proof (induction s)
  case Nil
  then show ?case using follow_no_digit[OF assms] by (simp add: scan_digits_def)
qed (auto simp: scan_digits_def)

lemma scan_frac_app:
  assumes "follow r"
  shows "scan_frac (s @ r) = (fst (scan_frac s), snd (scan_frac s) @ r)"
proof (cases s)
  case Nil
  then show ?thesis using assms by (cases r) (auto simp: scan_frac_def follow_def split: prod.splits)
next
  case (Cons c cs)
  then show ?thesis using scan_digits_app[OF assms, of cs]
    by (auto simp: scan_frac_def split: prod.splits)
qed

lemma scan_exp_app:
  assumes "follow r"
  shows "scan_exp (s @ r) = (fst (scan_exp s), snd (scan_exp s) @ r)"
proof (cases s)
  case Nil
  then show ?thesis using assms by (cases r) (auto simp: scan_exp_def follow_def)
next
  case (Cons c cs)
  have "exp_sign (cs @ r) = exp_sign cs"
    "drop (length (exp_sign cs)) (cs @ r) = drop (length (exp_sign cs)) cs @ r"
    using assms by (cases cs; cases r; auto simp: exp_sign_def follow_def)+
  then show ?thesis
    using Cons scan_digits_app[OF assms, of "drop (length (exp_sign cs)) cs"]
    by (auto simp: scan_exp_def split: prod.splits)
qed

lemma scan_int_app:
  assumes "follow r" "scan_int s = Some (ds, q)"
  shows "scan_int (s @ r) = Some (ds, q @ r)"
  using assms(2) by (auto simp: scan_int_def scan_digits_app[OF assms(1)] split: prod.splits list.splits if_splits)

lemma scan_number_app:
  assumes "follow r" "scan_number s = Some (v, q)"
  shows "scan_number (s @ r) = Some (v, q @ r)"
proof -
  obtain c cs where s: "s = c # cs"
    using assms(2) by (cases s) (auto simp: scan_number_def scan_int_def scan_digits_def)
  define b where "b = (if c = CHR ''-'' then cs else s)"
  have b: "(if c = CHR ''-'' then cs @ r else s @ r) = b @ r" by (simp add: b_def)
  obtain ds q0 where i: "scan_int b = Some (ds, q0)"
    using assms(2) by (cases "scan_int b") (auto simp: scan_number_def Let_def b_def s split: if_splits)
  obtain fr q1 where f: "scan_frac q0 = (fr, q1)" by (cases "scan_frac q0")
  obtain ex q2 where e: "scan_exp q1 = (ex, q2)" by (cases "scan_exp q1")
  have "scan_int (b @ r) = Some (ds, q0 @ r)" "scan_frac (q0 @ r) = (fr, q1 @ r)"
    "scan_exp (q1 @ r) = (ex, q2 @ r)"
    using scan_int_app[OF assms(1) i] scan_frac_app[OF assms(1), of q0]
      scan_exp_app[OF assms(1), of q1] f e by simp_all
  then show ?thesis
    using assms(2) i f e by (cases "c = CHR ''-''") (auto simp: scan_number_def Let_def b_def s split: if_splits)
qed

lemma scan_number_str_int: "scan_number (str_int i) = Some (JInt i, [])"
proof -
  have int: "scan_int (str_nat n) = Some (str_nat n, [])" for n
  proof -
    have "takeWhile is_digit (str_nat n) = str_nat n" "dropWhile is_digit (str_nat n) = []"
      using str_nat_digits[of n] by (simp_all add: takeWhile_eq_all_conv dropWhile_eq_Nil_conv list_all_iff)
    moreover have "str_nat 0 = ''0''" by code_simp
    ultimately show ?thesis
      using hd_str_nat_zero[of n] str_nat_nonempty[of n]
      by (cases "str_nat n") (auto simp: scan_int_def scan_digits_def)
  qed
  have "hd (str_nat n) \<noteq> CHR ''-''" for n using hd_str_nat[of n] by (auto simp: is_digit_def)
  then show ?thesis
    by (simp add: scan_number_def str_int_def int scan_frac_def scan_exp_def Let_def)
qed

text \<open>A number starts with a digit, or with a minus sign and a digit.\<close>

lemma number_head:
  assumes "scan_number s = Some x"
  shows "(\<exists>d cs. s = d # cs \<and> is_digit d) \<or> (\<exists>d cs. s = CHR ''-'' # d # cs \<and> is_digit d)"
proof -
  have "scan_int (if s \<noteq> [] \<and> hd s = CHR ''-'' then tl s else s) \<noteq> None"
    using assms by (auto simp: scan_number_def Let_def split: option.splits)
  moreover have "scan_int b \<noteq> None \<Longrightarrow> \<exists>d cs. b = d # cs \<and> is_digit d" for b
    by (cases b) (auto simp: scan_int_def scan_digits_def split: if_splits)
  ultimately show ?thesis by (cases s) (auto split: if_splits)
qed

lemma scan_word_number: "scan_number s = Some x \<Longrightarrow> scan_word s = Some x"
  by (frule number_head) (auto simp: scan_word_def startswith_def is_digit_def)

lemma parse_number:
  assumes "follow r" "scan_number s = Some (v, [])"
  shows "parse_json (Suc n) (s @ r) = Some (v, r)"
proof -
  have "scan_number (s @ r) = Some (v, r)" using scan_number_app[OF assms] by simp
  then show ?thesis
    using scan_word_number number_head[OF assms(2)] by (auto simp: is_digit_def)
qed

lemma dumps_solid:
  "wf_json v \<Longrightarrow> dumps si sk v \<noteq> [] \<and> \<not> json_space (hd (dumps si sk v)) \<and> hd (dumps si sk v) \<notin> {CHR '']'', CHR ''}''}"
proof (cases v)
  case (JInt i)
  then show ?thesis
    using number_head[OF scan_number_str_int[of i]] by (auto simp: is_digit_def json_space_def)
next
  case (JFloat t)
  assume "wf_json v"
  then show ?thesis
    using JFloat number_head[of t] by (auto simp: is_digit_def json_space_def literal_def float_word_def)
qed (auto simp: json_space_def dump_str_def)

lemma skip_dumps: "wf_json v \<Longrightarrow> skip_ws (dumps si sk v @ r) = dumps si sk v @ r"
  using dumps_solid[of v si sk] by (simp add: skip_solid)

lemma update_new: "k \<notin> fst ` set kvs \<Longrightarrow> AList.update k v kvs = kvs @ [(k, v)]"
  by (induction kvs) auto

text \<open>Values, then the elements and the members of a sequence of them.\<close>

definition reads_back :: "string \<Rightarrow> string \<Rightarrow> json \<Rightarrow> bool" where
  "reads_back si sk v \<longleftrightarrow>
     (\<forall>n r. follow r \<longrightarrow> length (dumps si sk v) \<le> n \<longrightarrow> parse_json n (dumps si sk v @ r) = Some (v, r))"

lemma sep_skip:
  "s \<noteq> [] \<Longrightarrow> hd s = c \<Longrightarrow> list_all json_space (tl s) \<Longrightarrow> \<not> json_space c \<Longrightarrow>
   skip_ws (s @ t) = c # tl s @ t \<and> skip_ws (tl s @ t) = skip_ws t"
  by (cases s) (simp_all add: skip_solid skip_spaces)

lemma solid_seps [simp]:
  "\<not> json_space (CHR '','')" "\<not> json_space (CHR '':'')" "\<not> json_space (CHR '']'')"
  "\<not> json_space (CHR ''}'')" "\<not> json_space (CHR 0x22)"
  by (simp_all add: json_space_def)

lemma follow_seps [simp]: "follow (CHR '']'' # r)" "follow (CHR ''}'' # r)" "follow []"
  by (simp_all add: follow_def)

lemma follow_si: "seps si sk \<Longrightarrow> follow (si @ r)"
  by (cases si) (simp_all add: follow_def seps_def)

lemma si_skip: "seps si sk \<Longrightarrow> skip_ws (si @ t) = CHR '','' # tl si @ t \<and> skip_ws (tl si @ t) = skip_ws t"
  by (rule sep_skip) (simp_all add: seps_def)

lemma sk_skip: "seps si sk \<Longrightarrow> skip_ws (sk @ t) = CHR '':'' # tl sk @ t \<and> skip_ws (tl sk @ t) = skip_ws t"
  by (rule sep_skip) (simp_all add: seps_def)

lemma length_sep: "seps si sk \<Longrightarrow> (\<exists>c t. si = c # t) \<and> (\<exists>c t. sk = c # t)"
  by (cases si; cases sk) (auto simp: seps_def)

lemma joins_skip:
  "vs \<noteq> [] \<Longrightarrow> list_all wf_json vs \<Longrightarrow>
   skip_ws (joins si (map (dumps si sk) vs) @ r) = joins si (map (dumps si sk) vs) @ r"
  using dumps_solid[of "hd vs" si sk]
  by (cases vs; cases "tl vs") (auto intro: skip_solid)

lemma parse_elems_joins:
  assumes "seps si sk"
  shows "vs \<noteq> [] \<Longrightarrow> \<forall>v \<in> set vs. wf_json v \<and> reads_back si sk v \<Longrightarrow>
    length (joins si (map (dumps si sk) vs)) < n \<Longrightarrow>
    parse_elems n (joins si (map (dumps si sk) vs) @ CHR '']'' # r) = Some (vs, r)"
proof (induction vs arbitrary: n)
  case (Cons v vs)
  obtain m where n: "n = Suc m" using Cons.prems(3) by (cases n) auto
  show ?case
  proof (cases vs)
    case Nil
    then have "parse_json m (dumps si sk v @ CHR '']'' # r) = Some (v, CHR '']'' # r)"
      using Cons.prems n by (simp add: reads_back_def)
    then show ?thesis using Nil by (simp add: n skip_solid)
  next
    case (Cons w ws)
    let ?rest = "joins si (map (dumps si sk) vs) @ CHR '']'' # r"
    have whole: "joins si (map (dumps si sk) (v # vs)) @ CHR '']'' # r = dumps si sk v @ si @ ?rest"
      by (simp add: Cons)
    have len: "length (dumps si sk v) \<le> m" "length (joins si (map (dumps si sk) vs)) < m"
      using Cons.prems(3) length_sep[OF assms] by (auto simp: Cons n)
    have "parse_json m (dumps si sk v @ si @ ?rest) = Some (v, si @ ?rest)"
      using Cons.prems(2) len(1) follow_si[OF assms] by (simp add: reads_back_def)
    moreover have "parse_elems m ?rest = Some (vs, r)"
      by (rule Cons.IH) (use Cons.prems(2) Cons len(2) in simp_all)
    moreover have "skip_ws ?rest = ?rest"
      using Cons.prems(2) by (intro joins_skip) (auto simp: Cons list_all_iff)
    ultimately show ?thesis unfolding whole n using si_skip[OF assms, of ?rest] by simp
  qed
qed simp

lemma members_skip:
  "kvs \<noteq> [] \<Longrightarrow> skip_ws (joins si (map (dump_members si sk) kvs) @ r) = joins si (map (dump_members si sk) kvs) @ r"
proof (cases kvs)
  case (Cons kv rest)
  obtain k v where "kv = (k, v)" by (cases kv)
  then show ?thesis using Cons by (cases rest) (auto simp: dump_str_def intro: skip_solid)
qed simp

lemma parse_members_joins:
  assumes "seps si sk"
  shows "kvs \<noteq> [] \<Longrightarrow> \<forall>(k, v) \<in> set kvs. wf_json v \<and> reads_back si sk v \<Longrightarrow>
    distinct (map fst (acc @ kvs)) \<Longrightarrow> length (joins si (map (dump_members si sk) kvs)) < n \<Longrightarrow>
    parse_members n acc (joins si (map (dump_members si sk) kvs) @ CHR ''}'' # r) = Some (acc @ kvs, r)"
proof (induction kvs arbitrary: n acc)
  case (Cons kv kvs)
  obtain m where n: "n = Suc m" using Cons.prems(4) by (cases n) auto
  obtain k v where kv: "kv = (k, v)" by (cases kv)
  have v: "wf_json v" "reads_back si sk v" using Cons.prems(2) by (auto simp: kv)
  have new: "AList.update k v acc = acc @ [(k, v)]" using Cons.prems(3) by (auto simp: kv intro: update_new)
  have head: "parse_members n acc (dump_members si sk kv @ t) =
      (case skip_ws t of
         [] \<Rightarrow> None
       | c # r' \<Rightarrow>
           if c = CHR ''}'' then Some (acc @ [(k, v)], r')
           else if c = CHR '','' then parse_members m (acc @ [(k, v)]) (skip_ws r') else None)"
    if "follow t" "length (dumps si sk v) \<le> m" for t
  proof -
    have "parse_json m (dumps si sk v @ t) = Some (v, t)" using v that by (simp add: reads_back_def)
    then show ?thesis
      using sk_skip[OF assms, of "dumps si sk v @ t"] skip_dumps[OF v(1), of si sk t]
      by (simp add: kv n dump_str_def scan_dump new split: list.split)
  qed
  show ?case
  proof (cases kvs)
    case Nil
    have "length (dumps si sk v) \<le> m" using Cons.prems(4) by (simp add: Nil kv n)
    then show ?thesis using head[of "CHR ''}'' # r"] by (simp add: Nil kv skip_solid)
  next
    case (Cons w ws)
    let ?rest = "joins si (map (dump_members si sk) kvs) @ CHR ''}'' # r"
    have whole: "joins si (map (dump_members si sk) (kv # kvs)) @ CHR ''}'' # r = dump_members si sk kv @ si @ ?rest"
      by (simp add: Cons)
    have len: "length (dumps si sk v) \<le> m" "length (joins si (map (dump_members si sk) kvs)) < m"
      using Cons.prems(4) length_sep[OF assms] by (auto simp: Cons n kv)
    have "parse_members m (acc @ [(k, v)]) ?rest = Some ((acc @ [(k, v)]) @ kvs, r)"
      by (rule Cons.IH) (use Cons.prems Cons len(2) kv in auto)
    then show ?thesis
      unfolding whole using head[OF follow_si[OF assms] len(1), of ?rest] si_skip[OF assms, of ?rest]
        members_skip[of kvs si sk "CHR ''}'' # r"] by (simp add: Cons kv)
  qed
qed simp

lemma reads_backI:
  assumes "wf_json v"
    and "\<And>n r. follow r \<Longrightarrow> length (dumps si sk v) \<le> Suc n \<Longrightarrow>
           parse_json (Suc n) (dumps si sk v @ r) = Some (v, r)"
  shows "reads_back si sk v"
  unfolding reads_back_def
proof (intro allI impI)
  fix n r assume n: "follow r" "length (dumps si sk v) \<le> n"
  then obtain m where "n = Suc m" using dumps_solid[OF assms(1), of si sk] by (cases n) auto
  then show "parse_json n (dumps si sk v @ r) = Some (v, r)" using assms(2) n by simp
qed

lemma dumps_reads_back:
  assumes "seps si sk"
  shows "wf_json v \<Longrightarrow> reads_back si sk v"
proof (induction v)
  case (JInt i)
  then show ?case by (intro reads_backI) (simp_all add: parse_number scan_number_str_int del: parse_json.simps)
next
  case (JFloat t)
  have "float_word t \<Longrightarrow> parse_json (Suc n) (t @ r) = Some (JFloat t, r)" for n r
    by (auto simp: float_word_def scan_word_def startswith_def)
  then show ?case
    using JFloat by (intro reads_backI) (auto simp: parse_number literal_def simp del: parse_json.simps)
next
  case (JList vs)
  show ?case
  proof (rule reads_backI[OF JList.prems])
    fix m r assume len: "length (dumps si sk (JList vs)) \<le> Suc m"
    show "parse_json (Suc m) (dumps si sk (JList vs) @ r) = Some (JList vs, r)"
    proof (cases "vs = []")
      case True
      then show ?thesis by (simp add: skip_solid)
    next
      case False
      have "\<forall>v \<in> set vs. wf_json v \<and> reads_back si sk v" using JList by (auto simp: list_all_iff)
      then have "parse_elems m (joins si (map (dumps si sk) vs) @ CHR '']'' # r) = Some (vs, r)"
        using parse_elems_joins[OF assms False] len by simp
      moreover have "hd (joins si (map (dumps si sk) vs) @ CHR '']'' # r) \<noteq> CHR '']''"
        using False JList.prems dumps_solid[of "hd vs" si sk]
        by (cases vs; cases "tl vs") auto
      ultimately show ?thesis
        using joins_skip[OF False, of si sk "CHR '']'' # r"] JList.prems by (simp add: Let_def)
    qed
  qed
next
  case (JObj kvs)
  show ?case
  proof (rule reads_backI[OF JObj.prems])
    fix m r assume len: "length (dumps si sk (JObj kvs)) \<le> Suc m"
    show "parse_json (Suc m) (dumps si sk (JObj kvs) @ r) = Some (JObj kvs, r)"
    proof (cases "kvs = []")
      case True
      then show ?thesis by (simp add: skip_solid)
    next
      case False
      have "\<forall>(k, v) \<in> set kvs. wf_json v \<and> reads_back si sk v"
        using JObj by (fastforce simp: list_all_iff)
      then have "parse_members m [] (joins si (map (dump_members si sk) kvs) @ CHR ''}'' # r) = Some (kvs, r)"
        using parse_members_joins[OF assms False, of "[]"] JObj.prems len by simp
      moreover have "hd (joins si (map (dump_members si sk) kvs) @ CHR ''}'' # r) \<noteq> CHR ''}''"
        using False by (cases kvs; cases "tl kvs") (auto simp: dump_str_def)
      ultimately show ?thesis
        using members_skip[OF False, of si sk "CHR ''}'' # r"] by (simp add: Let_def)
    qed
  qed
qed (auto intro!: reads_backI simp: dump_str_def scan_dump scan_word_def startswith_def)

lemma loads_dumps: "seps si sk \<Longrightarrow> wf_json v \<Longrightarrow> loads (dumps si sk v) = Inr v"
proof -
  assume ok: "seps si sk" "wf_json v"
  have "parse_json (Suc (length (dumps si sk v))) (dumps si sk v @ []) = Some (v, [])"
    using dumps_reads_back[OF ok] unfolding reads_back_def by (metis follow_seps(3) le_SucI order_refl)
  moreover have "skip_ws (dumps si sk v) = dumps si sk v" using skip_dumps[OF ok(2), of si sk "[]"] by simp
  moreover have "skip_ws [] = []" by (simp add: skip_ws_def)
  ultimately show ?thesis by (simp add: loads_def del: parse_json.simps)
qed

section \<open>What is read is well formed\<close>

lemma scan_number_cases: "scan_number s = Some (v, r) \<Longrightarrow> (\<exists>i. v = JInt i) \<or> (\<exists>t. v = JFloat t)"
  by (auto simp: scan_number_def Let_def split: option.splits prod.splits if_splits)

lemma scan_word_wf: "scan_word s = Some (v, r) \<Longrightarrow> wf_json v"
proof -
  assume "scan_word s = Some (v, r)"
  then have "v = JNull \<or> (\<exists>b. v = JBool b) \<or> (\<exists>t. v = JFloat t \<and> float_word t) \<or> scan_number s = Some (v, r)"
    unfolding scan_word_def float_word_def by (simp split: if_split_asm) blast+
  then show ?thesis using scan_number_cases[of s v r] scan_number_literal[of s _ r] by auto
qed

lemma update_wf:
  "distinct (map fst kvs) \<Longrightarrow> list_all wf_member kvs \<Longrightarrow> wf_json v \<Longrightarrow>
   distinct (map fst (AList.update k v kvs)) \<and> list_all wf_member (AList.update k v kvs)"
  by (induction kvs) (auto simp: dom_update)

lemma parse_wf:
  "parse_json n s = Some (v, r) \<Longrightarrow> wf_json v"
  "parse_elems n s = Some (vs, r) \<Longrightarrow> list_all wf_json vs"
  "parse_members n kvs s = Some (kvs', r) \<Longrightarrow> distinct (map fst kvs) \<Longrightarrow> list_all wf_member kvs \<Longrightarrow>
     distinct (map fst kvs') \<and> list_all wf_member kvs'"
proof (induction n s and n s and n kvs s arbitrary: v r and vs r and kvs' r
    rule: parse_json_parse_elems_parse_members.induct)
  case (2 n s)
  then show ?case by (auto simp: Let_def scan_word_wf split: list.splits if_splits)
next
  case (4 n s)
  then show ?case by (auto split: option.splits list.splits if_splits)
next
  case (6 n kvs s)
  then show ?case
    by (auto simp: update_wf split: option.splits list.splits if_splits)
qed simp_all

lemma loads_wf: "loads s = Inr v \<Longrightarrow> wf_json v"
  by (auto simp: loads_def simp del: parse_json.simps split: option.splits if_splits dest: parse_wf(1))

end
