(* ===== verification/Docker_Sdk.thy ===== *)
theory Docker_Sdk
  imports Daemon_Db Host_Process Json_Text
begin

text \<open>
  What \<open>daemon/edo_core/containers.py\<close> uses of the \<open>docker\<close> package and of the machine. The
  package is not part of the repository: its calls are the fields of a record, functions on an
  arbitrary machine state \<open>'w\<close> that may raise any exception. The state of the daemon's process
  is the database, the machine and the two module-level caches. JSON objects that the SDK
  returns (\<open>attrs\<close>) are read with the dictionary operations the code uses on them.
\<close>

section \<open>The calls of the SDK\<close>

record docker_net =
  net_id :: string
  net_attrs :: json

record docker_image =
  img_attrs :: json

record container =
  ct_id :: string
  ct_name :: string
  ct_status :: string
  ct_labels :: "(string \<times> string) list option"
  ct_attrs :: json

record net_spec =
  ns_name :: string
  ns_driver :: string
  ns_subnet :: string
  ns_gateway :: string
  ns_options :: "(string \<times> string) list"
  ns_check_duplicate :: bool
  ns_labels :: "(string \<times> string) list"

record container_spec =
  cs_image :: string
  cs_name :: string
  cs_networking :: json
  cs_host_config :: json
  cs_labels :: "(string \<times> string) list"

record 'w docker =
  sdk_available :: bool
  connect :: "('w, unit) act"
  networks_get :: "string \<Rightarrow> ('w, docker_net) act"
  networks_create :: "net_spec \<Rightarrow> ('w, unit) act"
  network_remove :: "string \<Rightarrow> ('w, unit) act"
  images_get :: "string \<Rightarrow> ('w, docker_image) act"
  images_build :: "string \<Rightarrow> string \<Rightarrow> ('w, unit) act"
  create_host_config :: "(string \<times> json) list \<Rightarrow> exc + json"
  create_endpoint_config :: "string \<Rightarrow> exc + json"
  create_networking_config :: "(string \<times> json) list \<Rightarrow> exc + json"
  create_container :: "container_spec \<Rightarrow> ('w, string) act"
  start :: "string \<Rightarrow> ('w, unit) act"
  containers_get :: "string \<Rightarrow> ('w, container) act"
  container_reload :: "container \<Rightarrow> ('w, container) act"
  container_stop :: "string \<Rightarrow> int \<Rightarrow> ('w, unit) act"
  container_remove :: "string \<Rightarrow> bool \<Rightarrow> ('w, unit) act"
  containers_list :: "bool \<Rightarrow> string \<Rightarrow> ('w, container list) act"

text \<open>
  The rest of the machine: host programs, files, the clock (\<open>iso_after n w\<close> is the ISO text of
  the present time plus \<open>n\<close> seconds), the environment, and Python's arithmetic on floats
  (\<open>float_int t\<close> is \<open>int(t)\<close>, \<open>nano t\<close> is \<open>int(t * 1_000_000_000)\<close> for a float literal \<open>t\<close>).
\<close>

record 'w machine =
  host_of :: "'w host"
  docker_of :: "'w docker"
  is_file :: "string \<Rightarrow> 'w \<Rightarrow> bool"
  iso_after :: "int \<Rightarrow> 'w \<Rightarrow> string"
  os_environ :: "(string \<times> string) list"
  port_range_start :: int
  port_range_end :: int
  float_int :: "string \<Rightarrow> exc + int"
  nano :: "string \<Rightarrow> exc + int"

section \<open>The state of the process\<close>

text \<open>\<open>client_cached\<close> is \<open>_client_cache is not None\<close>, \<open>buildkit_ok\<close> is \<open>_buildkit_ok\<close>.\<close>

record 'w daemon =
  store :: db
  world :: 'w
  client_cached :: bool
  buildkit_ok :: "bool option"

definition on_world :: "('w, 'a) act \<Rightarrow> ('w daemon, 'a) act" where
  "on_world f s = (case f (world s) of (r, w) \<Rightarrow> (r, s\<lparr>world := w\<rparr>))"

definition on_db :: "(db, 'a) act \<Rightarrow> ('w daemon, 'a) act" where
  "on_db f s = (case f (store s) of (r, d) \<Rightarrow> (r, s\<lparr>store := d\<rparr>))"

text \<open>A database operation that returns a truth value and does not raise.\<close>

definition db_call :: "(db \<Rightarrow> 'a \<times> db) \<Rightarrow> ('w daemon, 'a) act" where
  "db_call f s = (case f (store s) of (b, d) \<Rightarrow> (Inr b, s\<lparr>store := d\<rparr>))"

definition pure :: "exc + 'a \<Rightarrow> ('w daemon, 'a) act" where
  "pure r s = (r, s)"

definition any_exc :: "exc \<Rightarrow> bool" where
  "any_exc e = True"

lemma any_exc [simp]: "any_exc e"
  by (simp add: any_exc_def)

text \<open>\<open>DockerException\<close> and its subclasses.\<close>

fun is_DockerException :: "exc \<Rightarrow> bool" where
  "is_DockerException (DockerExc _) = True"
| "is_DockerException (BuildError _) = True"
| "is_DockerException e = is_APIError e"

fun is_ValueError :: "exc \<Rightarrow> bool" where
  "is_ValueError (ValueError _) = True"
| "is_ValueError _ = False"

fun is_BuildError :: "exc \<Rightarrow> bool" where
  "is_BuildError (BuildError _) = True"
| "is_BuildError _ = False"

section \<open>Reading JSON objects\<close>

text \<open>Truth of a value, \<open>obj.get(key, default)\<close>, \<open>x or {}\<close>, \<open>.keys()\<close>, \<open>.items()\<close>, \<open>int(x)\<close>.\<close>

fun truthy :: "json \<Rightarrow> bool" where
  "truthy JNull = False"
| "truthy (JBool b) = b"
| "truthy (JInt i) = (i \<noteq> 0)"
| "truthy (JFloat t) = (\<exists>c \<in> set (takeWhile (\<lambda>c. c \<noteq> CHR ''e'' \<and> c \<noteq> CHR ''E'') t). c \<notin> set ''-0.'')"
| "truthy (JStr s) = (s \<noteq> [])"
| "truthy (JList vs) = (vs \<noteq> [])"
| "truthy (JObj kvs) = (kvs \<noteq> [])"

definition obj_items :: "json \<Rightarrow> exc + (string \<times> json) list" where
  "obj_items j = (case j of JObj kvs \<Rightarrow> Inr kvs | _ \<Rightarrow> Inl (AttributeError ''not a dict''))"

definition obj_get :: "json \<Rightarrow> string \<Rightarrow> json \<Rightarrow> exc + json" where
  "obj_get j k dflt =
     (case j of
        JObj kvs \<Rightarrow> Inr (case map_of kvs k of None \<Rightarrow> dflt | Some v \<Rightarrow> v)
      | _ \<Rightarrow> Inl (AttributeError ''get''))"

definition or_empty :: "json \<Rightarrow> json" where
  "or_empty j = (if truthy j then j else JObj [])"

definition sum_bind :: "exc + 'a \<Rightarrow> ('a \<Rightarrow> exc + 'b) \<Rightarrow> exc + 'b" where
  "sum_bind r f = (case r of Inl e \<Rightarrow> Inl e | Inr x \<Rightarrow> f x)"

lemma sum_bind_simps [simp]: "sum_bind (Inl e) f = Inl e" "sum_bind (Inr x) f = f x"
  by (simp_all add: sum_bind_def)

definition json_int :: "(string \<Rightarrow> exc + int) \<Rightarrow> json \<Rightarrow> exc + int" where
  "json_int fl j =
     (case j of
        JInt i \<Rightarrow> Inr i
      | JBool b \<Rightarrow> Inr (if b then 1 else 0)
      | JStr s \<Rightarrow> int_of_text s
      | JFloat t \<Rightarrow> fl t
      | _ \<Rightarrow> Inl (TypeError ''int() argument''))"

section \<open>Frames\<close>

lemma on_world_store [simp]: "store (snd (on_world f s)) = store s"
  by (simp add: on_world_def split: prod.splits)

lemma on_world_D: "on_world f s = (r, s') \<Longrightarrow> store s' = store s"
  using on_world_store[of f s] by simp

lemma pure_simps [simp]: "pure r s = (r, s)"
  by (simp add: pure_def)

end
