(* ===== verification/Containers.thy ===== *)
theory Containers
  imports Docker_Sdk
begin

text \<open>
  The docker control plane of the daemon, \<open>daemon/edo_core/containers.py\<close>: the security profile
  and the host configuration made from it, image building, the per-owner networks, address and
  public port allocation, and the life cycle of an instance: spawn, release, tear down,
  reconcile, adopt. \<open>m\<close> is the machine (with the docker SDK), \<open>s\<close> the state of the process.
  Log calls are left out.
\<close>

definition MANAGED_LABEL :: string where "MANAGED_LABEL = ''edo.managed''"
definition OWNER_TYPE_LABEL :: string where "OWNER_TYPE_LABEL = ''edo.owner_type''"
definition OWNER_ID_LABEL :: string where "OWNER_ID_LABEL = ''edo.owner_id''"
definition CHALLENGE_LABEL :: string where "CHALLENGE_LABEL = ''edo.challenge_ref''"
definition EXPIRES_LABEL :: string where "EXPIRES_LABEL = ''edo.expires_at''"
definition PORTS_LABEL :: string where "PORTS_LABEL = ''edo.ports''"

section \<open>Security profiles\<close>

text \<open>\<open>cpus\<close> is an integer or a float literal.\<close>

datatype number = Int_num int | Float_num string

record security_profile =
  no_new_privileges :: bool
  cap_drop :: "string list"
  cap_add :: "string list"
  read_only_rootfs :: bool
  memory :: "string option"
  cpus :: "number option"
  pids_limit :: "int option"
  restart_policy :: string

definition default_profile :: security_profile where
  "default_profile =
     \<lparr>no_new_privileges = True, cap_drop = [''NET_RAW''], cap_add = [], read_only_rootfs = False,
      memory = None, cpus = None, pids_limit = None, restart_policy = ''unless-stopped''\<rparr>"

text \<open>\<open>if self.memory:\<close> is false for \<open>None\<close> and for the empty text.\<close>

definition set_text :: "string option \<Rightarrow> bool" where
  "set_text t \<longleftrightarrow> (case t of None \<Rightarrow> False | Some s \<Rightarrow> s \<noteq> [])"

definition number_str :: "number \<Rightarrow> string" where
  "number_str n = (case n of Int_num i \<Rightarrow> str_int i | Float_num t \<Rightarrow> t)"

definition summary :: "security_profile \<Rightarrow> string" where
  "summary p = joins '' ''
     ((if no_new_privileges p then [''no-new-privs''] else [])
      @ (if cap_drop p \<noteq> [] then [''cap-drop='' @ joins ''+'' (cap_drop p)] else [])
      @ (if cap_add p \<noteq> [] then [''cap-add='' @ joins ''+'' (cap_add p)] else [])
      @ (if read_only_rootfs p then [''read-only''] else [])
      @ (if set_text (memory p) then [''mem='' @ the (memory p)] else [])
      @ (case cpus p of None \<Rightarrow> [] | Some c \<Rightarrow> [''cpus='' @ number_str c])
      @ (case pids_limit p of None \<Rightarrow> [] | Some n \<Rightarrow> [''pids='' @ str_int n])
      @ [''restart='' @ restart_policy p])"

definition nano_cpus :: "'w machine \<Rightarrow> number \<Rightarrow> exc + int" where
  "nano_cpus m n = (case n of Int_num i \<Rightarrow> Inr (i * 1000000000) | Float_num t \<Rightarrow> nano m t)"

text \<open>The keyword arguments of \<open>create_host_config\<close>, in the order the code sets them.\<close>

definition host_config_kwargs ::
  "'w machine \<Rightarrow> security_profile \<Rightarrow> (string \<times> int) list option \<Rightarrow> exc + (string \<times> json) list" where
  "host_config_kwargs m p publish_ports =
     sum_bind (case cpus p of None \<Rightarrow> Inr [] | Some c \<Rightarrow>
                 sum_bind (nano_cpus m c) (\<lambda>n. Inr [(''nano_cpus'', JInt n)]))
       (\<lambda>cpu_args. Inr
         ([(''restart_policy'', JObj [(''Name'', JStr (restart_policy p))])]
          @ (if no_new_privileges p then [(''security_opt'', JList [JStr ''no-new-privileges:true''])] else [])
          @ (if cap_drop p \<noteq> [] then [(''cap_drop'', JList (map JStr (cap_drop p)))] else [])
          @ (if cap_add p \<noteq> [] then [(''cap_add'', JList (map JStr (cap_add p)))] else [])
          @ (if set_text (memory p) then [(''mem_limit'', JStr (the (memory p)))] else [])
          @ cpu_args
          @ (case pids_limit p of None \<Rightarrow> [] | Some n \<Rightarrow> [(''pids_limit'', JInt n)])
          @ (if read_only_rootfs p
             then [(''read_only'', JBool True), (''tmpfs'', JObj [(''/tmp'', JStr ''rw,size=64m,exec'')])] else [])
          @ (case publish_ports of
               None \<Rightarrow> []
             | Some pm \<Rightarrow> if pm = [] then []
                 else [(''port_bindings'', JObj (map (\<lambda>(c, h). (c, JInt h)) pm))])))"

definition build_secure_host_config ::
  "'w machine \<Rightarrow> security_profile \<Rightarrow> (string \<times> int) list option \<Rightarrow> exc + json" where
  "build_secure_host_config m p publish_ports =
     sum_bind (host_config_kwargs m p publish_ports) (create_host_config (docker_of m))"

section \<open>The client, names and images\<close>

definition get_client :: "'w machine \<Rightarrow> ('w daemon, unit) act" where
  "get_client m s =
     (if client_cached s then (Inr (), s)
      else if \<not> sdk_available (docker_of m)
      then (Inl (RuntimeError ''docker python SDK not installed (pip install docker)''), s)
      else and_then
        (except (on_world (connect (docker_of m)) s) is_DockerException
           (\<lambda>e s. (Inl (RuntimeError (''docker unavailable: '' @ exc_str e)), s)))
        (\<lambda>_ s. (Inr (), s\<lparr>client_cached := True\<rparr>)))"

text \<open>\<open>re.sub(r"[^a-z0-9]+", "_", name.lower()).strip("_")\<close>\<close>

definition slug_char :: "char \<Rightarrow> bool" where
  "slug_char c \<longleftrightarrow> is_digit c \<or> (97 \<le> (of_char c :: nat) \<and> (of_char c :: nat) \<le> 122)"

fun sub_runs :: "bool \<Rightarrow> string \<Rightarrow> string" where
  "sub_runs in_run [] = []"
| "sub_runs in_run (c # cs) =
     (if slug_char c then c # sub_runs False cs
      else if in_run then sub_runs True cs
      else CHR ''_'' # sub_runs True cs)"

definition strip_underscores :: "string \<Rightarrow> string" where
  "strip_underscores s =
     rev (dropWhile (\<lambda>c. c = CHR ''_'') (rev (dropWhile (\<lambda>c. c = CHR ''_'') s)))"

definition slug :: "string \<Rightarrow> string" where
  "slug name = strip_underscores (sub_runs False (lower name))"

definition container_name_for :: "string \<Rightarrow> owner \<Rightarrow> string" where
  "container_name_for chal ow = ''edo_'' @ slug chal @ ''_'' @ fst ow @ ''_'' @ str_int (snd ow)"

definition image_tag_for :: "string \<Rightarrow> string" where
  "image_tag_for chal = ''edo/'' @ slug chal @ '':latest''"

text \<open>\<open>sorted(exposed.keys())\<close>\<close>

fun insert_sorted :: "string \<Rightarrow> string list \<Rightarrow> string list" where
  "insert_sorted x [] = [x]"
| "insert_sorted x (y # ys) = (if str_less_eq x y then x # y # ys else y # insert_sorted x ys)"

definition sorted_keys :: "(string \<times> json) list \<Rightarrow> string list" where
  "sorted_keys kvs = foldr insert_sorted (map fst kvs) []"

definition exposed_of :: "json \<Rightarrow> exc + string list" where
  "exposed_of attrs =
     sum_bind (obj_get attrs ''Config'' (JObj []))
       (\<lambda>cfg. sum_bind (obj_get cfg ''ExposedPorts'' JNull)
         (\<lambda>ex. sum_bind (obj_items (or_empty ex)) (\<lambda>kvs. Inr (sorted_keys kvs))))"

definition detect_exposed_ports :: "'w machine \<Rightarrow> string \<Rightarrow> ('w daemon, string list) act" where
  "detect_exposed_ports m tag s =
     except
       (and_then (on_world (images_get (docker_of m) tag) s) (\<lambda>img s. (exposed_of (img_attrs img), s)))
       is_APIError (\<lambda>_ s. (Inr [], s))"

definition buildkit_available :: "'w machine \<Rightarrow> ('w daemon, bool) act" where
  "buildkit_available m s =
     (case buildkit_ok s of
        Some b \<Rightarrow> (Inr b, s)
      | None \<Rightarrow>
          and_then
            (except
               (and_then (on_world (raw_run (host_of m) (cmd [''docker'', ''buildx'', ''version''])) s)
                  (\<lambda>(rc, out, err) s. (Inr (rc = 0), s)))
               is_OSError (\<lambda>_ s. (Inr False, s)))
            (\<lambda>b s. (Inr b, s\<lparr>buildkit_ok := Some b\<rparr>)))"

definition build_image_sdk :: "'w machine \<Rightarrow> string \<Rightarrow> string \<Rightarrow> ('w daemon, bool \<times> string) act" where
  "build_image_sdk m tag path s =
     and_then (get_client m s) (\<lambda>_ s.
       except
         (and_then (on_world (images_build (docker_of m) tag path) s) (\<lambda>_ s. (Inr (True, []), s)))
         (\<lambda>e. is_BuildError e \<or> is_APIError e)
         (\<lambda>e s. (Inr (False, ''build failed: '' @ exc_str e), s)))"

text \<open>\<open>{**os.environ, "DOCKER_BUILDKIT": \<dots>}\<close>\<close>

definition build_env :: "'w machine \<Rightarrow> bool \<Rightarrow> (string \<times> string) list" where
  "build_env m buildkit =
     AList.update ''DOCKER_BUILDKIT'' (if buildkit then ''1'' else ''0'') (os_environ m)"

fun is_FileNotFound :: "exc \<Rightarrow> bool" where
  "is_FileNotFound (FileNotFoundError _) = True"
| "is_FileNotFound _ = False"

definition build_image :: "'w machine \<Rightarrow> string \<Rightarrow> string \<Rightarrow> ('w daemon, bool \<times> string) act" where
  "build_image m tag path s =
     (if \<not> which (host_of m) ''docker'' (world s) then build_image_sdk m tag path s
      else and_then (buildkit_available m s) (\<lambda>use_buildkit s.
        except
          (and_then
            (on_world (raw_run (host_of m)
               \<lparr>argv = [''docker'', ''build'', ''-t'', tag, path], stdin = [], environ = build_env m use_buildkit\<rparr>) s)
            (\<lambda>(rc, out, err) s.
               if rc \<noteq> 0 then (Inr (False, ''docker build failed (exit '' @ str_int rc @ '')''), s)
               else (Inr (True, []), s)))
          is_FileNotFound
          (\<lambda>_ s. build_image_sdk m tag path s)))"

section \<open>Per-owner networks\<close>

definition network_is_routed :: "docker_net \<Rightarrow> exc + bool" where
  "network_is_routed net =
     sum_bind (obj_get (net_attrs net) ''Options'' JNull)
       (\<lambda>opts. sum_bind (obj_get (or_empty opts) ''com.docker.network.bridge.gateway_mode_ipv4'' JNull)
         (\<lambda>mode. Inr (mode = JStr ''routed'')))"

definition network_spec :: "owner \<Rightarrow> string \<Rightarrow> string \<Rightarrow> string \<Rightarrow> net_spec" where
  "network_spec ow name subnet gateway =
     \<lparr>ns_name = name, ns_driver = ''bridge'', ns_subnet = subnet, ns_gateway = gateway,
      ns_options = [(''com.docker.network.bridge.name'', name),
                    (''com.docker.network.bridge.gateway_mode_ipv4'', ''routed'')],
      ns_check_duplicate = True,
      ns_labels = [(OWNER_TYPE_LABEL, fst ow), (OWNER_ID_LABEL, str_int (snd ow))]\<rparr>"

definition create_owner_network ::
  "'w machine \<Rightarrow> owner \<Rightarrow> string \<Rightarrow> string \<Rightarrow> string \<Rightarrow> ('w daemon, unit) act" where
  "create_owner_network m ow name subnet gateway s =
     except (on_world (networks_create (docker_of m) (network_spec ow name subnet gateway)) s)
       is_APIError
       (\<lambda>e s.
          if contains ''gateway_mode'' (exc_str e) \<or> contains ''unknown option'' (lower (exc_str e))
          then (Inl (RuntimeError (''Docker rejected routed-mode networking (needs Docker 24.0+): ''
                  @ exc_str e)), s)
          else (Inl e, s))"

definition ensure_owner_network :: "'w machine \<Rightarrow> owner \<Rightarrow> ('w daemon, int) act" where
  "ensure_owner_network m ow s =
     and_then (on_db (allocate_octet ow) s) (\<lambda>k s.
     and_then (get_client m s) (\<lambda>_ s.
     and_then (pure (owner_subnet k) s) (\<lambda>subnet s.
       let name = bridge_name k; gateway = owner_gateway_ip k in
       and_then
         (except
            (and_then (on_world (networks_get (docker_of m) name) s) (\<lambda>net s.
             and_then (pure (network_is_routed net) s) (\<lambda>routed s.
               if routed then (Inr True, s)
               else (Inl (RuntimeError (''docker network '' @ quote @ name @ quote
                       @ '' exists but is not in routed mode; remove it manually (docker network rm) and retry'')), s))))
            is_NotFound (\<lambda>_ s. (Inr False, s)))
         (\<lambda>exists s.
            if exists then (Inr k, s)
            else and_then (create_owner_network m ow name (net_str subnet) gateway s)
                   (\<lambda>_ s. (Inr k, s))))))"

definition release_owner_network_if_idle :: "'w machine \<Rightarrow> owner \<Rightarrow> ('w daemon, unit) act" where
  "release_owner_network_if_idle m ow s =
     (if count_instances_for_owner ow (store s) > 0 then (Inr (), s)
      else (case get_octet ow (store s) of
              None \<Rightarrow> (Inr (), s)
            | Some k \<Rightarrow>
                and_then (get_client m s) (\<lambda>_ s.
                and_then
                  (except
                     (and_then (on_world (networks_get (docker_of m) (bridge_name k)) s) (\<lambda>net s.
                      and_then (on_world (network_remove (docker_of m) (net_id net)) s) (\<lambda>_ s. (Inr True, s))))
                     is_APIError (\<lambda>_ s. (Inr False, s)))
                  (\<lambda>gone s.
                     if gone then and_then (db_call (free_octet ow) s) (\<lambda>_ s. (Inr (), s)) else (Inr (), s)))))"

section \<open>Addresses and public ports\<close>

definition find_next_owner_ip :: "owner \<Rightarrow> int \<Rightarrow> db \<Rightarrow> exc + string" where
  "find_next_owner_ip ow k d =
     sum_bind (owner_subnet k)
       (\<lambda>subnet. iter_subnet_hosts subnet (get_used_instance_ips ow d @ [owner_gateway_ip k]))"

definition is_resource_conflict :: "exc \<Rightarrow> bool" where
  "is_resource_conflict err \<longleftrightarrow>
     (let msg = lower (exc_str err) in
      contains ''address already in use'' msg \<or> contains ''is already in use'' msg
      \<or> contains ''no available'' msg \<or> contains ''overlaps'' msg
      \<or> contains ''already allocated'' msg)"

text \<open>
  \<open>used.update(int(p) for p in \<dots>)\<close> adds the numbers up to the first value that raises; the
  exceptions named here end the update of one row, others leave the function.
\<close>

fun is_parse_error :: "exc \<Rightarrow> bool" where
  "is_parse_error (ValueError _) = True"
| "is_parse_error (TypeError _) = True"
| "is_parse_error (AttributeError _) = True"
| "is_parse_error _ = False"

fun update_ints :: "(string \<Rightarrow> exc + int) \<Rightarrow> int list \<Rightarrow> json list \<Rightarrow> exc + int list" where
  "update_ints fl used [] = Inr used"
| "update_ints fl used (v # vs) =
     (case json_int fl v of
        Inr p \<Rightarrow> update_ints fl (used @ [p]) vs
      | Inl e \<Rightarrow> if is_parse_error e then Inr used else Inl e)"

fun used_ports_of :: "(string \<Rightarrow> exc + int) \<Rightarrow> int list \<Rightarrow> inst list \<Rightarrow> exc + int list" where
  "used_ports_of fl used [] = Inr used"
| "used_ports_of fl used (i # is) =
     (case published_ports i of
        None \<Rightarrow> used_ports_of fl used is
      | Some text \<Rightarrow>
          if text = [] then used_ports_of fl used is
          else (case sum_bind (loads text) obj_items of
                  Inl e \<Rightarrow> if is_parse_error e then used_ports_of fl used is else Inl e
                | Inr kvs \<Rightarrow>
                    (case update_ints fl used (map snd kvs) of
                       Inl e \<Rightarrow> Inl e
                     | Inr used' \<Rightarrow> used_ports_of fl used' is)))"

definition used_public_ports :: "'w machine \<Rightarrow> db \<Rightarrow> exc + int list" where
  "used_public_ports m d = used_ports_of (float_int m) [] (get_all_instances d)"

fun choose_ports :: "int list \<Rightarrow> int list \<Rightarrow> nat \<Rightarrow> int list \<Rightarrow> int list option" where
  "choose_ports used chosen count [] = None"
| "choose_ports used chosen count (port # span) =
     (if port \<notin> set used
      then (if length (chosen @ [port]) = count then Some (chosen @ [port])
            else choose_ports used (chosen @ [port]) count span)
      else choose_ports used chosen count span)"

definition allocate_public_ports :: "'w machine \<Rightarrow> nat \<Rightarrow> int list \<Rightarrow> db \<Rightarrow> exc + int list" where
  "allocate_public_ports m count exclude d =
     sum_bind (used_public_ports m d) (\<lambda>used.
       case choose_ports (used @ exclude) [] count [port_range_start m .. port_range_end m] of
         Some chosen \<Rightarrow> Inr chosen
       | None \<Rightarrow> Inl (RuntimeError (''no free ports left in range '' @ str_int (port_range_start m)
                       @ ''-'' @ str_int (port_range_end m))))"

text \<open>
  The address docker gave the container (a text, else none), with the reloaded container, and
  the host ports it bound.
\<close>

definition ip_of_attrs :: "json \<Rightarrow> string \<Rightarrow> exc + string option" where
  "ip_of_attrs attrs network_name =
     sum_bind (obj_get attrs ''NetworkSettings'' (JObj []))
       (\<lambda>ns. sum_bind (obj_get ns ''Networks'' (JObj []))
         (\<lambda>nets. sum_bind (obj_get nets network_name (JObj []))
           (\<lambda>net. sum_bind (obj_get net ''IPAddress'' JNull)
             (\<lambda>ip. Inr (case ip of JStr t \<Rightarrow> if t = [] then None else Some t | _ \<Rightarrow> None)))))"

definition live_container_ip ::
  "'w machine \<Rightarrow> container \<Rightarrow> string \<Rightarrow> ('w daemon, string option \<times> container) act" where
  "live_container_ip m c network_name s =
     and_then
       (except
          (and_then (on_world (container_reload (docker_of m) c) s) (\<lambda>c' s. (Inr (Some c'), s)))
          is_APIError (\<lambda>_ s. (Inr None, s)))
       (\<lambda>r s.
          case r of
            None \<Rightarrow> (Inr (None, c), s)
          | Some c' \<Rightarrow> and_then (pure (ip_of_attrs (ct_attrs c') network_name) s) (\<lambda>ip s. (Inr (ip, c'), s)))"

fun published_of :: "(string \<Rightarrow> exc + int) \<Rightarrow> (string \<times> json) list \<Rightarrow> exc + (string \<times> int) list" where
  "published_of fl [] = Inr []"
| "published_of fl ((port, bindings) # rest) =
     (if \<not> truthy bindings then published_of fl rest
      else (case bindings of
              JList (b # _) \<Rightarrow>
                (case b of
                   JObj kvs \<Rightarrow>
                     (case map_of kvs ''HostPort'' of
                        None \<Rightarrow> Inl (KeyError ''HostPort'')
                      | Some v \<Rightarrow>
                          sum_bind (json_int fl v) (\<lambda>p. sum_bind (published_of fl rest) (\<lambda>ps. Inr ((port, p) # ps))))
                 | _ \<Rightarrow> Inl (TypeError ''indices''))
            | JObj _ \<Rightarrow> Inl (KeyError ''0'')
            | _ \<Rightarrow> Inl (TypeError ''not subscriptable'')))"

definition live_published_ports :: "'w machine \<Rightarrow> container \<Rightarrow> exc + (string \<times> int) list" where
  "live_published_ports m c =
     sum_bind (obj_get (ct_attrs c) ''NetworkSettings'' (JObj []))
       (\<lambda>ns. sum_bind (obj_get ns ''Ports'' JNull)
         (\<lambda>ports. sum_bind (obj_items (or_empty ports)) (published_of (float_int m))))"

section \<open>Spawning an instance\<close>

record spawn_result =
  success :: bool
  instance_of :: "inst option"
  error :: "string option"

definition spawned :: "inst \<Rightarrow> spawn_result" where
  "spawned i = \<lparr>success = True, instance_of = Some i, error = None\<rparr>"

definition spawn_failed :: "string \<Rightarrow> spawn_result" where
  "spawn_failed msg = \<lparr>success = False, instance_of = None, error = Some msg\<rparr>"

text \<open>What \<open>spawn_instance\<close> is asked for, and what its first part determines for the loop.\<close>

record spawn_request =
  sr_owner :: owner
  sr_challenge :: string
  sr_path :: string
  sr_profile :: security_profile
  sr_ttl :: "int option"
  sr_publish :: bool

record spawn_plan =
  pl_network :: string
  pl_octet :: int
  pl_image :: string
  pl_name :: string
  pl_expires :: "string option"
  pl_exposed :: "string list"

definition container_labels :: "spawn_request \<Rightarrow> spawn_plan \<Rightarrow> (string \<times> string) list" where
  "container_labels q pl =
     [(MANAGED_LABEL, ''true''),
      (OWNER_TYPE_LABEL, fst (sr_owner q)),
      (OWNER_ID_LABEL, str_int (snd (sr_owner q))),
      (CHALLENGE_LABEL, sr_challenge q),
      (EXPIRES_LABEL, case pl_expires pl of None \<Rightarrow> [] | Some t \<Rightarrow> t),
      (PORTS_LABEL, joins '','' (pl_exposed pl))]"

text \<open>The body of the \<open>try\<close>: create the container at the address, start it, look it up.\<close>

definition launch ::
  "'w machine \<Rightarrow> spawn_request \<Rightarrow> spawn_plan \<Rightarrow> string \<Rightarrow> json \<Rightarrow> ('w daemon, container) act" where
  "launch m q pl ip host_cfg s =
     and_then (pure (create_endpoint_config (docker_of m) ip) s) (\<lambda>endpoint_cfg s.
     and_then (pure (create_networking_config (docker_of m) [(pl_network pl, endpoint_cfg)]) s) (\<lambda>networking_cfg s.
     and_then (on_world (create_container (docker_of m)
         \<lparr>cs_image = pl_image pl, cs_name = pl_name pl, cs_networking = networking_cfg,
          cs_host_config = host_cfg, cs_labels = container_labels q pl\<rparr>) s) (\<lambda>cid s.
     and_then (on_world (start (docker_of m) cid) s) (\<lambda>_ s.
       on_world (containers_get (docker_of m) cid) s))))"

text \<open>The clean-up of a failed attempt: remove the container of that name, if there is one.\<close>

definition discard_container :: "'w machine \<Rightarrow> string \<Rightarrow> ('w daemon, unit) act" where
  "discard_container m name s =
     except
       (and_then (on_world (containers_get (docker_of m) name) s)
          (\<lambda>c s. on_world (container_remove (docker_of m) (ct_id c) True) s))
       is_APIError (\<lambda>_ s. (Inr (), s))"

text \<open>How the loop ends: a running container with its address, an error result, or out of tries.\<close>

datatype launch_end = Running container string | Refused string | Out_of_tries string

definition choose_port_map ::
  "'w machine \<Rightarrow> spawn_request \<Rightarrow> spawn_plan \<Rightarrow> int list \<Rightarrow> db \<Rightarrow> exc + (string \<times> int) list option" where
  "choose_port_map m q pl tried_ports d =
     (if sr_publish q \<and> pl_exposed pl \<noteq> []
      then sum_bind (allocate_public_ports m (length (pl_exposed pl)) tried_ports d)
             (\<lambda>host_ports. Inr (Some (zip (pl_exposed pl) host_ports)))
      else Inr None)"

definition port_values :: "(string \<times> int) list option \<Rightarrow> int list" where
  "port_values pm = (case pm of None \<Rightarrow> [] | Some kvs \<Rightarrow> map snd kvs)"

fun launch_loop ::
  "'w machine \<Rightarrow> spawn_request \<Rightarrow> spawn_plan \<Rightarrow> nat \<Rightarrow> string list \<Rightarrow> int list \<Rightarrow> string
   \<Rightarrow> ('w daemon, launch_end) act" where
  "launch_loop m q pl 0 tried_ips tried_ports last_error s = (Inr (Out_of_tries last_error), s)"
| "launch_loop m q pl (Suc left) tried_ips tried_ports last_error s =
     (case find_next_owner_ip (sr_owner q) (pl_octet pl) (store s) of
        Inl e \<Rightarrow> (Inl e, s)
      | Inr ip \<Rightarrow>
          if ip \<in> set tried_ips then launch_loop m q pl left tried_ips tried_ports last_error s
          else
            (case choose_port_map m q pl tried_ports (store s) of
               Inl e \<Rightarrow> if is_RuntimeError e then (Inr (Refused (exc_str e)), s) else (Inl e, s)
             | Inr port_map \<Rightarrow>
                 (case build_secure_host_config m (sr_profile q) port_map of
                    Inl e \<Rightarrow> (Inl e, s)
                  | Inr host_cfg \<Rightarrow>
                      (case launch m q pl ip host_cfg s of
                         (Inr c, s') \<Rightarrow> (Inr (Running c ip), s')
                       | (Inl e, s') \<Rightarrow>
                           if \<not> is_APIError e then (Inl e, s')
                           else and_then (discard_container m (pl_name pl) s') (\<lambda>_ s'.
                             if is_resource_conflict e
                             then launch_loop m q pl left (tried_ips @ [ip])
                                    (tried_ports @ port_values port_map) (exc_str e) s'
                             else (Inr (Refused (''run failed: '' @ exc_str e)), s'))))))"

text \<open>After the loop: read the container back and record it; a failed record removes it again.\<close>

definition json_ports :: "string list \<Rightarrow> string" where
  "json_ports ps = dumps '', '' '': '' (JList (map JStr ps))"

definition json_published :: "(string \<times> int) list \<Rightarrow> string option" where
  "json_published pm =
     (if pm = [] then None else Some (dumps '', '' '': '' (JObj (map (\<lambda>(c, h). (c, JInt h)) pm))))"

definition store_container ::
  "'w machine \<Rightarrow> spawn_request \<Rightarrow> spawn_plan \<Rightarrow> container \<Rightarrow> string \<Rightarrow> (string \<times> int) list
   \<Rightarrow> ('w daemon, spawn_result) act" where
  "store_container m q pl c assigned published s =
     (case on_db (add_instance (ct_id c) (pl_name pl) (sr_owner q) (sr_challenge q) assigned
                    (json_ports (pl_exposed pl)) (pl_expires pl) ''running'' (json_published published)) s of
        (Inr i, s') \<Rightarrow> (Inr (spawned i), s')
      | (Inl e, s') \<Rightarrow>
          and_then (except (on_world (container_remove (docker_of m) (ct_id c) True) s')
                      is_APIError (\<lambda>_ s. (Inr (), s)))
            (\<lambda>_ s. (Inr (spawn_failed (''db logging failed: '' @ exc_str e)), s)))"

definition record_container ::
  "'w machine \<Rightarrow> spawn_request \<Rightarrow> spawn_plan \<Rightarrow> container \<Rightarrow> string \<Rightarrow> ('w daemon, spawn_result) act" where
  "record_container m q pl c ip s =
     and_then (live_container_ip m c (pl_network pl) s) (\<lambda>(live_ip, c) s.
     and_then (on_world (container_reload (docker_of m) c) s) (\<lambda>c s.
     and_then (pure (if sr_publish q then live_published_ports m c else Inr []) s) (\<lambda>published s.
       store_container m q pl c (case live_ip of None \<Rightarrow> ip | Some t \<Rightarrow> t) published s)))"

definition run_planned :: "'w machine \<Rightarrow> spawn_request \<Rightarrow> spawn_plan \<Rightarrow> ('w daemon, spawn_result) act" where
  "run_planned m q pl s =
     and_then (launch_loop m q pl 8 [] [] [] s) (\<lambda>ending s.
       case ending of
         Refused msg \<Rightarrow> (Inr (spawn_failed msg), s)
       | Out_of_tries last_error \<Rightarrow>
           (Inr (spawn_failed (''could not allocate a free IP: '' @ last_error)), s)
       | Running c ip \<Rightarrow> record_container m q pl c ip s)"

definition plan_for :: "'w machine \<Rightarrow> spawn_request \<Rightarrow> int \<Rightarrow> string list \<Rightarrow> 'w daemon \<Rightarrow> spawn_plan" where
  "plan_for m q k exposed s =
     \<lparr>pl_network = bridge_name k, pl_octet = k,
      pl_image = image_tag_for (sr_challenge q),
      pl_name = container_name_for (sr_challenge q) (sr_owner q),
      pl_expires = map_option (\<lambda>ttl. iso_after m ttl (world s)) (sr_ttl q),
      pl_exposed = exposed\<rparr>"

definition build_and_run :: "'w machine \<Rightarrow> spawn_request \<Rightarrow> int \<Rightarrow> ('w daemon, spawn_result) act" where
  "build_and_run m q k s =
     and_then (get_client m s) (\<lambda>_ s.
     and_then (build_image m (image_tag_for (sr_challenge q)) (sr_path q) s) (\<lambda>(ok, build_error) s.
       if \<not> ok then (Inr (spawn_failed build_error), s)
       else
         and_then (detect_exposed_ports m (image_tag_for (sr_challenge q)) s) (\<lambda>exposed s.
           run_planned m q (plan_for m q k exposed s) s)))"

definition spawn_instance :: "'w machine \<Rightarrow> spawn_request \<Rightarrow> ('w daemon, spawn_result) act" where
  "spawn_instance m q s =
     (case find_instance (sr_owner q) (sr_challenge q) (store s) of
        Some i \<Rightarrow> (Inr (spawned i), s)
      | None \<Rightarrow>
          if \<not> is_file m (sr_path q @ ''/Dockerfile'') (world s)
          then (Inr (spawn_failed (''no Dockerfile in '' @ sr_path q)), s)
          else and_then (ensure_owner_network m (sr_owner q) s) (\<lambda>k s. build_and_run m q k s))"

section \<open>Releasing instances\<close>

definition find_by_id :: "string \<Rightarrow> db \<Rightarrow> inst option" where
  "find_by_id cid d = find (\<lambda>i. container_id i = cid) (get_all_instances d)"

definition stop_and_remove :: "'w machine \<Rightarrow> string \<Rightarrow> ('w daemon, unit) act" where
  "stop_and_remove m cid s =
     and_then (on_world (containers_get (docker_of m) cid) s) (\<lambda>c s.
     and_then (on_world (container_stop (docker_of m) (ct_id c) 10) s) (\<lambda>_ s.
       on_world (container_remove (docker_of m) (ct_id c) True) s))"

definition release_instance :: "'w machine \<Rightarrow> string \<Rightarrow> ('w daemon, bool) act" where
  "release_instance m cid s =
     and_then (get_client m s) (\<lambda>_ s.
       let i = find_by_id cid (store s) in
       and_then
         (except
            (except (and_then (stop_and_remove m cid s) (\<lambda>_ s. (Inr True, s)))
               is_NotFound (\<lambda>_ s. (Inr True, s)))
            is_APIError (\<lambda>_ s. (Inr False, s)))
         (\<lambda>gone s.
            if \<not> gone then (Inr False, s)
            else
              and_then (db_call (remove_instance cid) s) (\<lambda>removed s.
                case i of
                  None \<Rightarrow> (Inr removed, s)
                | Some row \<Rightarrow>
                    and_then (release_owner_network_if_idle m (inst_owner row) s)
                      (\<lambda>_ s. (Inr removed, s)))))"

fun teardown_loop :: "'w machine \<Rightarrow> inst list \<Rightarrow> int \<Rightarrow> ('w daemon, int) act" where
  "teardown_loop m [] count s = (Inr count, s)"
| "teardown_loop m (i # is) count s =
     and_then (release_instance m (container_id i) s)
       (\<lambda>ok s. teardown_loop m is (if ok then count + 1 else count) s)"

definition teardown_all :: "'w machine \<Rightarrow> ('w daemon, int) act" where
  "teardown_all m s = teardown_loop m (get_active_instances (store s)) 0 s"

section \<open>Reconciliation and adoption\<close>

text \<open>One row of \<open>reconcile\<close>: whether it was pruned.\<close>

definition reconcile_row :: "'w machine \<Rightarrow> inst \<Rightarrow> ('w daemon, bool) act" where
  "reconcile_row m i s =
     (case on_world (containers_get (docker_of m) (container_id i)) s of
        (Inr c, s) \<Rightarrow>
          if ct_status c \<noteq> status i
          then and_then (db_call (update_instance_status (container_id i) (ct_status c)) s)
                 (\<lambda>_ s. (Inr False, s))
          else (Inr False, s)
      | (Inl e, s) \<Rightarrow>
          if is_NotFound e
          then and_then (db_call (remove_instance (container_id i)) s) (\<lambda>_ s.
               and_then (release_owner_network_if_idle m (inst_owner i) s) (\<lambda>_ s. (Inr True, s)))
          else if is_APIError e then (Inr False, s)
          else (Inl e, s))"

fun reconcile_loop :: "'w machine \<Rightarrow> inst list \<Rightarrow> int \<Rightarrow> ('w daemon, int) act" where
  "reconcile_loop m [] pruned s = (Inr pruned, s)"
| "reconcile_loop m (i # is) pruned s =
     and_then (reconcile_row m i s) (\<lambda>p s. reconcile_loop m is (if p then pruned + 1 else pruned) s)"

definition reconcile :: "'w machine \<Rightarrow> ('w daemon, int) act" where
  "reconcile m s =
     and_then (get_client m s) (\<lambda>_ s. reconcile_loop m (get_active_instances (store s)) 0 s)"

text \<open>A label that is absent or empty counts as missing.\<close>

definition label :: "container \<Rightarrow> string \<Rightarrow> string option" where
  "label c k =
     (case ct_labels c of
        None \<Rightarrow> None
      | Some kvs \<Rightarrow> (case map_of kvs k of None \<Rightarrow> None | Some v \<Rightarrow> if v = [] then None else Some v))"

definition labelled_ports :: "container \<Rightarrow> string list" where
  "labelled_ports c =
     filter (\<lambda>p. p \<noteq> []) (splitc (CHR '','') (case label c PORTS_LABEL of None \<Rightarrow> [] | Some t \<Rightarrow> t))"

definition adopt_labelled ::
  "'w machine \<Rightarrow> container \<Rightarrow> string \<Rightarrow> string \<Rightarrow> string \<Rightarrow> ('w daemon, bool) act" where
  "adopt_labelled m c owner_type owner_id chal s =
     and_then (pure (int_of_text owner_id) s) (\<lambda>oid s.
       let network_name = (case get_octet (owner_type, oid) (store s) of
                             Some k \<Rightarrow> bridge_name k | None \<Rightarrow> []);
           expires = label c EXPIRES_LABEL; exposed = labelled_ports c in
       and_then (live_container_ip m c network_name s) (\<lambda>(ip, c) s.
       and_then (pure (live_published_ports m c) s) (\<lambda>published s.
         except
           (and_then
             (on_db (add_instance (ct_id c) (ct_name c) (owner_type, oid) chal
                (case ip of None \<Rightarrow> [] | Some t \<Rightarrow> t) (json_ports exposed) expires (ct_status c)
                (json_published published)) s)
             (\<lambda>_ s. (Inr True, s)))
           is_ValueError (\<lambda>_ s. (Inr False, s)))))"

definition adopt_one :: "'w machine \<Rightarrow> string list \<Rightarrow> container \<Rightarrow> ('w daemon, bool) act" where
  "adopt_one m known_ids c s =
     (if ct_id c \<in> set known_ids then (Inr False, s)
      else (case (label c OWNER_TYPE_LABEL, label c OWNER_ID_LABEL, label c CHALLENGE_LABEL) of
              (Some owner_type, Some owner_id, Some chal) \<Rightarrow> adopt_labelled m c owner_type owner_id chal s
            | _ \<Rightarrow> (Inr False, s)))"

fun adopt_loop :: "'w machine \<Rightarrow> string list \<Rightarrow> container list \<Rightarrow> int \<Rightarrow> ('w daemon, int) act" where
  "adopt_loop m known_ids [] adopted s = (Inr adopted, s)"
| "adopt_loop m known_ids (c # cs) adopted s =
     and_then (adopt_one m known_ids c s)
       (\<lambda>a s. adopt_loop m known_ids cs (if a then adopted + 1 else adopted) s)"

definition adopt_untracked :: "'w machine \<Rightarrow> ('w daemon, int) act" where
  "adopt_untracked m s =
     and_then (get_client m s) (\<lambda>_ s.
       let known_ids = map container_id (get_all_instances (store s)) in
       and_then
         (except
            (and_then (on_world (containers_list (docker_of m) True MANAGED_LABEL) s) (\<lambda>cs s. (Inr (Some cs), s)))
            is_APIError (\<lambda>_ s. (Inr None, s)))
         (\<lambda>r s.
            case r of
              None \<Rightarrow> (Inr 0, s)
            | Some cs \<Rightarrow> adopt_loop m known_ids cs 0 s))"

end
