(* ===== verification/Ini_Text.thy ===== *)
theory Ini_Text
  imports Py_Text "HOL-Library.AList"
begin

text \<open>
  Python's \<open>configparser.ConfigParser\<close> with the options that \<open>_parse_interface_section\<close> of
  \<open>wireguard.py\<close> gives it: \<open>strict=False\<close> (a section or an option may occur again),
  \<open>allow_no_value=True\<close>, comment prefixes \<open>#\<close> and \<open>;\<close>, inline comments after \<open>#\<close>, no interpolation,
  option names as written. The parser goes through the lines of the text once.
\<close>

text \<open>Text mode reads \<open>\r\n\<close> and \<open>\r\<close> as line ends.\<close>

fun universal_newlines :: "string \<Rightarrow> string" where
  "universal_newlines [] = []"
| "universal_newlines (c # cs) =
     (if c = CHR 0x0D
      then (case cs of
              [] \<Rightarrow> [CHR 0x0A]
            | d # ds \<Rightarrow> if d = CHR 0x0A then CHR 0x0A # universal_newlines ds
                else CHR 0x0A # universal_newlines cs)
      else c # universal_newlines cs)"

definition text_lines :: "string \<Rightarrow> string list" where
  "text_lines s =
     (let ls = splitc (CHR 0x0A) s in if last ls = [] then butlast ls else ls)"

text \<open>\<open>str.splitlines()\<close>, which knows more line ends than text mode does.\<close>

definition splitlines :: "string \<Rightarrow> string list" where
  "splitlines s =
     text_lines (map (\<lambda>c. if (of_char c :: nat) \<in> {11, 12, 28, 29, 30, 133} then CHR 0x0A else c)
       (universal_newlines s))"

text \<open>A \<open>#\<close> at the start of the line or after a space starts a comment.\<close>

fun cut_inline :: "bool \<Rightarrow> string \<Rightarrow> string" where
  "cut_inline after_space [] = []"
| "cut_inline after_space (c # cs) =
     (if c = CHR ''#'' \<and> after_space then [] else c # cut_inline (is_space c) cs)"

definition comment_line :: "string \<Rightarrow> bool" where
  "comment_line line \<longleftrightarrow>
     (let t = strip line in t \<noteq> [] \<and> (hd t = CHR ''#'' \<or> hd t = CHR '';''))"

text \<open>The value of a line and whether a comment was cut off.\<close>

definition line_value :: "string \<Rightarrow> string \<times> bool" where
  "line_value line =
     (if comment_line line then ([], True)
      else (strip (cut_inline True line), length (cut_inline True line) \<noteq> length line))"

definition indent_of :: "string \<Rightarrow> nat" where
  "indent_of line = length (takeWhile is_space line)"

text \<open>\<open>\[(?P<header>.+)\]\<close>: from the first bracket to the last closing one.\<close>

definition section_header :: "string \<Rightarrow> string option" where
  "section_header v =
     (if v \<noteq> [] \<and> hd v = CHR ''['' then
        (let body = rev (dropWhile (\<lambda>c. c \<noteq> CHR '']'') (rev (tl v)))
         in if length body \<ge> 2 then Some (butlast body) else None)
      else None)"

definition is_delim :: "char \<Rightarrow> bool" where
  "is_delim c \<longleftrightarrow> c = CHR ''='' \<or> c = CHR '':''"

text \<open>The option name before the first delimiter, and the value after it, if there is one.\<close>

definition split_option :: "string \<Rightarrow> string \<times> string option" where
  "split_option v =
     (rstrip (takeWhile (\<lambda>c. \<not> is_delim c) v),
      case dropWhile (\<lambda>c. \<not> is_delim c) v of [] \<Rightarrow> None | _ # r \<Rightarrow> Some (strip r))"

text \<open>
  The state of the parser: the sections read so far (the values of an option are the lines of
  its text), the current section and option, the indentation of the last option, and whether a
  line was malformed. A malformed line is reported at the end of the text.
\<close>

type_synonym options = "(string \<times> string list option) list"

record ini =
  sections :: "(string \<times> options) list"
  cursect :: "string option"
  optname :: "string option"
  indent_level :: nat
  malformed :: bool

definition empty_ini :: ini where
  "empty_ini = \<lparr>sections = [], cursect = None, optname = None, indent_level = 0, malformed = False\<rparr>"

definition section_of :: "string \<Rightarrow> ini \<Rightarrow> options" where
  "section_of name p = (case map_of (sections p) name of None \<Rightarrow> [] | Some opts \<Rightarrow> opts)"

definition put_option :: "string \<Rightarrow> string \<Rightarrow> string list option \<Rightarrow> ini \<Rightarrow> ini" where
  "put_option sec k v p = p\<lparr>sections := AList.update sec (AList.update k v (section_of sec p)) (sections p)\<rparr>"

text \<open>\<open>cursect[optname].append(line)\<close>; there is no list to append to after an option without a value.\<close>

definition append_value :: "string \<Rightarrow> string \<Rightarrow> string \<Rightarrow> ini \<Rightarrow> exc + ini" where
  "append_value sec k line p =
     (case map_of (section_of sec p) k of
        Some (Some ls) \<Rightarrow> Inr (put_option sec k (Some (ls @ [line])) p)
      | _ \<Rightarrow> Inl (AttributeError ''append''))"

definition blank_line :: "bool \<Rightarrow> ini \<Rightarrow> ini" where
  "blank_line commented p =
     (case (cursect p, optname p) of
        (Some sec, Some k) \<Rightarrow>
          (case map_of (section_of sec p) k of
             Some (Some ls) \<Rightarrow> if commented then p else put_option sec k (Some (ls @ [[]])) p
           | _ \<Rightarrow> p)
      | _ \<Rightarrow> p)"

definition option_line :: "string \<Rightarrow> string \<Rightarrow> ini \<Rightarrow> ini" where
  "option_line sec v p =
     (case split_option v of
        (k, optval) \<Rightarrow>
          (put_option sec k (map_option (\<lambda>t. [t]) optval) p)
            \<lparr>optname := Some k, malformed := malformed p \<or> k = []\<rparr>)"

definition ini_line :: "string \<Rightarrow> ini \<Rightarrow> exc + ini" where
  "ini_line line p =
     (case line_value line of
        (v, commented) \<Rightarrow>
          if v = [] then Inr (blank_line commented p)
          else
            (case (cursect p, optname p, indent_level p < indent_of line) of
               (Some sec, Some k, True) \<Rightarrow> append_value sec k v p
             | (cur, _, _) \<Rightarrow>
                 (let p = p\<lparr>indent_level := indent_of line\<rparr> in
                  case section_header v of
                    Some h \<Rightarrow>
                      Inr (p\<lparr>sections := (if map_of (sections p) h = None then sections p @ [(h, [])] else sections p),
                             cursect := Some h, optname := None\<rparr>)
                  | None \<Rightarrow>
                      (case cur of
                         None \<Rightarrow> Inl (ConfigError ''File contains no section headers.'')
                       | Some sec \<Rightarrow> Inr (option_line sec v p)))))"

fun ini_lines :: "string list \<Rightarrow> ini \<Rightarrow> exc + ini" where
  "ini_lines [] p = Inr p"
| "ini_lines (l # ls) p =
     (case ini_line l p of Inl e \<Rightarrow> Inl e | Inr p' \<Rightarrow> ini_lines ls p')"

definition ini_parse :: "string \<Rightarrow> exc + ini" where
  "ini_parse s =
     (case ini_lines (text_lines (universal_newlines s)) empty_ini of
        Inl e \<Rightarrow> Inl e
      | Inr p \<Rightarrow> if malformed p then Inl (ConfigError ''Source contains parsing errors'') else Inr p)"

text \<open>
  \<open>parser[name].items()\<close> as a dictionary: the options of the section over those of \<open>DEFAULT\<close>. The
  lines of a value are joined and its end is stripped; an option without a value is \<open>None\<close>.
\<close>

definition option_text :: "string list option \<Rightarrow> string option" where
  "option_text v = map_option (\<lambda>ls. rstrip (joins [CHR 0x0A] ls)) v"

definition section_items :: "string \<Rightarrow> ini \<Rightarrow> string \<Rightarrow> string option option" where
  "section_items name p k =
     map_option option_text
       (case map_of (section_of name p) k of
          Some v \<Rightarrow> Some v
        | None \<Rightarrow> map_of (section_of ''DEFAULT'' p) k)"

definition has_section :: "string \<Rightarrow> ini \<Rightarrow> bool" where
  "has_section name p \<longleftrightarrow> name = ''DEFAULT'' \<or> map_of (sections p) name \<noteq> None"

end
