(* ===== verification/Wireguard.thy ===== *)
theory Wireguard
  imports Docker_Sdk Ini_Text
begin

text \<open>
  The WireGuard control plane, \<open>daemon/edo_core/wireguard.py\<close>: keys, the server configuration
  file, adding and removing peers, the client configuration, the interface. \<open>h\<close> runs programs,
  \<open>fs\<close> is the file system (any call may raise), the state is that of the daemon's process.
\<close>

section \<open>Files\<close>

record 'w files =
  file_exists :: "string \<Rightarrow> 'w \<Rightarrow> bool"
  read_text :: "string \<Rightarrow> ('w, string) act"
  write_text :: "string \<Rightarrow> string \<Rightarrow> ('w, unit) act"
  append_text :: "string \<Rightarrow> string \<Rightarrow> ('w, unit) act"
  make_dirs :: "string \<Rightarrow> ('w, unit) act"
  change_mode :: "string \<Rightarrow> int \<Rightarrow> ('w, unit) act"
  unlink :: "string \<Rightarrow> ('w, unit) act"

definition WG_INTERFACE :: string where "WG_INTERFACE = ''wg0''"
definition WG_CONFIG_DIR :: string where "WG_CONFIG_DIR = ''/etc/wireguard''"
definition WG_SERVER_CONFIG :: string where
  "WG_SERVER_CONFIG = WG_CONFIG_DIR @ ''/'' @ WG_INTERFACE @ ''.conf''"
definition WG_CLIENTS_DIR :: string where "WG_CLIENTS_DIR = WG_CONFIG_DIR @ ''/edo_clients''"
definition WG_LISTEN_PORT :: int where "WG_LISTEN_PORT = 51820"
definition CLIENT_KEY_PLACEHOLDER :: string where
  "CLIENT_KEY_PLACEHOLDER = ''<PASTE_YOUR_PRIVATE_KEY_HERE>''"

section \<open>Keys\<close>

record key_pair =
  kp_private :: string
  kp_public :: string

record server_config =
  sv_private :: string
  sv_public :: string
  sv_endpoint :: string
  sv_port :: int

record client_config =
  cl_peer :: peer
  cl_text :: string
  cl_path :: string

definition called_as :: "string \<Rightarrow> exc \<Rightarrow> 'w daemon \<Rightarrow> (exc + 'a) \<times> 'w daemon" where
  "called_as what e s = (Inl (RuntimeError (what @ strip (exc_str e))), s)"

definition pubkey_call :: "string \<Rightarrow> call" where
  "pubkey_call priv = \<lparr>argv = [''wg'', ''pubkey''], stdin = priv, environ = []\<rparr>"

definition generate_keypair :: "'w host \<Rightarrow> ('w daemon, key_pair) act" where
  "generate_keypair h s =
     except
       (and_then (on_world (py_run h (cmd [''wg'', ''genkey''])) s) (\<lambda>out s.
        let priv = strip out in
        and_then (on_world (py_run h (pubkey_call priv)) s)
          (\<lambda>out s. (Inr \<lparr>kp_private = priv, kp_public = strip out\<rparr>, s))))
       is_Called (called_as ''wg key generation failed: '')"

definition derive_pubkey :: "'w host \<Rightarrow> string \<Rightarrow> ('w daemon, string) act" where
  "derive_pubkey h priv s =
     except
       (and_then (on_world (py_run h (pubkey_call priv)) s) (\<lambda>out s. (Inr (strip out), s)))
       is_Called (called_as ''wg pubkey failed: '')"

text \<open>
  \<open>base64.b64decode(key, validate=True)\<close>, of which the code uses the length of the result: the
  text is characters of the alphabet and at most two \<open>=\<close>, a multiple of four in all.
\<close>

definition b64_char :: "char \<Rightarrow> bool" where
  "b64_char c \<longleftrightarrow>
     is_digit c \<or> (65 \<le> (of_char c :: nat) \<and> (of_char c :: nat) \<le> 90)
     \<or> (97 \<le> (of_char c :: nat) \<and> (of_char c :: nat) \<le> 122) \<or> c = CHR ''+'' \<or> c = CHR ''/''"

definition b64_decoded_length :: "string \<Rightarrow> nat option" where
  "b64_decoded_length s =
     (let body = takeWhile b64_char s; pad = dropWhile b64_char s in
      if list_all (\<lambda>c. c = CHR ''='') pad \<and> length pad \<le> 2 \<and> length s mod 4 = 0
      then Some (length s div 4 * 3 - length pad) else None)"

definition is_valid_wg_key :: "string \<Rightarrow> bool" where
  "is_valid_wg_key key0 =
     (let key = strip key0 in
      if length key \<noteq> 44 \<or> last key \<noteq> CHR ''='' then False
      else (case b64_decoded_length key of None \<Rightarrow> False | Some n \<Rightarrow> n = 32))"

definition peer_candidate_ips :: "string list" where
  "peer_candidate_ips = ordered_subnet_hosts WG_SUBNET [WG_SERVER_IP]"

section \<open>The server configuration\<close>

fun is_ConfigError :: "exc \<Rightarrow> bool" where
  "is_ConfigError (ConfigError _) = True"
| "is_ConfigError _ = False"

definition server_config_text :: "int \<Rightarrow> string \<Rightarrow> string" where
  "server_config_text port priv =
     ''[Interface]'' @ newline
     @ ''# edo: WireGuard server interface'' @ newline
     @ ''Address = '' @ WG_SERVER_IP @ ''/'' @ str_nat (prefixlen WG_SUBNET) @ newline
     @ ''ListenPort = '' @ str_int port @ newline
     @ ''PrivateKey = '' @ priv @ newline
     @ ''SaveConfig = false'' @ newline"

definition parse_interface_section :: "'w files \<Rightarrow> ('w daemon, string \<Rightarrow> string option) act" where
  "parse_interface_section fs s =
     (if \<not> file_exists fs WG_SERVER_CONFIG (world s)
      then (Inl (RuntimeError (WG_SERVER_CONFIG @ '' does not exist'')), s)
      else
        and_then
          (except
            (and_then (on_world (read_text fs WG_SERVER_CONFIG) s) (\<lambda>t s. (ini_parse t, s)))
            is_ConfigError
            (\<lambda>e s. (Inl (RuntimeError (''failed to parse '' @ WG_SERVER_CONFIG @ '': '' @ exc_str e)), s)))
          (\<lambda>p s.
            if \<not> has_section ''Interface'' p
            then (Inl (RuntimeError (''no [Interface] section in '' @ WG_SERVER_CONFIG)), s)
            else (Inr (\<lambda>k. map_option (\<lambda>v. strip (case v of None \<Rightarrow> [] | Some t \<Rightarrow> t))
                          (section_items ''Interface'' p k)), s)))"

definition load_server_config :: "'w host \<Rightarrow> 'w files \<Rightarrow> string \<Rightarrow> int \<Rightarrow> ('w daemon, server_config) act" where
  "load_server_config h fs endpoint port s =
     and_then (parse_interface_section fs s) (\<lambda>iface s.
       let priv = (case iface ''PrivateKey'' of None \<Rightarrow> [] | Some t \<Rightarrow> t) in
       if priv = []
       then (Inl (RuntimeError (''no PrivateKey in [Interface] of '' @ WG_SERVER_CONFIG)), s)
       else and_then (derive_pubkey h priv s) (\<lambda>pub s.
              (Inr \<lparr>sv_private = priv, sv_public = pub, sv_endpoint = endpoint, sv_port = port\<rparr>, s)))"

definition init_server :: "'w host \<Rightarrow> 'w files \<Rightarrow> string \<Rightarrow> int \<Rightarrow> ('w daemon, server_config) act" where
  "init_server h fs endpoint port s =
     and_then (on_world (make_dirs fs WG_CONFIG_DIR) s) (\<lambda>_ s.
       if file_exists fs WG_SERVER_CONFIG (world s) then load_server_config h fs endpoint port s
       else
         and_then (generate_keypair h s) (\<lambda>kp s.
         and_then (on_world (write_text fs WG_SERVER_CONFIG (server_config_text port (kp_private kp))) s) (\<lambda>_ s.
         and_then (on_world (change_mode fs WG_SERVER_CONFIG 384) s) (\<lambda>_ s.
           (Inr \<lparr>sv_private = kp_private kp, sv_public = kp_public kp, sv_endpoint = endpoint,
                 sv_port = port\<rparr>, s)))))"

definition get_listen_port :: "'w files \<Rightarrow> ('w daemon, int) act" where
  "get_listen_port fs s =
     except
       (and_then (parse_interface_section fs s) (\<lambda>iface s.
          let raw = (case iface ''ListenPort'' of None \<Rightarrow> [] | Some t \<Rightarrow> t) in
          (Inr (if raw = [] then WG_LISTEN_PORT
                else (case int_of_text raw of Inr n \<Rightarrow> n | Inl _ \<Rightarrow> WG_LISTEN_PORT)), s)))
       is_RuntimeError (\<lambda>_ s. (Inr WG_LISTEN_PORT, s))"

section \<open>Live status\<close>

record live_peer =
  lp_public_key :: string
  lp_endpoint :: "string option"
  lp_handshake :: int
  lp_rx :: int
  lp_tx :: int

text \<open>\<open>time.time() - latest_handshake < 180\<close>, at the time \<open>now\<close>, unless there was no handshake.\<close>

definition online :: "int \<Rightarrow> live_peer \<Rightarrow> bool" where
  "online now p \<longleftrightarrow> lp_handshake p \<noteq> 0 \<and> now - lp_handshake p < 180"

definition status_row :: "string \<Rightarrow> live_peer option" where
  "status_row line =
     (let parts = splitc (CHR 0x09) line in
      if length parts < 7 then None
      else (case (int_of_text (parts ! 4), int_of_text (parts ! 5), int_of_text (parts ! 6)) of
              (Inr handshake, Inr rx, Inr tx) \<Rightarrow>
                Some \<lparr>lp_public_key = parts ! 0,
                      lp_endpoint = (if parts ! 2 \<noteq> ''(none)'' then Some (parts ! 2) else None),
                      lp_handshake = handshake, lp_rx = rx, lp_tx = tx\<rparr>
            | _ \<Rightarrow> None))"

text \<open>The dictionary by public key: a later row of the dump replaces an earlier one.\<close>

fun status_rows :: "string list \<Rightarrow> (string \<times> live_peer) list \<Rightarrow> (string \<times> live_peer) list" where
  "status_rows [] out = out"
| "status_rows (l # ls) out =
     status_rows ls (case status_row l of None \<Rightarrow> out | Some p \<Rightarrow> AList.update (lp_public_key p) p out)"

definition get_live_peer_status :: "'w host \<Rightarrow> ('w daemon, (string \<times> live_peer) list) act" where
  "get_live_peer_status h s =
     (case exec h (cmd [''wg'', ''show'', WG_INTERFACE, ''dump'']) (world s) of
        (Exited rc out err, w) \<Rightarrow>
          (Inr (if rc \<noteq> 0 then [] else status_rows (drop 1 (splitlines out)) []),
           s\<lparr>world := w\<rparr>)
      | (Missing, w) \<Rightarrow> (Inr [], s\<lparr>world := w\<rparr>)
      | (OsFail msg, w) \<Rightarrow> (Inl (OSError msg), s\<lparr>world := w\<rparr>))"

section \<open>Peers\<close>

definition peer_block :: "peer \<Rightarrow> string" where
  "peer_block p =
     newline @ ''[Peer]'' @ newline @ ''# '' @ username p @ newline
     @ ''PublicKey = '' @ public_key p @ newline
     @ ''AllowedIPs = '' @ ip_address p @ ''/32'' @ newline"

definition append_peer_to_server_config :: "'w files \<Rightarrow> peer \<Rightarrow> ('w daemon, unit) act" where
  "append_peer_to_server_config fs p s = on_world (append_text fs WG_SERVER_CONFIG (peer_block p)) s"

text \<open>\<open>text.split("[Peer]", 1)[0]\<close>: what comes before the first occurrence.\<close>

fun before_first :: "string \<Rightarrow> string \<Rightarrow> string" where
  "before_first sub [] = []"
| "before_first sub (c # cs) = (if startswith sub (c # cs) then [] else c # before_first sub cs)"

definition rewritten_config :: "string \<Rightarrow> peer list \<Rightarrow> string \<Rightarrow> string" where
  "rewritten_config old ps exclude_username =
     rstrip (before_first ''[Peer]'' old) @ newline
     @ concat (map peer_block (filter (\<lambda>p. username p \<noteq> exclude_username) ps))"

definition rewrite_server_config :: "'w files \<Rightarrow> string \<Rightarrow> ('w daemon, unit) act" where
  "rewrite_server_config fs exclude_username s =
     and_then (on_world (read_text fs WG_SERVER_CONFIG) s) (\<lambda>old s.
       on_world (write_text fs WG_SERVER_CONFIG
         (rewritten_config old (get_all_peers (store s)) exclude_username)) s)"

definition render_client_config :: "peer \<Rightarrow> server_config \<Rightarrow> string" where
  "render_client_config p server =
     (let (priv_line, note) =
        (case private_key p of
           Some k \<Rightarrow>
             if k \<noteq> [] then (''PrivateKey = '' @ k @ newline, [])
             else (''PrivateKey = '' @ CLIENT_KEY_PLACEHOLDER @ newline,
                   ''# NOTE: replace the PrivateKey placeholder below with your own private key.'' @ newline)
         | None \<Rightarrow>
             (''PrivateKey = '' @ CLIENT_KEY_PLACEHOLDER @ newline,
              ''# NOTE: replace the PrivateKey placeholder below with your own private key.'' @ newline))
      in ''[Interface]'' @ newline
         @ ''# edo: client config for '' @ username p @ newline
         @ note @ priv_line
         @ ''Address = '' @ ip_address p @ ''/32'' @ newline
         @ ''DNS = 1.1.1.1'' @ newline @ newline
         @ ''[Peer]'' @ newline
         @ ''PublicKey = '' @ sv_public server @ newline
         @ ''Endpoint = '' @ sv_endpoint server @ newline
         @ ''AllowedIPs = '' @ net_str WG_SUBNET @ '', '' @ net_str DOCKER_POOL @ newline
         @ ''PersistentKeepalive = 25'' @ newline)"

definition live_add_peer :: "'w host \<Rightarrow> peer \<Rightarrow> ('w daemon, unit) act" where
  "live_add_peer h p s =
     except
       (and_then (on_world (py_run h (cmd [''wg'', ''set'', WG_INTERFACE, ''peer'', public_key p,
            ''allowed-ips'', ip_address p @ ''/32''])) s) (\<lambda>_ s. (Inr (), s)))
       is_Called (\<lambda>_ s. (Inr (), s))"

definition client_path :: "string option \<Rightarrow> string \<Rightarrow> string" where
  "client_path clients_dir user =
     (case clients_dir of None \<Rightarrow> WG_CLIENTS_DIR | Some d \<Rightarrow> d) @ ''/'' @ user @ ''.conf''"

text \<open>The body of the \<open>try\<close> of \<open>add_peer\<close>: everything after the row was inserted.\<close>

definition finish_install ::
  "'w host \<Rightarrow> 'w files \<Rightarrow> server_config \<Rightarrow> string option \<Rightarrow> peer \<Rightarrow> ('w daemon, string) act" where
  "finish_install h fs server clients_dir p s =
     and_then (live_add_peer h p s) (\<lambda>_ s.
       let client_text = render_client_config p server;
           out_dir = (case clients_dir of None \<Rightarrow> WG_CLIENTS_DIR | Some d \<Rightarrow> d);
           out_path = client_path clients_dir (username p) in
       and_then (on_world (make_dirs fs out_dir) s) (\<lambda>_ s.
       and_then (except (on_world (change_mode fs out_dir 448) s) is_OSError (\<lambda>_ s. (Inr (), s))) (\<lambda>_ s.
       and_then (on_world (write_text fs out_path client_text) s) (\<lambda>_ s.
       and_then (on_world (change_mode fs out_path 384) s) (\<lambda>_ s. (Inr client_text, s))))))"

definition install_peer ::
  "'w host \<Rightarrow> 'w files \<Rightarrow> server_config \<Rightarrow> string option \<Rightarrow> peer \<Rightarrow> ('w daemon, string) act" where
  "install_peer h fs server clients_dir p s =
     and_then (append_peer_to_server_config fs p s) (\<lambda>_ s. finish_install h fs server clients_dir p s)"

definition choose_keys :: "'w host \<Rightarrow> string option \<Rightarrow> ('w daemon, string \<times> string option) act" where
  "choose_keys h public_key0 s =
     (case public_key0 of
        Some k \<Rightarrow>
          (let pub = strip k in
           if \<not> is_valid_wg_key pub
           then (Inl (ValueError (quote @ pub @ quote @ '' is not a valid WireGuard public key'')), s)
           else (Inr (pub, None), s))
      | None \<Rightarrow> and_then (generate_keypair h s) (\<lambda>kp s. (Inr (kp_public kp, Some (kp_private kp)), s)))"

definition insert_and_install ::
  "'w host \<Rightarrow> 'w files \<Rightarrow> owner \<Rightarrow> string \<Rightarrow> server_config \<Rightarrow> string option \<Rightarrow> string \<Rightarrow> string option
   \<Rightarrow> ('w daemon, client_config) act" where
  "insert_and_install h fs ow user server clients_dir pub priv s =
     and_then (on_db (allocate_peer ow user pub peer_candidate_ips priv) s) (\<lambda>p s.
       except
         (and_then (install_peer h fs server clients_dir p s) (\<lambda>client_text s.
            (Inr \<lparr>cl_peer = p, cl_text = client_text, cl_path = client_path clients_dir user\<rparr>, s)))
         any_exc
         (\<lambda>e s. and_then (db_call (remove_peer_row user) s) (\<lambda>_ s. (Inl e, s))))"

definition add_peer ::
  "'w host \<Rightarrow> 'w files \<Rightarrow> owner \<Rightarrow> string \<Rightarrow> server_config \<Rightarrow> string option \<Rightarrow> string option
   \<Rightarrow> ('w daemon, client_config) act" where
  "add_peer h fs ow user server clients_dir public_key0 s =
     and_then (choose_keys h public_key0 s)
       (\<lambda>keys s. insert_and_install h fs ow user server clients_dir (fst keys) (snd keys) s)"

definition drop_peer :: "'w files \<Rightarrow> string \<Rightarrow> string option \<Rightarrow> ('w daemon, bool) act" where
  "drop_peer fs user clients_dir s =
     and_then (db_call (remove_peer_row user) s) (\<lambda>_ s.
       let client_conf = client_path clients_dir user in
       if file_exists fs client_conf (world s)
       then and_then (on_world (unlink fs client_conf) s) (\<lambda>_ s. (Inr True, s))
       else (Inr True, s))"

definition live_remove_peer :: "'w host \<Rightarrow> peer \<Rightarrow> ('w daemon, unit) act" where
  "live_remove_peer h p s =
     except
       (and_then (on_world (py_run h (cmd [''wg'', ''set'', WG_INTERFACE, ''peer'', public_key p, ''remove''])) s)
         (\<lambda>_ s. (Inr (), s)))
       is_Called (\<lambda>_ s. (Inr (), s))"

definition remove_peer :: "'w host \<Rightarrow> 'w files \<Rightarrow> string \<Rightarrow> string option \<Rightarrow> ('w daemon, bool) act" where
  "remove_peer h fs user clients_dir s =
     (case get_peer user (store s) of
        None \<Rightarrow> (Inr False, s)
      | Some p \<Rightarrow>
          and_then (live_remove_peer h p s) (\<lambda>_ s.
          and_then (rewrite_server_config fs user s) (\<lambda>_ s. drop_peer fs user clients_dir s)))"

section \<open>The interface\<close>

definition bring_up :: "'w host \<Rightarrow> ('w daemon, unit) act" where
  "bring_up h s =
     except
       (and_then (on_world (py_run h (cmd [''wg-quick'', ''up'', WG_INTERFACE])) s) (\<lambda>_ s. (Inr (), s)))
       is_Called
       (\<lambda>e s.
          let stderr = lower (exc_str e) in
          if contains ''already exists'' stderr \<or> contains ''rtnetlink'' stderr then (Inr (), s)
          else (Inl (RuntimeError (''wg-quick up '' @ WG_INTERFACE @ '' failed: '' @ strip (exc_str e))), s))"

definition bring_down :: "'w host \<Rightarrow> ('w daemon, unit) act" where
  "bring_down h s =
     except
       (and_then (on_world (py_run h (cmd [''wg-quick'', ''down'', WG_INTERFACE])) s) (\<lambda>_ s. (Inr (), s)))
       is_Called (\<lambda>_ s. (Inr (), s))"

definition reload_interface :: "'w host \<Rightarrow> ('w daemon, unit) act" where
  "reload_interface h s = and_then (bring_down h s) (\<lambda>_ s. bring_up h s)"

end
