(* ===== verification/Firewall_Apply.thy ===== *)
theory Firewall_Apply
  imports Firewall_Rules Host_Process
begin

text \<open>
  The part of \<open>daemon/edo_core/network.py\<close> that talks to the machine: the iptables
  primitives, the firewalld interop, the hook of the chain and the idempotent rebuild
  \<open>apply_firewall\<close>, with \<open>remove_firewall\<close>. Every function threads the machine state \<open>'w\<close>
  through the programs it runs, in the order of the code. The theorems about the chains that
  result assume of iptables what \<open>iptables_ok\<close> says, and show it for a simulated machine.
\<close>

section \<open>Results\<close>

record rule_result =
  rr_success :: bool
  rr_rule :: rule
  rr_stderr :: string

record apply_result =
  public_interface :: string
  ar_rules :: "rule_result list"

abbreviation mk_rr :: "bool \<Rightarrow> rule \<Rightarrow> string \<Rightarrow> rule_result" where
  "mk_rr ok r err \<equiv> \<lparr>rr_success = ok, rr_rule = r, rr_stderr = err\<rparr>"

definition apply_success :: "apply_result \<Rightarrow> bool" where
  "apply_success r \<longleftrightarrow> list_all rr_success (ar_rules r)"

definition EDO_INPUT_CHAIN :: string where
  "EDO_INPUT_CHAIN = ''EDO_INPUT''"

section \<open>The public interface\<close>

text \<open>The token after the first \<open>dev\<close> of the default route.\<close>

fun token_after_dev :: "string list \<Rightarrow> string option" where
  "token_after_dev [] = None"
| "token_after_dev (t # ts) =
     (if t = ''dev'' then (case ts of [] \<Rightarrow> None | u # _ \<Rightarrow> Some u) else token_after_dev ts)"

definition get_public_interface :: "'w host \<Rightarrow> 'w \<Rightarrow> (exc + string option) \<times> 'w" where
  "get_public_interface h w =
     except
       (and_then (py_run h (cmd [''ip'', ''-4'', ''route'', ''show'', ''default'']) w)
         (\<lambda>out w1. (Inr (token_after_dev (split_ws out)), w1)))
       is_Called (\<lambda>_ w1. (Inr None, w1))"

section \<open>iptables primitives\<close>

definition iptables_check :: "'w host \<Rightarrow> rule \<Rightarrow> 'w \<Rightarrow> bool \<times> 'w" where
  "iptables_check h r w =
     (case raw_run h (cmd ([''iptables'', ''-C''] @ r)) w of
        (Inl _, w') \<Rightarrow> (False, w')
      | (Inr (rc, _, _), w') \<Rightarrow> (rc = 0, w'))"

text \<open>\<open>try: _run(\<dots>); return ok  except CalledProcessError as e: return RuleResult(False, r, stderr)\<close>.\<close>

definition run_recorded :: "'w host \<Rightarrow> string list \<Rightarrow> rule \<Rightarrow> 'w \<Rightarrow> (exc + rule_result) \<times> 'w" where
  "run_recorded h args r w =
     except
       (and_then (py_run h (cmd args) w) (\<lambda>_ w1. (Inr (mk_rr True r []), w1)))
       is_Called (\<lambda>e w1. (Inr (mk_rr False r (strip (exc_str e))), w1))"

definition iptables_append :: "'w host \<Rightarrow> rule \<Rightarrow> 'w \<Rightarrow> (exc + rule_result) \<times> 'w" where
  "iptables_append h r w =
     (case iptables_check h r w of (present, w1) \<Rightarrow>
        if present then (Inr (mk_rr True r []), w1)
        else run_recorded h ([''iptables'', ''-A''] @ r) r w1)"

definition iptables_delete :: "'w host \<Rightarrow> rule \<Rightarrow> 'w \<Rightarrow> (exc + rule_result) \<times> 'w" where
  "iptables_delete h r w =
     (case iptables_check h r w of (present, w1) \<Rightarrow>
        if \<not> present then (Inr (mk_rr True r []), w1)
        else run_recorded h ([''iptables'', ''-D''] @ r) r w1)"

definition chain_exists :: "'w host \<Rightarrow> string \<Rightarrow> 'w \<Rightarrow> bool \<times> 'w" where
  "chain_exists h chain w =
     (case raw_run h (cmd [''iptables'', ''-L'', chain, ''-n'']) w of
        (Inl _, w') \<Rightarrow> (False, w')
      | (Inr (rc, _, _), w') \<Rightarrow> (rc = 0, w'))"

section \<open>firewalld interop and the WireGuard input rule\<close>

definition firewalld_active :: "'w host \<Rightarrow> 'w \<Rightarrow> bool \<times> 'w" where
  "firewalld_active h w =
     (if \<not> which h ''firewall-cmd'' w then (False, w)
      else (case raw_run h (cmd [''firewall-cmd'', ''--state'']) w of
              (Inl _, w') \<Rightarrow> (False, w')
            | (Inr (rc, out, _), w') \<Rightarrow> (rc = 0 \<and> contains ''running'' (lower out), w')))"

text \<open>The firewalld branch of the two functions below; \<open>action\<close> is \<open>--add-port=\<close> or \<open>--remove-port=\<close>.\<close>

definition firewalld_port :: "'w host \<Rightarrow> string \<Rightarrow> int \<Rightarrow> 'w \<Rightarrow> (exc + rule_result) \<times> 'w" where
  "firewalld_port h action port w =
     (let r = [''firewalld'', str_int port @ ''/udp''] in
      except
        (and_then (py_run h (cmd [''firewall-cmd'', action @ str_int port @ ''/udp'', ''--permanent'']) w)
          (\<lambda>_ w1. and_then (py_run h (cmd [''firewall-cmd'', ''--reload'']) w1)
            (\<lambda>_ w2. (Inr (mk_rr True r []), w2))))
        is_Called (\<lambda>e w1. (Inr (mk_rr False r (strip (exc_str e))), w1)))"

definition wg_input_rule :: "int \<Rightarrow> rule" where
  "wg_input_rule port =
     [EDO_INPUT_CHAIN, ''-p'', ''udp'', ''--dport'', str_int port,
      ''-m'', ''comment'', ''--comment'', ''edo: WireGuard handshake'', ''-j'', ''ACCEPT'']"

definition input_hook :: rule where
  "input_hook = [''INPUT'', ''-j'', EDO_INPUT_CHAIN]"

text \<open>
  \<open>try: _run(args)  except CalledProcessError as e: return RuleResult(False, r, stderr)\<close>, followed
  by the rest of the function when the command succeeds.
\<close>

definition run_or_return ::
  "'w host \<Rightarrow> string list \<Rightarrow> rule \<Rightarrow> ('w \<Rightarrow> (exc + rule_result) \<times> 'w) \<Rightarrow> 'w \<Rightarrow> (exc + rule_result) \<times> 'w" where
  "run_or_return h args r rest w =
     (case py_run h (cmd args) w of
        (Inr _, w1) \<Rightarrow> rest w1
      | (Inl e, w1) \<Rightarrow>
          if is_Called e then (Inr (mk_rr False r (strip (exc_str e))), w1) else (Inl e, w1))"

definition apply_wg_input_rule :: "'w host \<Rightarrow> int \<Rightarrow> 'w \<Rightarrow> (exc + rule_result) \<times> 'w" where
  "apply_wg_input_rule h port w =
     (case firewalld_active h w of (fw, w1) \<Rightarrow>
        if fw then firewalld_port h ''--add-port='' port w1
        else and_then (raw_run h (cmd [''iptables'', ''-N'', EDO_INPUT_CHAIN]) w1)
          (\<lambda>_ w2. case iptables_check h input_hook w2 of (hooked, w3) \<Rightarrow>
             let refill = run_or_return h [''iptables'', ''-F'', EDO_INPUT_CHAIN] [''-F'', EDO_INPUT_CHAIN]
                            (iptables_append h (wg_input_rule port))
             in if hooked then refill w3
                else run_or_return h [''iptables'', ''-I'', ''INPUT'', ''1'', ''-j'', EDO_INPUT_CHAIN]
                       input_hook refill w3))"

definition remove_wg_input_rule :: "'w host \<Rightarrow> int \<Rightarrow> 'w \<Rightarrow> (exc + rule_result) \<times> 'w" where
  "remove_wg_input_rule h port w =
     (case firewalld_active h w of (fw, w1) \<Rightarrow>
        if fw then firewalld_port h ''--remove-port='' port w1
        else (case iptables_check h input_hook w1 of (hooked, w2) \<Rightarrow>
          and_then (if hooked then iptables_delete h input_hook w2
                    else (Inr (mk_rr True input_hook []), w2))
            (\<lambda>_ w3. case chain_exists h EDO_INPUT_CHAIN w3 of (there, w4) \<Rightarrow>
               let removed = (\<lambda>w. (Inr (mk_rr True [EDO_INPUT_CHAIN, ''removed''] []), w))
               in if \<not> there then removed w4
                  else run_or_return h [''iptables'', ''-F'', EDO_INPUT_CHAIN] [''-X'', EDO_INPUT_CHAIN]
                    (run_or_return h [''iptables'', ''-X'', EDO_INPUT_CHAIN] [''-X'', EDO_INPUT_CHAIN] removed) w4)))"

section \<open>The hook of the forward chain\<close>

definition FORWARD_HOOK_CANDIDATES :: "string list" where
  "FORWARD_HOOK_CANDIDATES = [''DOCKER-USER'', ''FORWARD'']"

fun first_existing_chain :: "'w host \<Rightarrow> string list \<Rightarrow> 'w \<Rightarrow> string \<times> 'w" where
  "first_existing_chain h [] w = (''FORWARD'', w)"
| "first_existing_chain h (chain # rest) w =
     (case chain_exists h chain w of (there, w1) \<Rightarrow>
        if there then (chain, w1) else first_existing_chain h rest w1)"

definition preferred_forward_hook :: "'w host \<Rightarrow> 'w \<Rightarrow> string \<times> 'w" where
  "preferred_forward_hook h w = first_existing_chain h FORWARD_HOOK_CANDIDATES w"

definition forward_hook :: "string \<Rightarrow> rule" where
  "forward_hook chain = [chain, ''-j'', EDO_CHAIN]"

text \<open>
  \<open>while _iptables_check(hook) and guard < 5\<close>: the first argument is \<open>5 - guard\<close>. The check
  runs once more when the guard has stopped the loop.
\<close>

fun unhook_loop :: "nat \<Rightarrow> 'w host \<Rightarrow> rule \<Rightarrow> 'w \<Rightarrow> (exc + rule_result list) \<times> 'w" where
  "unhook_loop 0 h hook w = (case iptables_check h hook w of (_, w1) \<Rightarrow> (Inr [], w1))"
| "unhook_loop (Suc left) h hook w =
     (case iptables_check h hook w of (present, w1) \<Rightarrow>
        if \<not> present then (Inr [], w1)
        else and_then (iptables_delete h hook w1)
          (\<lambda>r w2. and_then (unhook_loop left h hook w2) (\<lambda>rs w3. (Inr (r # rs), w3))))"

fun unhook_chains :: "'w host \<Rightarrow> string list \<Rightarrow> 'w \<Rightarrow> (exc + rule_result list) \<times> 'w" where
  "unhook_chains h [] w = (Inr [], w)"
| "unhook_chains h (chain # rest) w =
     (case chain_exists h chain w of (there, w1) \<Rightarrow>
        if \<not> there then unhook_chains h rest w1
        else and_then (unhook_loop 5 h (forward_hook chain) w1)
          (\<lambda>rs w2. and_then (unhook_chains h rest w2) (\<lambda>rs' w3. (Inr (rs @ rs'), w3))))"

definition unhook_edo_from_all :: "'w host \<Rightarrow> 'w \<Rightarrow> (exc + rule_result list) \<times> 'w" where
  "unhook_edo_from_all h w = unhook_chains h FORWARD_HOOK_CANDIDATES w"

section \<open>Rebuilding and removing the rule set\<close>

text \<open>\<open>str(rule)\<close> of a list of texts, in the message of the error.\<close>

definition rule_repr :: "rule \<Rightarrow> string" where
  "rule_repr r = ''['' @ joins '', '' (map (\<lambda>a. quote @ a @ quote) r) @ '']''"

text \<open>
  The loop that appends the rules. The first rule that cannot be installed flushes the chain
  and raises.
\<close>

fun install_rules :: "'w host \<Rightarrow> rule list \<Rightarrow> 'w \<Rightarrow> (exc + rule_result list) \<times> 'w" where
  "install_rules h [] w = (Inr [], w)"
| "install_rules h (r # rs) w =
     and_then (iptables_append h r w)
       (\<lambda>res w1.
          if \<not> rr_success res
          then and_then (raw_run h (cmd [''iptables'', ''-F'', EDO_CHAIN]) w1)
                 (\<lambda>_ w2. (Inl (RuntimeError (''failed to install rule '' @ rule_repr r @ '': '' @ rr_stderr res)), w2))
          else and_then (install_rules h rs w1) (\<lambda>others w2. (Inr (res # others), w2)))"

text \<open>\<open>try: _run(args)  except CalledProcessError as e: raise RuntimeError(prefix + stderr)\<close>.\<close>

definition run_or_raise :: "'w host \<Rightarrow> string list \<Rightarrow> string \<Rightarrow> 'w \<Rightarrow> (exc + string) \<times> 'w" where
  "run_or_raise h args prefix w =
     except (py_run h (cmd args) w) is_Called
       (\<lambda>e w1. (Inl (RuntimeError (prefix @ strip (exc_str e))), w1))"

text \<open>The steps of \<open>apply_firewall\<close> from the creation of the chain to the flush.\<close>

definition hook_chain :: "'w host \<Rightarrow> 'w \<Rightarrow> (exc + string) \<times> 'w" where
  "hook_chain h w =
     and_then (raw_run h (cmd [''iptables'', ''-N'', EDO_CHAIN]) w)
       (\<lambda>_ w1. and_then (unhook_edo_from_all h w1)
         (\<lambda>_ w2. case preferred_forward_hook h w2 of (target, w3) \<Rightarrow>
            and_then
              (run_or_raise h [''iptables'', ''-I'', target, ''1'', ''-j'', EDO_CHAIN]
                 (''failed to hook '' @ EDO_CHAIN @ '' into '' @ target @ '': '') w3)
              (\<lambda>_ w4. and_then
                 (run_or_raise h [''iptables'', ''-F'', EDO_CHAIN] (''failed to flush '' @ EDO_CHAIN @ '': '') w4)
                 (\<lambda>_ w5. (Inr target, w5)))))"

definition apply_firewall ::
  "'w host \<Rightarrow> (owner \<Rightarrow> string list option) \<Rightarrow> (owner \<times> int) list \<Rightarrow> int \<Rightarrow> 'w
   \<Rightarrow> (exc + apply_result) \<times> 'w" where
  "apply_firewall h peers_by_owner octets_by_owner wg_port w =
     and_then (get_public_interface h w)
       (\<lambda>iface w1.
          if iface = None \<or> iface = Some []
          then (Inl (RuntimeError ''unable to determine public interface; refusing to apply firewall''), w1)
          else and_then (run_or_raise h [''sysctl'', ''-w'', ''net.ipv4.ip_forward=1'']
                           ''failed to enable net.ipv4.ip_forward: '' w1)
            (\<lambda>_ w2. and_then (hook_chain h w2)
              (\<lambda>_ w3. and_then (build_chain_rules (the iface) peers_by_owner octets_by_owner, w3)
                (\<lambda>rules w4. and_then (install_rules h rules w4)
                  (\<lambda>results w5. and_then (apply_wg_input_rule h wg_port w5)
                    (\<lambda>input_result w6.
                       (Inr \<lparr>public_interface = the iface, ar_rules = results @ [input_result]\<rparr>, w6)))))))"

definition remove_firewall :: "'w host \<Rightarrow> int \<Rightarrow> 'w \<Rightarrow> (exc + rule_result list) \<times> 'w" where
  "remove_firewall h wg_port w =
     and_then (unhook_edo_from_all h w)
       (\<lambda>results w1. case chain_exists h EDO_CHAIN w1 of (there, w2) \<Rightarrow>
          and_then
            (if \<not> there then (Inr results, w2)
             else and_then (run_recorded h [''iptables'', ''-F'', EDO_CHAIN] [''-F'', EDO_CHAIN] w2)
               (\<lambda>r1 w3. and_then (run_recorded h [''iptables'', ''-X'', EDO_CHAIN] [''-X'', EDO_CHAIN] w3)
                 (\<lambda>r2 w4. (Inr (results @ [r1, r2]), w4))))
            (\<lambda>results w5. and_then (remove_wg_input_rule h wg_port w5)
               (\<lambda>r w6. (Inr (results @ [r]), w6))))"

end
