(* ===== verification/Wire_Format.thy ===== *)
theory Wire_Format
  imports Json_Text
begin

text \<open>
  The framing of the daemon's socket, written twice in the repository: \<open>_recv_exact\<close> and
  \<open>_send_framed\<close> of \<open>daemon/edo_daemon.py\<close>, \<open>_recv_exact\<close>, \<open>_recv_framed\<close> and the packing in
  \<open>_call\<close> of \<open>daemon_client.py\<close>. Bytes are characters. What arrives on a socket is a list of
  events: a chunk of bytes, of which \<open>recv(n)\<close> takes at most \<open>n\<close>, or a failure; the end of the
  list is the end of the stream.
\<close>

datatype event = Chunk string | Failure exc

text \<open>
  \<open>_recv_exact\<close>: \<open>short\<close> is the exception for a stream that ends early, \<open>buf\<close> what was received.
\<close>

fun recv_exact :: "exc \<Rightarrow> nat \<Rightarrow> string \<Rightarrow> event list \<Rightarrow> (exc + string) \<times> event list" where
  "recv_exact short n buf [] =
     (if n \<le> length buf then (Inr buf, []) else (Inl short, []))"
| "recv_exact short n buf (Failure e # evs) =
     (if n \<le> length buf then (Inr buf, Failure e # evs) else (Inl e, evs))"
| "recv_exact short n buf (Chunk c # evs) =
     (if n \<le> length buf then (Inr buf, Chunk c # evs)
      else if c = [] then (Inl short, evs)
      else
        (let need = n - length buf in
         if length c \<le> need then recv_exact short n (buf @ c) evs
         else (Inr (buf @ take need c), Chunk (drop need c) # evs)))"

text \<open>\<open>struct.pack(">I", n)\<close> and \<open>struct.unpack(">I", bytes)\<close>\<close>

definition pack_be32 :: "nat \<Rightarrow> exc + string" where
  "pack_be32 n =
     (if n < 4294967296
      then Inr [char_of (n div 16777216), char_of (n div 65536 mod 256), char_of (n div 256 mod 256), char_of (n mod 256)]
      else Inl (StructError ''argument out of range''))"

definition unpack_be32 :: "string \<Rightarrow> exc + nat" where
  "unpack_be32 s =
     (case s of
        [a, b, c, d] \<Rightarrow>
          Inr (of_char a * 16777216 + of_char b * 65536 + of_char c * 256 + of_char d)
      | _ \<Rightarrow> Inl (StructError ''unpack requires a buffer of 4 bytes''))"

definition frame :: "string \<Rightarrow> exc + string" where
  "frame payload =
     (case pack_be32 (length payload) of Inl e \<Rightarrow> Inl e | Inr header \<Rightarrow> Inr (header @ payload))"

text \<open>
  Reading a frame: the header, the check of the length, the payload. The daemon and the client
  differ in the limit, in the exceptions, and in what they do with a payload that is too long.
\<close>

datatype received = Payload string | Too_large nat

definition recv_frame :: "exc \<Rightarrow> nat \<Rightarrow> event list \<Rightarrow> (exc + received) \<times> event list" where
  "recv_frame short limit evs =
     and_then (recv_exact short 4 [] evs) (\<lambda>header evs.
     and_then (unpack_be32 header, evs) (\<lambda>len evs.
       if limit < len then (Inr (Too_large len), evs)
       else and_then (recv_exact short len [] evs) (\<lambda>p evs. (Inr (Payload p), evs))))"

text \<open>
  \<open>json.loads\<close> of bytes. Text is ASCII, or a two-byte sequence below code point 256; what the
  model's texts cannot hold counts as undecodable. (\<open>json.loads\<close> also accepts UTF-16, UTF-32 and
  a byte order mark, which neither end sends.)
\<close>

fun utf8_decode :: "string \<Rightarrow> string option" where
  "utf8_decode [] = Some []"
| "utf8_decode (c # cs) =
     (if (of_char c :: nat) < 128 then map_option ((#) c) (utf8_decode cs)
      else if (of_char c :: nat) = 194 \<or> (of_char c :: nat) = 195 then
        (case cs of
           [] \<Rightarrow> None
         | d # ds \<Rightarrow>
             if 128 \<le> (of_char d :: nat) \<and> (of_char d :: nat) < 192
             then map_option ((#) (char_of ((of_char c - 192) * 64 + (of_char d - 128) :: nat))) (utf8_decode ds)
             else None)
      else None)"

datatype loaded = Not_text | Not_json exc | Json json

definition loads_bytes :: "string \<Rightarrow> loaded" where
  "loads_bytes p =
     (case utf8_decode p of
        None \<Rightarrow> Not_text
      | Some t \<Rightarrow> (case loads t of Inl e \<Rightarrow> Not_json e | Inr j \<Rightarrow> Json j))"

section \<open>Chunks do not matter\<close>

definition bytes_of :: "event list \<Rightarrow> string" where
  "bytes_of evs = concat (map (\<lambda>e. case e of Chunk c \<Rightarrow> c | Failure _ \<Rightarrow> []) evs)"

definition stream :: "event list \<Rightarrow> bool" where
  "stream evs \<longleftrightarrow> (\<forall>e \<in> set evs. \<exists>c. e = Chunk c \<and> c \<noteq> [])"

lemma recv_exact_stream:
  "stream evs \<Longrightarrow> length buf \<le> n \<Longrightarrow>
   (if n \<le> length buf + length (bytes_of evs)
    then \<exists>evs'. recv_exact short n buf evs = (Inr (buf @ take (n - length buf) (bytes_of evs)), evs') \<and>
           stream evs' \<and> bytes_of evs' = drop (n - length buf) (bytes_of evs)
    else recv_exact short n buf evs = (Inl short, []))"
proof (induction evs arbitrary: buf)
  case (Cons e evs)
  obtain c where e: "e = Chunk c" "c \<noteq> []" using Cons.prems(1) by (auto simp: stream_def)
  have st: "stream evs" using Cons.prems(1) by (simp add: stream_def)
  have bytes: "bytes_of (e # evs) = c @ bytes_of evs" by (simp add: bytes_of_def e)
  consider "n \<le> length buf" | "length buf < n" "length c \<le> n - length buf" | "length buf < n" "n - length buf < length c"
    by linarith
  then show ?case
  proof cases
    case 1
    then show ?thesis using Cons.prems by (simp add: e)
  next
    case 2
    then have le: "length (buf @ c) \<le> n" by simp
    have "recv_exact short n buf (e # evs) = recv_exact short n (buf @ c) evs"
      using 2 e by (simp add: Let_def)
    moreover have "n - length (buf @ c) = n - length buf - length c" by simp
    ultimately show ?thesis
      using Cons.IH[OF st le] 2(2) unfolding bytes by (auto simp: take_append drop_append split: if_splits)
  next
    case 3
    then have "recv_exact short n buf (e # evs) = (Inr (buf @ take (n - length buf) c), Chunk (drop (n - length buf) c) # evs)"
      using e by (simp add: Let_def)
    moreover have "stream (Chunk (drop (n - length buf) c) # evs)" using st 3 by (simp add: stream_def)
    ultimately show ?thesis using 3 unfolding bytes by (auto simp: bytes_of_def)
  qed
qed (auto simp: bytes_of_def)

lemma recv_exact_enough:
  assumes "stream evs" "n \<le> length (bytes_of evs)"
  shows "\<exists>evs'. recv_exact short n [] evs = (Inr (take n (bytes_of evs)), evs') \<and>
     stream evs' \<and> bytes_of evs' = drop n (bytes_of evs)"
  using recv_exact_stream[OF assms(1), of "[]" n short] assms(2) by simp

lemma recv_exact_short:
  assumes "stream evs" "length (bytes_of evs) < n"
  shows "recv_exact short n [] evs = (Inl short, [])"
  using recv_exact_stream[OF assms(1), of "[]" n short] assms(2) by simp

lemma unpack_pack: "pack_be32 n = Inr h \<Longrightarrow> length h = 4 \<and> unpack_be32 h = Inr n"
proof -
  assume "pack_be32 n = Inr h"
  then have n: "n < 4294967296"
    and h: "h = [char_of (n div 16777216), char_of (n div 65536 mod 256), char_of (n div 256 mod 256), char_of (n mod 256)]"
    by (auto simp: pack_be32_def split: if_splits)
  have parts: "(n div 16777216) mod 256 = n div 16777216" using n by simp
  define q where "q = n div 256"
  define q' where "q' = q div 256"
  have div: "n div 65536 = q'" "n div 16777216 = q' div 256" "n div 256 = q"
    by (simp_all add: q_def q'_def div_mult2_eq[symmetric])
  have "q' div 256 * 256 + q' mod 256 = q'" "q' * 256 + q mod 256 = q" "q * 256 + n mod 256 = n"
    by (simp_all add: q_def q'_def)
  then have "q' div 256 * 16777216 + q' mod 256 * 65536 + q mod 256 * 256 + n mod 256 = n" by linarith
  then have "n div 16777216 * 16777216 + n div 65536 mod 256 * 65536 + n div 256 mod 256 * 256 + n mod 256 = n"
    unfolding div .
  then show ?thesis using parts by (simp add: h unpack_be32_def)
qed

text \<open>Contract of a sender and a receiver of frames: any chunking of a sent payload is received.\<close>

locale framing =
  fixes send :: "string \<Rightarrow> exc + string"
    and receive :: "event list \<Rightarrow> (exc + received) \<times> event list"
    and limit :: nat
  assumes frame_received: "send p = Inr bytes \<Longrightarrow> length p \<le> limit \<Longrightarrow> stream evs \<Longrightarrow> bytes_of evs = bytes @ rest \<Longrightarrow>
      \<exists>evs'. receive evs = (Inr (Payload p), evs') \<and> stream evs' \<and> bytes_of evs' = rest"
    and frame_refused: "send p = Inr bytes \<Longrightarrow> limit < length p \<Longrightarrow> stream evs \<Longrightarrow> bytes_of evs = bytes @ rest \<Longrightarrow>
      \<exists>evs'. receive evs = (Inr (Too_large (length p)), evs') \<and> bytes_of evs' = p @ rest"
begin

text \<open>Several frames on one connection are received in order.\<close>

lemma two_frames:
  assumes "send p = Inr b" "send q = Inr c" "length p \<le> limit" "length q \<le> limit" "stream evs"
    and "bytes_of evs = b @ c"
  shows "\<exists>evs' evs''. receive evs = (Inr (Payload p), evs') \<and> receive evs' = (Inr (Payload q), evs'') \<and>
     bytes_of evs'' = []"
proof -
  obtain evs' where one: "receive evs = (Inr (Payload p), evs')" "stream evs'" "bytes_of evs' = c"
    using frame_received[OF assms(1,3,5,6)] by blast
  then have "bytes_of evs' = c @ []" by simp
  then show ?thesis using frame_received[OF assms(2,4) one(2)] one(1) by fastforce
qed

end

lemma recv_frame_received:
  assumes "frame p = Inr bytes" "length p \<le> limit" "stream evs" "bytes_of evs = bytes @ rest"
  shows "\<exists>evs'. recv_frame short limit evs = (Inr (Payload p), evs') \<and> stream evs' \<and> bytes_of evs' = rest"
proof -
  obtain h where h: "pack_be32 (length p) = Inr h" "bytes = h @ p"
    using assms(1) by (auto simp: frame_def split: sum.splits)
  note len = unpack_pack[OF h(1)]
  obtain e1 where e1: "recv_exact short 4 [] evs = (Inr (take 4 (bytes_of evs)), e1)" "stream e1"
      "bytes_of e1 = drop 4 (bytes_of evs)"
    using recv_exact_enough[OF assms(3), of 4 short] len by (auto simp: assms(4) h(2))
  then have "bytes_of e1 = p @ rest" using len by (simp add: assms(4) h(2))
  then obtain e2 where "recv_exact short (length p) [] e1 = (Inr p, e2)" "stream e2" "bytes_of e2 = rest"
    using recv_exact_enough[OF e1(2), of "length p" short] by auto
  then show ?thesis
    using e1(1) len assms(2) by (simp add: recv_frame_def assms(4) h(2))
qed

lemma recv_frame_refused:
  assumes "frame p = Inr bytes" "limit < length p" "stream evs" "bytes_of evs = bytes @ rest"
  shows "\<exists>evs'. recv_frame short limit evs = (Inr (Too_large (length p)), evs') \<and> bytes_of evs' = p @ rest"
proof -
  obtain h where h: "pack_be32 (length p) = Inr h" "bytes = h @ p"
    using assms(1) by (auto simp: frame_def split: sum.splits)
  note len = unpack_pack[OF h(1)]
  obtain e1 where e1: "recv_exact short 4 [] evs = (Inr (take 4 (bytes_of evs)), e1)"
      "bytes_of e1 = drop 4 (bytes_of evs)"
    using recv_exact_enough[OF assms(3), of 4 short] len by (auto simp: assms(4) h(2))
  then show ?thesis using len assms(2) by (simp add: recv_frame_def assms(4) h(2))
qed

text \<open>Both ends: the daemon's and the client's receiver differ in the exception and the limit.\<close>

interpretation wire: framing frame "recv_frame short limit" limit for short limit
  by unfold_locales (fact recv_frame_received, fact recv_frame_refused)

end
