(* ===== verification/Daemon_Rpc.thy ===== *)
theory Daemon_Rpc
  imports Containers Wireguard Firewall_Apply Wire_Format
begin

text \<open>
  The RPC server, \<open>daemon/edo_daemon.py\<close>: the check of the peer's uid, the command handlers and
  their table, one connection from the first byte to the reply, and what \<open>main\<close> does before it
  accepts connections. A handler takes the JSON of \<open>params\<close> and acts on the state of the process.
\<close>

record 'w service =
  machine_of :: "'w machine"
  files_of :: "'w files"
  allowed_uid :: "string option"
  vpn_endpoint :: string
  vpn_port :: int

section \<open>Authorization\<close>

definition authorized :: "'w service \<Rightarrow> int \<Rightarrow> exc + bool" where
  "authorized v uid =
     (if uid = 0 then Inr True
      else (case allowed_uid v of
              None \<Rightarrow> Inr False
            | Some t \<Rightarrow> sum_bind (int_of_text t) (\<lambda>n. Inr (uid = n))))"

section \<open>Reading parameters\<close>

text \<open>
  \<open>params[key]\<close> and \<open>params.get(key, default)\<close> of any JSON value, \<open>str(x)\<close> of a JSON value that is
  not a container, and the values that must be texts.
\<close>

definition param :: "json \<Rightarrow> string \<Rightarrow> exc + json" where
  "param j k =
     (case j of
        JObj kvs \<Rightarrow> (case map_of kvs k of None \<Rightarrow> Inl (KeyError k) | Some v \<Rightarrow> Inr v)
      | JList _ \<Rightarrow> Inl (TypeError ''list indices must be integers or slices, not str'')
      | _ \<Rightarrow> Inl (TypeError ''object is not subscriptable''))"

definition py_str :: "json \<Rightarrow> exc + string" where
  "py_str j =
     (case j of
        JStr s \<Rightarrow> Inr s
      | JInt i \<Rightarrow> Inr (str_int i)
      | JFloat t \<Rightarrow> Inr t
      | JBool b \<Rightarrow> Inr (if b then ''True'' else ''False'')
      | JNull \<Rightarrow> Inr ''None''
      | _ \<Rightarrow> Inl (TypeError ''container''))"

definition text_param :: "json \<Rightarrow> exc + string" where
  "text_param j = (case j of JStr s \<Rightarrow> Inr s | _ \<Rightarrow> Inl (TypeError ''expected str''))"

definition int_param :: "'w service \<Rightarrow> json \<Rightarrow> string \<Rightarrow> exc + int" where
  "int_param v params k = sum_bind (param params k) (json_int (float_int (machine_of v)))"

definition owner_param :: "'w service \<Rightarrow> json \<Rightarrow> exc + owner" where
  "owner_param v params =
     sum_bind (sum_bind (param params ''owner_type'') text_param) (\<lambda>ty.
     sum_bind (int_param v params ''owner_id'') (\<lambda>oid. Inr (ty, oid)))"

definition user_name :: "int \<Rightarrow> string" where
  "user_name user_id = ''user_'' @ str_int user_id"

section \<open>The firewall\<close>

definition rebuild_firewall :: "'w service \<Rightarrow> ('w daemon, unit) act" where
  "rebuild_firewall v s =
     and_then
       (on_world (apply_firewall (host_of (machine_of v)) (peers_grouped_by_owner (store s))
          (octets_by_owner (store s)) (vpn_port v)) s)
       (\<lambda>_ s. (Inr (), s))"

section \<open>Handlers\<close>

definition handle_ping :: "json \<Rightarrow> ('w daemon, json) act" where
  "handle_ping params s = (Inr (JObj [(''pong'', JBool True)]), s)"

definition opt_text :: "string option \<Rightarrow> json" where
  "opt_text t = (case t of None \<Rightarrow> JNull | Some s \<Rightarrow> JStr s)"

definition peer_reply :: "peer \<Rightarrow> server_config \<Rightarrow> json" where
  "peer_reply p server =
     JObj [(''username'', JStr (username p)), (''public_key'', JStr (public_key p)),
           (''private_key'', opt_text (private_key p)), (''assigned_ip'', JStr (ip_address p)),
           (''server_public_key'', JStr (sv_public server)), (''endpoint'', JStr (sv_endpoint server)),
           (''listen_port'', JInt (sv_port server))]"

definition ensure_peer :: "'w service \<Rightarrow> owner \<Rightarrow> string \<Rightarrow> ('w daemon, json) act" where
  "ensure_peer v ow user s =
     (let h = host_of (machine_of v); fs = files_of v in
      case get_peer user (store s) of
        None \<Rightarrow>
          and_then (load_server_config h fs (vpn_endpoint v) (vpn_port v) s) (\<lambda>server s.
          and_then (add_peer h fs ow user server None None s) (\<lambda>cc s.
          and_then (rebuild_firewall v s) (\<lambda>_ s. (Inr (peer_reply (cl_peer cc) server), s))))
      | Some p \<Rightarrow>
          and_then (load_server_config h fs (vpn_endpoint v) (vpn_port v) s)
            (\<lambda>server s. (Inr (peer_reply p server), s)))"

definition handle_wg_ensure_peer :: "'w service \<Rightarrow> json \<Rightarrow> ('w daemon, json) act" where
  "handle_wg_ensure_peer v params s =
     and_then (pure (int_param v params ''user_id'') s) (\<lambda>user_id s.
     and_then (pure (owner_param v params) s) (\<lambda>ow s. ensure_peer v ow (user_name user_id) s))"

definition handle_wg_remove_peer :: "'w service \<Rightarrow> json \<Rightarrow> ('w daemon, json) act" where
  "handle_wg_remove_peer v params s =
     and_then (pure (int_param v params ''user_id'') s) (\<lambda>user_id s.
     and_then (remove_peer (host_of (machine_of v)) (files_of v) (user_name user_id) None s) (\<lambda>removed s.
     and_then (if removed then rebuild_firewall v s else (Inr (), s)) (\<lambda>_ s.
       (Inr (JObj [(''removed'', JBool removed)]), s))))"

definition handle_wg_render_config :: "'w service \<Rightarrow> json \<Rightarrow> ('w daemon, json) act" where
  "handle_wg_render_config v params s =
     and_then (pure (int_param v params ''user_id'') s) (\<lambda>user_id s.
       case get_peer (user_name user_id) (store s) of
         None \<Rightarrow> (Inl (KeyError (''no peer for user '' @ str_int user_id)), s)
       | Some p \<Rightarrow>
           and_then (load_server_config (host_of (machine_of v)) (files_of v) (vpn_endpoint v) (vpn_port v) s)
             (\<lambda>server s. (Inr (JStr (render_client_config p server)), s)))"

text \<open>The profile from \<open>params["security"]\<close>; values of another type than the form's are refused.\<close>

definition text_list :: "json \<Rightarrow> exc + string list" where
  "text_list j =
     (case j of
        JList vs \<Rightarrow>
          foldr (\<lambda>x r. sum_bind (text_param x) (\<lambda>t. sum_bind r (\<lambda>ts. Inr (t # ts)))) vs (Inr [])
      | JNull \<Rightarrow> Inr []
      | _ \<Rightarrow> Inl (TypeError ''expected list''))"

definition opt_param :: "(json \<Rightarrow> exc + 'a) \<Rightarrow> json \<Rightarrow> exc + 'a option" where
  "opt_param f j = (case j of JNull \<Rightarrow> Inr None | _ \<Rightarrow> sum_bind (f j) (\<lambda>x. Inr (Some x)))"

definition number_param :: "json \<Rightarrow> exc + number" where
  "number_param j =
     (case j of JInt i \<Rightarrow> Inr (Int_num i) | JFloat t \<Rightarrow> Inr (Float_num t) | _ \<Rightarrow> Inl (TypeError ''expected number''))"

definition exact_int :: "json \<Rightarrow> exc + int" where
  "exact_int j = (case j of JInt i \<Rightarrow> Inr i | _ \<Rightarrow> Inl (TypeError ''expected int''))"

definition profile_of :: "json \<Rightarrow> exc + security_profile" where
  "profile_of sec =
     sum_bind (obj_get sec ''no_new_privileges'' (JBool True)) (\<lambda>nnp.
     sum_bind (sum_bind (obj_get sec ''cap_drop'' (JList [JStr ''NET_RAW''])) text_list) (\<lambda>cd.
     sum_bind (sum_bind (obj_get sec ''cap_add'' (JList [])) text_list) (\<lambda>ca.
     sum_bind (obj_get sec ''read_only_rootfs'' (JBool False)) (\<lambda>ro.
     sum_bind (sum_bind (obj_get sec ''memory'' JNull) (opt_param text_param)) (\<lambda>mem.
     sum_bind (sum_bind (obj_get sec ''cpus'' JNull) (opt_param number_param)) (\<lambda>cpu.
     sum_bind (sum_bind (obj_get sec ''pids_limit'' JNull) (opt_param exact_int)) (\<lambda>pids.
     sum_bind (sum_bind (obj_get sec ''restart_policy'' (JStr ''unless-stopped'')) text_param) (\<lambda>rp.
       Inr \<lparr>no_new_privileges = truthy nnp, cap_drop = cd, cap_add = ca, read_only_rootfs = truthy ro,
            memory = mem, cpus = cpu, pids_limit = pids, restart_policy = rp\<rparr>))))))))"

definition request_of :: "'w service \<Rightarrow> json \<Rightarrow> exc + spawn_request" where
  "request_of v params =
     sum_bind (obj_get params ''security'' JNull) (\<lambda>sec.
     sum_bind (profile_of (or_empty sec)) (\<lambda>profile.
     sum_bind (owner_param v params) (\<lambda>ow.
     sum_bind (sum_bind (param params ''challenge_ref'') py_str) (\<lambda>chal.
     sum_bind (sum_bind (param params ''build_path'') text_param) (\<lambda>path.
     sum_bind (sum_bind (obj_get params ''ttl_seconds'' JNull) (opt_param exact_int)) (\<lambda>ttl.
     sum_bind (obj_get params ''publish_ports'' (JBool False)) (\<lambda>pub.
       Inr \<lparr>sr_owner = ow, sr_challenge = chal, sr_path = path, sr_profile = profile, sr_ttl = ttl,
            sr_publish = truthy pub\<rparr>)))))))"

text \<open>\<open>json.loads(col) if col else default\<close>\<close>

definition column :: "string option \<Rightarrow> json \<Rightarrow> exc + json" where
  "column col dflt = (case col of None \<Rightarrow> Inr dflt | Some t \<Rightarrow> if t = [] then Inr dflt else loads t)"

definition spawn_reply :: "inst \<Rightarrow> exc + json" where
  "spawn_reply i =
     sum_bind (column (Some (ports i)) (JList [])) (\<lambda>ps.
     sum_bind (column (published_ports i) (JObj [])) (\<lambda>pub.
       Inr (JObj [(''container_id'', JStr (container_id i)), (''container_name'', JStr (container_name i)),
                  (''assigned_ip'', JStr (assigned_ip i)), (''ports'', ps), (''published_ports'', pub),
                  (''expires_at'', opt_text (expires_at i)), (''status'', JStr (status i))])))"

definition handle_container_ensure_instance :: "'w service \<Rightarrow> json \<Rightarrow> ('w daemon, json) act" where
  "handle_container_ensure_instance v params s =
     and_then (pure (request_of v params) s) (\<lambda>q s.
     and_then (spawn_instance (machine_of v) q s) (\<lambda>res s.
       if \<not> success res
       then (Inl (RuntimeError (case error res of None \<Rightarrow> ''spawn failed''
                   | Some t \<Rightarrow> if t = [] then ''spawn failed'' else t)), s)
       else and_then (rebuild_firewall v s) (\<lambda>_ s.
              case instance_of res of
                None \<Rightarrow> (Inl (AttributeError ''container_id''), s)
              | Some i \<Rightarrow> (spawn_reply i, s))))"

definition handle_container_release_instance :: "'w service \<Rightarrow> json \<Rightarrow> ('w daemon, json) act" where
  "handle_container_release_instance v params s =
     and_then (pure (sum_bind (param params ''container_id'') text_param) s) (\<lambda>cid s.
     and_then (release_instance (machine_of v) cid s) (\<lambda>removed s.
     and_then (rebuild_firewall v s) (\<lambda>_ s. (Inr (JObj [(''removed'', JBool removed)]), s))))"

definition instance_json :: "inst \<Rightarrow> exc + json" where
  "instance_json i =
     sum_bind (column (Some (ports i)) (JList [])) (\<lambda>ps.
     sum_bind (column (published_ports i) (JObj [])) (\<lambda>pub.
       Inr (JObj [(''container_id'', JStr (container_id i)), (''container_name'', JStr (container_name i)),
                  (''owner_type'', JStr (fst (inst_owner i))), (''owner_id'', JInt (snd (inst_owner i))),
                  (''challenge_ref'', JStr (challenge_ref i)), (''assigned_ip'', JStr (assigned_ip i)),
                  (''ports'', ps), (''published_ports'', pub),
                  (''status'', JStr (status i)), (''expires_at'', opt_text (expires_at i))])))"

fun instances_json :: "inst list \<Rightarrow> exc + json list" where
  "instances_json [] = Inr []"
| "instances_json (i # is) =
     sum_bind (instance_json i) (\<lambda>j. sum_bind (instances_json is) (\<lambda>js. Inr (j # js)))"

definition handle_container_reconcile :: "'w service \<Rightarrow> json \<Rightarrow> ('w daemon, json) act" where
  "handle_container_reconcile v params s =
     and_then (reconcile (machine_of v) s) (\<lambda>pruned s.
     and_then (pure (instances_json (get_all_instances (store s))) s) (\<lambda>js s.
       (Inr (JObj [(''pruned'', JInt pruned), (''instances'', JList js)]), s)))"

definition handle_container_inspect :: "'w service \<Rightarrow> json \<Rightarrow> ('w daemon, json) act" where
  "handle_container_inspect v params s =
     and_then (pure (sum_bind (param params ''container_id'') text_param) s) (\<lambda>cid s.
       case find_by_id cid (store s) of
         None \<Rightarrow> (Inl (KeyError (''unknown container '' @ cid)), s)
       | Some i \<Rightarrow> (instance_json i, s))"

definition handle_kill_switch :: "'w service \<Rightarrow> json \<Rightarrow> ('w daemon, json) act" where
  "handle_kill_switch v params s =
     and_then (teardown_all (machine_of v) s) (\<lambda>count s.
     and_then (rebuild_firewall v s) (\<lambda>_ s. (Inr (JObj [(''containers_removed'', JInt count)]), s)))"

definition METHODS :: "'w service \<Rightarrow> (string \<times> (json \<Rightarrow> ('w daemon, json) act)) list" where
  "METHODS v =
     [(''ping'', handle_ping),
      (''wg.ensure_peer'', handle_wg_ensure_peer v),
      (''wg.remove_peer'', handle_wg_remove_peer v),
      (''wg.render_config'', handle_wg_render_config v),
      (''container.ensure_instance'', handle_container_ensure_instance v),
      (''container.release_instance'', handle_container_release_instance v),
      (''container.reconcile'', handle_container_reconcile v),
      (''container.inspect'', handle_container_inspect v),
      (''kill_switch'', handle_kill_switch v)]"

section \<open>One connection\<close>

text \<open>
  How a connection ends: a reply was sent (its bytes), the error was logged, or an exception
  that no clause catches ended the thread. The connection is closed in every case.
\<close>

datatype served = Reply string | Bad_connection exc | Thread_died exc

definition reply :: "(string \<times> json) list \<Rightarrow> exc + string" where
  "reply kwargs = frame (dumps '','' '':'' (JObj kwargs))"

definition error_reply :: "string \<Rightarrow> (string \<times> json) list" where
  "error_reply msg = [(''ok'', JBool False), (''error'', JStr msg)]"

fun is_connection :: "exc \<Rightarrow> bool" where
  "is_connection (ConnectionError _) = True"
| "is_connection (ConnectionRefusedError _) = True"
| "is_connection (StructError _) = True"
| "is_connection _ = False"

definition closed_by :: "exc \<Rightarrow> served" where
  "closed_by e = (if is_connection e then Bad_connection e else Thread_died e)"

definition send_reply :: "(string \<times> json) list \<Rightarrow> 's \<Rightarrow> served \<times> 's" where
  "send_reply kwargs s = (case reply kwargs of Inr b \<Rightarrow> Reply b | Inl e \<Rightarrow> closed_by e, s)"

text \<open>
  A request: the method's handler, with \<open>params or {}\<close>. A request that is not an object, or whose
  method is a list or an object, raises outside the inner \<open>try\<close>.
\<close>

definition run_handler ::
  "(json \<Rightarrow> ('w daemon, json) act) \<Rightarrow> json \<Rightarrow> 'w daemon \<Rightarrow> served \<times> 'w daemon" where
  "run_handler handler params s =
     (case handler (or_empty params) s of
        (Inl e, s') \<Rightarrow> send_reply (error_reply (exc_str e)) s'
      | (Inr result, s') \<Rightarrow>
          (case reply [(''ok'', JBool True), (''result'', result)] of
             Inr b \<Rightarrow> (Reply b, s')
           | Inl e \<Rightarrow> send_reply (error_reply (exc_str e)) s'))"

definition dispatch :: "'w service \<Rightarrow> json \<Rightarrow> 'w daemon \<Rightarrow> served \<times> 'w daemon" where
  "dispatch v req s =
     (case sum_bind (obj_get req ''method'' (JStr [])) py_str of
        Inl e \<Rightarrow> (Thread_died e, s)
      | Inr method \<Rightarrow>
          (case obj_get req ''params'' JNull of
             Inl e \<Rightarrow> (Thread_died e, s)
           | Inr params \<Rightarrow>
               (case (obj_get req ''method'' (JStr []), map_of (METHODS v) method) of
                  (Inr (JStr _), Some handler) \<Rightarrow> run_handler handler params s
                | _ \<Rightarrow> send_reply (error_reply (''unknown method: '' @ method)) s)))"

definition MAX_REQUEST :: nat where
  "MAX_REQUEST = 4 * 1024 * 1024"

definition short_read :: exc where
  "short_read = ConnectionError ''short read''"

definition serve_one :: "'w service \<Rightarrow> int \<Rightarrow> event list \<Rightarrow> 'w daemon \<Rightarrow> served \<times> 'w daemon" where
  "serve_one v uid evs s =
     (case authorized v uid of
        Inl e \<Rightarrow> (Thread_died e, s)
      | Inr False \<Rightarrow> send_reply (error_reply ''unauthorized'') s
      | Inr True \<Rightarrow>
          (case recv_frame short_read MAX_REQUEST evs of
             (Inl e, _) \<Rightarrow> (closed_by e, s)
           | (Inr (Too_large _), _) \<Rightarrow> send_reply (error_reply ''payload too large'') s
           | (Inr (Payload p), _) \<Rightarrow>
               (case loads_bytes p of
                  Not_text \<Rightarrow> (Thread_died (ValueError ''utf-8''), s)
                | Not_json e \<Rightarrow> (Bad_connection e, s)
                | Json req \<Rightarrow> dispatch v req s)))"

section \<open>Start-up\<close>

text \<open>
  \<open>main\<close> up to the first \<open>accept\<close>: the three steps of initialisation, each of which only
  survives a \<open>RuntimeError\<close>. The result is whether the daemon goes on to listen.
\<close>

definition survive :: "('w daemon, unit) act \<Rightarrow> ('w daemon, unit) act" where
  "survive f s = except (f s) is_RuntimeError (\<lambda>_ s. (Inr (), s))"

definition start_up :: "'w service \<Rightarrow> ('w daemon, bool) act" where
  "start_up v s =
     (if allowed_uid v = None \<or> allowed_uid v = Some [] then (Inr False, s)
      else
        and_then (survive (\<lambda>s.
            and_then (init_server (host_of (machine_of v)) (files_of v) (vpn_endpoint v) (vpn_port v) s)
              (\<lambda>_ s. bring_up (host_of (machine_of v)) s)) s) (\<lambda>_ s.
        and_then (survive (\<lambda>s.
            and_then (adopt_untracked (machine_of v) s) (\<lambda>_ s.
            and_then (reconcile (machine_of v) s) (\<lambda>_ s. (Inr (), s)))) s) (\<lambda>_ s.
        and_then (survive (rebuild_firewall v) s) (\<lambda>_ s. (Inr True, s)))))"

text \<open>
  The connections that \<open>main\<close> then accepts, each with the uid of its peer and what arrives on it,
  served one after the other. (The threads of the code also overlap; \<open>Octet_Race\<close> has the
  operation in which that matters to the database.)
\<close>

fun serve_session :: "'w service \<Rightarrow> (int \<times> event list) list \<Rightarrow> 'w daemon \<Rightarrow> 'w daemon" where
  "serve_session v [] s = s"
| "serve_session v ((uid, evs) # conns) s = serve_session v conns (snd (serve_one v uid evs s))"

definition run_daemon :: "'w service \<Rightarrow> (int \<times> event list) list \<Rightarrow> 'w daemon \<Rightarrow> 'w daemon" where
  "run_daemon v conns s =
     (case start_up v s of (Inr True, s') \<Rightarrow> serve_session v conns s' | (_, s') \<Rightarrow> s')"

end
