(* ===== verification/Daemon_Calculus.thy ===== *)
theory Daemon_Calculus
  imports Docker_Sdk
begin

text \<open>
  How the proofs about the daemon's operations go through their statements. \<open>holds P r\<close>: the
  database after \<open>r\<close>, whether it returned or raised, has the property \<open>P\<close>; the rules in \<open>keeps\<close>
  derive it statement by statement. \<open>outcome Q E r\<close>: \<open>Q\<close> holds of the result and the state after a
  return, \<open>E\<close> of the exception and the state after a raise; its equations compute the condition of
  a sequence of statements from the conditions of its parts.
\<close>

section \<open>Statements that keep a property of the database\<close>

definition holds :: "(db \<Rightarrow> bool) \<Rightarrow> (exc + 'a) \<times> 'w daemon \<Rightarrow> bool" where
  "holds P r \<longleftrightarrow> P (store (snd r))"

named_theorems keeps \<open>rules for \<open>holds\<close>\<close>

lemma holds_ret [keeps]: "P (store s) \<Longrightarrow> holds P (r, s)"
  by (simp add: holds_def)

lemma holds_world [keeps]: "P (store s) \<Longrightarrow> holds P (on_world f s)"
  by (simp add: holds_def)

lemma holds_pure [keeps]: "P (store s) \<Longrightarrow> holds P (pure r s)"
  by (simp add: holds_def)

lemma holds_and_then [keeps]:
  "holds P r \<Longrightarrow> (\<And>x s. P (store s) \<Longrightarrow> holds P (f x s)) \<Longrightarrow> holds P (and_then r f)"
  by (cases r; cases "fst r") (auto simp: holds_def)

lemma holds_except [keeps]:
  "holds P r \<Longrightarrow> (\<And>e s. P (store s) \<Longrightarrow> holds P (g e s)) \<Longrightarrow> holds P (except r m g)"
  by (cases r; cases "fst r") (auto simp: holds_def)

lemma holds_if [keeps]: "(b \<Longrightarrow> holds P x) \<Longrightarrow> (\<not> b \<Longrightarrow> holds P y) \<Longrightarrow> holds P (if b then x else y)"
  by simp

lemma holds_option [keeps]:
  "(x = None \<Longrightarrow> holds P a) \<Longrightarrow> (\<And>y. x = Some y \<Longrightarrow> holds P (b y)) \<Longrightarrow>
   holds P (case x of None \<Rightarrow> a | Some y \<Rightarrow> b y)"
  by (cases x) simp_all

lemma holds_sum [keeps]:
  "(\<And>e. x = Inl e \<Longrightarrow> holds P (a e)) \<Longrightarrow> (\<And>y. x = Inr y \<Longrightarrow> holds P (b y)) \<Longrightarrow>
   holds P (case x of Inl e \<Rightarrow> a e | Inr y \<Rightarrow> b y)"
  by (cases x) simp_all

lemma holds_prod [keeps]: "(\<And>a b. x = (a, b) \<Longrightarrow> holds P (f a b)) \<Longrightarrow> holds P (case x of (a, b) \<Rightarrow> f a b)"
  by (cases x) simp

lemma holds_prod_fun [keeps]:
  "(\<And>a b. x = (a, b) \<Longrightarrow> holds P (f a b s)) \<Longrightarrow> holds P ((case x of (a, b) \<Rightarrow> f a b) s)"
  by (cases x) simp

lemma holds_update [keeps]:
  "holds P (r, s) \<Longrightarrow> holds P (r, s\<lparr>client_cached := b\<rparr>)"
  "holds P (r, s) \<Longrightarrow> holds P (r, s\<lparr>buildkit_ok := c\<rparr>)"
  by (simp_all add: holds_def)

lemma holds_let [keeps]: "(\<And>x. x = t \<Longrightarrow> holds P (f x)) \<Longrightarrow> holds P (Let t f)"
  by simp

lemma holds_db [keeps]: "P (snd (f (store s))) \<Longrightarrow> holds P (on_db f s)"
  by (cases "f (store s)") (simp add: holds_def on_db_def)

lemma holds_db_call [keeps]: "P (snd (f (store s))) \<Longrightarrow> holds P (db_call f s)"
  by (cases "f (store s)") (simp add: holds_def db_call_def)

section \<open>Statements and their results\<close>

text \<open>What holds of the result and of the state after it: \<open>Q\<close> after a value, \<open>E\<close> after an exception.\<close>

definition outcome ::
  "('a \<Rightarrow> 's \<Rightarrow> bool) \<Rightarrow> (exc \<Rightarrow> 's \<Rightarrow> bool) \<Rightarrow> (exc + 'a) \<times> 's \<Rightarrow> bool" where
  "outcome Q E r = (case r of (Inr x, s) \<Rightarrow> Q x s | (Inl e, s) \<Rightarrow> E e s)"

lemma outcome_pair [simp]:
  "outcome Q E (r, s) = (case r of Inr x \<Rightarrow> Q x s | Inl e \<Rightarrow> E e s)"
  by (simp add: outcome_def)

lemma outcome_and_then [simp]:
  "outcome Q E (and_then r f) = outcome (\<lambda>x s. outcome Q E (f x s)) E r"
  by (cases r; cases "fst r") auto

lemma outcome_except [simp]:
  "outcome Q E (except r m g) = outcome Q (\<lambda>e s. if m e then outcome Q E (g e s) else E e s) r"
  by (cases r; cases "fst r") auto

lemma outcome_InrD: "outcome Q E r \<Longrightarrow> r = (Inr x, s) \<Longrightarrow> Q x s"
  by simp

lemma outcome_InlD: "outcome Q E r \<Longrightarrow> r = (Inl e, s) \<Longrightarrow> E e s"
  by simp

lemma outcome_at:
  assumes "holds (\<lambda>x. x = d) r"
    and "\<And>x s'. store s' = d \<Longrightarrow> Q x s'" "\<And>e s'. store s' = d \<Longrightarrow> E e s'"
  shows "outcome Q E r"
  using assms by (cases r; cases "fst r") (auto simp: holds_def)

lemma outcome_world_at:
  "store s = d \<Longrightarrow> (\<And>x s'. store s' = d \<Longrightarrow> Q x s') \<Longrightarrow> (\<And>e s'. store s' = d \<Longrightarrow> E e s') \<Longrightarrow>
   outcome Q E (on_world f s)"
  by (rule outcome_at[OF holds_world]) simp_all

lemma outcome_same:
  assumes "holds (\<lambda>d. d = store s) r"
    and "\<And>x s'. store s' = store s \<Longrightarrow> Q x s'" "\<And>e s'. store s' = store s \<Longrightarrow> E e s'"
  shows "outcome Q E r"
  using assms by (cases r; cases "fst r") (auto simp: holds_def)

lemmas outcome_world = outcome_same[OF holds_world[OF refl]]

lemma outcome_on_db:
  "outcome Q E (on_db f s) =
     (case f (store s) of (Inr x, d) \<Rightarrow> Q x (s\<lparr>store := d\<rparr>) | (Inl e, d) \<Rightarrow> E e (s\<lparr>store := d\<rparr>))"
  by (simp add: on_db_def outcome_def split: prod.splits sum.splits)

lemma outcome_db_call:
  "outcome Q E (db_call f s) = (case f (store s) of (x, d) \<Rightarrow> Q x (s\<lparr>store := d\<rparr>))"
  by (simp add: db_call_def split: prod.splits)

lemma outcome_mono:
  "outcome Q E r \<Longrightarrow> (\<And>x s. Q x s \<Longrightarrow> Q' x s) \<Longrightarrow> (\<And>e s. E e s \<Longrightarrow> E' e s) \<Longrightarrow> outcome Q' E' r"
  by (cases r; cases "fst r") auto

end
