(* ===== verification/Container_Laws.thy ===== *)
theory Container_Laws
  imports Containers Daemon_Calculus
begin

text \<open>
  What the operations of \<open>Containers\<close> do to the daemon's database, whatever docker answers: most
  of them only act on the machine; the rest keep the invariant of the tables, and keep the
  octet of every owner that has an instance. Then the choice of addresses and of public ports,
  and the retry loop of a spawn.
\<close>

section \<open>Operations on the machine only\<close>

lemma holds_client [keeps]: "P (store s) \<Longrightarrow> holds P (get_client m s)"
  unfolding get_client_def by (intro keeps) (simp_all add: holds_def)

lemma holds_detect [keeps]: "P (store s) \<Longrightarrow> holds P (detect_exposed_ports m tag s)"
  unfolding detect_exposed_ports_def by (intro keeps)

lemma holds_buildkit [keeps]: "P (store s) \<Longrightarrow> holds P (buildkit_available m s)"
  unfolding buildkit_available_def by (intro keeps) simp_all

lemma holds_build_sdk [keeps]: "P (store s) \<Longrightarrow> holds P (build_image_sdk m tag path s)"
  unfolding build_image_sdk_def by (intro keeps)

lemma holds_build [keeps]: "P (store s) \<Longrightarrow> holds P (build_image m tag path s)"
  unfolding build_image_def by (intro keeps)

lemma holds_create_network [keeps]: "P (store s) \<Longrightarrow> holds P (create_owner_network m ow n a g s)"
  unfolding create_owner_network_def by (intro keeps)

lemma holds_launch [keeps]: "P (store s) \<Longrightarrow> holds P (launch m q pl ip cfg s)"
  unfolding launch_def by (intro keeps)

lemma holds_discard [keeps]: "P (store s) \<Longrightarrow> holds P (discard_container m name s)"
  unfolding discard_container_def by (intro keeps)

lemma holds_live_ip [keeps]: "P (store s) \<Longrightarrow> holds P (live_container_ip m c n s)"
  unfolding live_container_ip_def by (intro keeps)

lemma holds_stop [keeps]: "P (store s) \<Longrightarrow> holds P (stop_and_remove m cid s)"
  unfolding stop_and_remove_def by (intro keeps)

lemma holds_loop [keeps]:
  "P (store s) \<Longrightarrow> holds P (launch_loop m q pl n tips tports le s)"
proof (induction n arbitrary: tips tports le s)
  case (Suc n)
  have launched: "P (store s') " if "launch m q pl ip cfg s = (r, s')" for ip cfg r s'
    using holds_launch[of P s m q pl ip cfg, OF Suc.prems] that by (simp add: holds_def)
  show ?case
    unfolding launch_loop.simps
    by (intro keeps Suc.IH Suc.prems) (auto dest: launched split: sum.splits)
qed (simp add: holds_def)

lemmas outcome_client = outcome_same[OF holds_client[OF refl]]
lemmas outcome_build = outcome_same[OF holds_build[OF refl]]
lemmas outcome_detect = outcome_same[OF holds_detect[OF refl]]
lemmas outcome_network = outcome_same[OF holds_create_network[OF refl]]
lemmas outcome_live_ip = outcome_same[OF holds_live_ip[OF refl]]
lemmas outcome_stop = outcome_same[OF holds_stop[OF refl]]
lemmas outcome_loop = outcome_same[OF holds_loop[OF refl]]

section \<open>Networks\<close>

lemma ensure_owner_network_outcome:
  "outcome (\<lambda>k s'. allocate_octet ow (store s) = (Inr k, store s'))
     (\<lambda>e s'. store s' = snd (allocate_octet ow (store s))) (ensure_owner_network m ow s)"
proof (cases "allocate_octet ow (store s)")
  case (Pair r d)
  show ?thesis
  proof (cases r)
    case (Inl e)
    then show ?thesis by (simp add: ensure_owner_network_def on_db_def Pair)
  next
    case (Inr k)
    have world: "outcome Q E (on_world f s')"
      if "store s' = d" "\<And>x s'. store s' = d \<Longrightarrow> Q x s'" "\<And>e s'. store s' = d \<Longrightarrow> E e s'"
      for f :: "('a, 'b) act" and s' Q E
      using that by (intro outcome_world) simp_all
    show ?thesis
      unfolding ensure_owner_network_def create_owner_network_def Let_def
      by (simp add: outcome_on_db Pair Inr)
        (auto intro!: outcome_client world split: sum.splits)
  qed
qed

lemmas ensure_owner_network_Inr =
  outcome_InrD[OF ensure_owner_network_outcome]

lemma holds_ensure:
  "P (snd (allocate_octet ow (store s))) \<Longrightarrow> holds P (ensure_owner_network m ow s)"
  using ensure_owner_network_outcome[of ow s m]
  by (cases "ensure_owner_network m ow s"; cases "fst (ensure_owner_network m ow s)") (auto simp: holds_def)

text \<open>A network is released, and the octet freed, only for an owner without instances.\<close>

lemma release_network_outcome:
  "outcome
     (\<lambda>_ s'. store s' = store s \<or>
        count_instances_for_owner ow (store s) = 0 \<and> store s' = snd (free_octet ow (store s)))
     (\<lambda>_ s'. store s' = store s) (release_owner_network_if_idle m ow s)"
proof -
  have world: "outcome Q E (on_world f s')"
    if "store s' = store s" "\<And>x s'. store s' = store s \<Longrightarrow> Q x s'" "\<And>e s'. store s' = store s \<Longrightarrow> E e s'"
    for f :: "('a, 'b) act" and s' Q E
    using that by (intro outcome_world) simp_all
  show ?thesis
    unfolding release_owner_network_if_idle_def
    by (auto intro!: outcome_client world split: option.splits simp: outcome_db_call split: prod.splits)
qed

lemma holds_release_network:
  assumes "P (store s)" "count_instances_for_owner ow (store s) = 0 \<Longrightarrow> P (snd (free_octet ow (store s)))"
  shows "holds P (release_owner_network_if_idle m ow s)"
  using release_network_outcome[of s ow m] assms
  by (cases "release_owner_network_if_idle m ow s"; cases "fst (release_owner_network_if_idle m ow s)")
    (auto simp: holds_def)

section \<open>The invariant of the daemon\<close>

text \<open>
  Besides the constraints of the tables: an owner that has an instance keeps its octet, so its
  subnet is not given to another owner while containers run in it.
\<close>

definition housed :: "db \<Rightarrow> bool" where
  "housed d \<longleftrightarrow> (\<forall>i \<in> set (instances d). get_octet (inst_owner i) d \<noteq> None)"

definition daemon_ok :: "db \<Rightarrow> bool" where
  "daemon_ok d \<longleftrightarrow> db_ok d \<and> housed d"

lemma count_zero:
  "count_instances_for_owner ow d = 0 \<longleftrightarrow> (\<forall>i \<in> set (instances d). inst_owner i \<noteq> ow)"
  by (auto simp: count_instances_for_owner_def filter_empty_conv)

lemma allocate_octet_frame:
  "instances (snd (allocate_octet ow d)) = instances d" "peers (snd (allocate_octet ow d)) = peers d"
  "inst_seq (snd (allocate_octet ow d)) = inst_seq d"
  by (simp_all add: allocate_octet_eq split: option.splits)

lemma daemon_ok_allocate: "daemon_ok d \<Longrightarrow> daemon_ok (snd (allocate_octet ow d))"
proof -
  assume ok: "daemon_ok d"
  obtain r d' where d': "allocate_octet ow d = (r, d')" by (cases "allocate_octet ow d")
  have "instances d' = instances d" using allocate_octet_frame(1)[of ow d] d' by simp
  moreover have "get_octet o' d' \<noteq> None" if "get_octet o' d \<noteq> None" for o'
    using that op.claim_keeps_all[of d ow r d' o'] ok d' by (auto simp: daemon_ok_def)
  ultimately show ?thesis
    using ok allocate_octet_ok[of d ow r d'] d' by (auto simp: daemon_ok_def housed_def)
qed

lemma free_octet_frame: "instances (snd (free_octet ow d)) = instances d"
  by (simp add: free_octet_def)

lemma daemon_ok_free:
  assumes "daemon_ok d" "count_instances_for_owner ow d = 0"
  shows "daemon_ok (snd (free_octet ow d))"
proof -
  obtain b d' where d': "free_octet ow d = (b, d')" by (cases "free_octet ow d")
  have "get_octet o' d' = get_octet o' d" if "o' \<noteq> ow" for o'
    using free_octet_get[OF d', of o'] that by simp
  then show ?thesis
    using assms free_octet_ok[of d ow b d'] d' free_octet_frame[of ow d]
    by (simp add: daemon_ok_def housed_def count_zero)
qed

lemma get_octet_instances:
  "get_octet ow (d\<lparr>instances := is\<rparr>) = get_octet ow d"
  "get_octet ow (d\<lparr>instances := is, inst_seq := n\<rparr>) = get_octet ow d"
  by (simp_all add: get_octet_def)

lemma daemon_ok_remove: "daemon_ok d \<Longrightarrow> daemon_ok (snd (remove_instance cid d))"
  using remove_instance_ok[of d cid]
  by (auto simp: daemon_ok_def housed_def remove_instance_def get_octet_instances)

lemma daemon_ok_status: "daemon_ok d \<Longrightarrow> daemon_ok (snd (update_instance_status cid st d))"
  using update_instance_status_ok[of d cid st]
  by (auto simp: daemon_ok_def housed_def update_instance_status_def get_octet_instances)

lemma daemon_ok_add:
  assumes "daemon_ok d" "get_octet ow d \<noteq> None"
  shows "daemon_ok (snd (add_instance cid cname ow chal ip ps expi st pub d))"
proof -
  obtain r d' where d': "add_instance cid cname ow chal ip ps expi st pub d = (r, d')" by (rule prod.exhaust)
  show ?thesis
  proof (cases r)
    case (Inl e)
    then show ?thesis using assms d' add_instance_Inl(1) by fastforce
  next
    case (Inr i)
    note new = add_instance_Inr[OF d'[unfolded Inr]]
    have "inst_owner i = ow" by (simp add: new(1))
    then show ?thesis
      using assms d' add_instance_ok[OF _ d'] new(2)
      by (auto simp: daemon_ok_def housed_def get_octet_instances)
  qed
qed

section \<open>Spawning\<close>

definition new_instance :: "spawn_request \<Rightarrow> spawn_plan \<Rightarrow> inst \<Rightarrow> db \<Rightarrow> db \<Rightarrow> bool" where
  "new_instance q pl i d d' \<longleftrightarrow>
     (\<exists>cid ip pub. add_instance cid (pl_name pl) (sr_owner q) (sr_challenge q) ip
        (json_ports (pl_exposed pl)) (pl_expires pl) ''running'' (json_published pub) d = (Inr i, d'))"

text \<open>How a spawn may end, over the database \<open>d\<close> in which its container is to be recorded.\<close>

definition planned :: "spawn_request \<Rightarrow> int \<Rightarrow> spawn_plan \<Rightarrow> bool" where
  "planned q k pl \<longleftrightarrow>
     pl_octet pl = k \<and> pl_network pl = bridge_name k \<and>
     pl_name pl = container_name_for (sr_challenge q) (sr_owner q) \<and> (sr_ttl q = None \<longrightarrow> pl_expires pl = None)"

definition spawn_end :: "spawn_request \<Rightarrow> int \<Rightarrow> db \<Rightarrow> spawn_result \<Rightarrow> 'w daemon \<Rightarrow> bool" where
  "spawn_end q k d res s \<longleftrightarrow>
     (\<exists>pl i. planned q k pl \<and> res = spawned i \<and> new_instance q pl i d (store s)) \<or>
     \<not> success res \<and> store s = d"

lemma spawn_failed_simps [simp]: "\<not> success (spawn_failed msg)" "success (spawned i)"
  "instance_of (spawned i) = Some i"
  by (simp_all add: spawn_failed_def spawned_def)

lemma store_container_outcome:
  assumes "store s = d" "planned q k pl"
  shows "outcome (spawn_end q k d) (\<lambda>_ s'. store s' = d) (store_container m q pl c ip pub s)"
proof (cases "add_instance (ct_id c) (pl_name pl) (sr_owner q) (sr_challenge q) ip
    (json_ports (pl_exposed pl)) (pl_expires pl) ''running'' (json_published pub) d")
  case (Pair r d')
  show ?thesis
  proof (cases r)
    case (Inl e)
    then have "d' = d" using Pair add_instance_Inl(1) by blast
    then show ?thesis
      using assms Pair Inl unfolding store_container_def
      by (auto simp: on_db_def spawn_end_def intro!: outcome_world)
  next
    case (Inr i)
    then have "new_instance q pl i d d'" using Pair unfolding new_instance_def by blast
    then show ?thesis
      using assms Pair Inr unfolding store_container_def
      by (auto simp: on_db_def spawn_end_def)
  qed
qed

lemma record_container_outcome:
  assumes "store s = d" "planned q k pl"
  shows "outcome (spawn_end q k d) (\<lambda>_ s'. store s' = d) (record_container m q pl c ip s)"
  unfolding record_container_def
  using assms
  by (auto intro!: outcome_live_ip outcome_world store_container_outcome split: prod.splits sum.splits)

lemma run_planned_outcome:
  assumes "store s = d" "planned q k pl"
  shows "outcome (spawn_end q k d) (\<lambda>_ s'. store s' = d) (run_planned m q pl s)"
proof -
  have failed: "spawn_end q k d (spawn_failed msg) s'" if "store s' = d" for msg and s' :: "'a daemon"
    using that by (simp add: spawn_end_def)
  show ?thesis
    unfolding run_planned_def outcome_and_then
    using assms failed
    by (intro outcome_loop) (auto intro!: record_container_outcome split: launch_end.split)
qed

lemma planned_plan: "planned q k (plan_for m q k exposed s)"
  by (simp add: planned_def plan_for_def)

lemma build_and_run_outcome:
  assumes "store s = d"
  shows "outcome (spawn_end q k d) (\<lambda>_ s'. store s' = d) (build_and_run m q k s)"
proof -
  have failed: "spawn_end q k d (spawn_failed msg) s'" if "store s' = d" for msg and s' :: "'a daemon"
    using that by (simp add: spawn_end_def)
  show ?thesis
    unfolding build_and_run_def
    using assms failed
    by (auto intro!: outcome_client outcome_build outcome_detect run_planned_outcome planned_plan
        split: prod.splits)
qed

lemma spawn_instance_outcome:
  assumes "find_instance (sr_owner q) (sr_challenge q) (store s) = None"
  shows "outcome
     (\<lambda>res s'. \<not> success res \<and> store s' = store s \<or>
        (\<exists>k d. allocate_octet (sr_owner q) (store s) = (Inr k, d) \<and> spawn_end q k d res s'))
     (\<lambda>_ s'. store s' = snd (allocate_octet (sr_owner q) (store s)))
     (spawn_instance m q s)"
proof (cases "is_file m (sr_path q @ ''/Dockerfile'') (world s)")
  case True
  have "outcome
     (\<lambda>res s'. \<exists>k d. allocate_octet (sr_owner q) (store s) = (Inr k, d) \<and> spawn_end q k d res s')
     (\<lambda>_ s'. store s' = snd (allocate_octet (sr_owner q) (store s)))
     (and_then (ensure_owner_network m (sr_owner q) s) (\<lambda>k s. build_and_run m q k s))"
    unfolding outcome_and_then
    by (rule outcome_mono[OF ensure_owner_network_outcome])
      (auto intro!: outcome_mono[OF build_and_run_outcome[OF refl]])
  then show ?thesis
    using True assms by (auto simp: spawn_instance_def elim!: outcome_mono)
qed (use assms in \<open>simp add: spawn_instance_def\<close>)

text \<open>What is known of the row of a fresh instance.\<close>

lemma new_instance_facts:
  assumes "new_instance q pl i d d'"
  shows "d' = d\<lparr>instances := instances d @ [i], inst_seq := inst_seq d + 1\<rparr>"
    "inst_owner i = sr_owner q" "challenge_ref i = sr_challenge q" "status i = ''running''"
    "container_name i = pl_name pl" "ports i = json_ports (pl_exposed pl)" "expires_at i = pl_expires pl"
    "(sr_owner q, sr_challenge q) \<notin> inst_key ` set (instances d)"
    "container_id i \<notin> container_id ` set (instances d)"
proof -
  obtain cid ip pub where add: "add_instance cid (pl_name pl) (sr_owner q) (sr_challenge q) ip
      (json_ports (pl_exposed pl)) (pl_expires pl) ''running'' (json_published pub) d = (Inr i, d')"
    using assms unfolding new_instance_def by blast
  note new = add_instance_Inr[OF add]
  show "d' = d\<lparr>instances := instances d @ [i], inst_seq := inst_seq d + 1\<rparr>" by (rule new(2))
  show "inst_owner i = sr_owner q" "challenge_ref i = sr_challenge q" "status i = ''running''"
    "container_name i = pl_name pl" "ports i = json_ports (pl_exposed pl)" "expires_at i = pl_expires pl"
    "(sr_owner q, sr_challenge q) \<notin> inst_key ` set (instances d)"
    "container_id i \<notin> container_id ` set (instances d)"
    using new(3,4) by (simp_all add: new(1))
qed

section \<open>Releasing, tearing down, reconciling\<close>

lemma holds_release_instance:
  assumes "P (store s)" "\<And>d. P d \<Longrightarrow> P (snd (remove_instance cid d))"
    "\<And>d ow. P d \<Longrightarrow> count_instances_for_owner ow d = 0 \<Longrightarrow> P (snd (free_octet ow d))"
  shows "holds P (release_instance m cid s)"
  unfolding release_instance_def Let_def
  by (intro keeps holds_release_network assms) (simp_all add: assms)

text \<open>
  What a property of the database must satisfy to be kept by every operation on containers: the
  five database operations that they run keep it. An instance is recorded for an owner that
  has an octet, an octet is freed for an owner that has no instance.
\<close>

locale tracked =
  fixes P :: "db \<Rightarrow> bool"
  assumes tables: "P d \<Longrightarrow> db_ok d"
    and allocate: "P d \<Longrightarrow> P (snd (allocate_octet ow d))"
    and add: "P d \<Longrightarrow> get_octet ow d \<noteq> None \<Longrightarrow> P (snd (add_instance cid cname ow chal ip ps expi st pub d))"
    and remove: "P d \<Longrightarrow> P (snd (remove_instance cid d))"
    and update: "P d \<Longrightarrow> P (snd (update_instance_status cid st d))"
    and free: "P d \<Longrightarrow> count_instances_for_owner ow d = 0 \<Longrightarrow> P (snd (free_octet ow d))"
begin

lemma recorded: "P d \<Longrightarrow> get_octet (sr_owner q) d \<noteq> None \<Longrightarrow> new_instance q pl i d d' \<Longrightarrow> P d'"
  unfolding new_instance_def by (metis add snd_conv)

lemma spawn:
  assumes "P (store s)"
  shows "holds P (spawn_instance m q s)"
proof (cases "find_instance (sr_owner q) (sr_challenge q) (store s)")
  case None
  have alloc: "P d \<and> get_octet (sr_owner q) d = Some k"
    if "allocate_octet (sr_owner q) (store s) = (Inr k, d)" for k d
    using that tables[OF assms] allocate[OF assms, of "sr_owner q"]
      allocate_octet_Inr(1)[of "store s" "sr_owner q" k d]
    by (auto simp: db_ok_def)
  show ?thesis
    using spawn_instance_outcome[OF None, of m] assms allocate[OF assms]
    by (cases "spawn_instance m q s"; cases "fst (spawn_instance m q s)")
      (auto simp: holds_def spawn_end_def dest!: alloc intro: recorded)
qed (use assms in \<open>simp add: spawn_instance_def holds_def\<close>)

lemma release: "P (store s) \<Longrightarrow> holds P (release_instance m cid s)"
  by (rule holds_release_instance) (simp_all add: remove free)

lemma teardown_rows: "P (store s) \<Longrightarrow> holds P (teardown_loop m is n s)"
proof (induction "is" arbitrary: n s)
  case (Cons i "is")
  show ?case
    unfolding teardown_loop.simps by (intro holds_and_then release Cons)
qed (simp add: holds_def)

lemma teardown: "P (store s) \<Longrightarrow> holds P (teardown_all m s)"
  by (simp add: teardown_all_def teardown_rows)

lemma reconcile_one:
  assumes "P (store s)"
  shows "holds P (reconcile_row m i s)"
proof (cases "on_world (containers_get (docker_of m) (container_id i)) s")
  case (Pair r s')
  have "P (store s')" using assms on_world_D[OF Pair] by simp
  then show ?thesis
    unfolding reconcile_row_def Pair
    by (auto intro!: keeps holds_release_network remove update free split: sum.split)
qed

lemma reconcile_rows: "P (store s) \<Longrightarrow> holds P (reconcile_loop m is n s)"
proof (induction "is" arbitrary: n s)
  case (Cons i "is")
  show ?case
    unfolding reconcile_loop.simps by (intro holds_and_then reconcile_one Cons)
qed (simp add: holds_def)

lemma reconciled: "P (store s) \<Longrightarrow> holds P (reconcile m s)"
  unfolding reconcile_def by (intro keeps reconcile_rows)

end

text \<open>Adoption records instances of owners that need not have an octet.\<close>

locale adopting = tracked +
  assumes adopt: "P d \<Longrightarrow> P (snd (add_instance cid cname ow chal ip ps expi st pub d))"
begin

lemma adopt_row: "P (store s) \<Longrightarrow> holds P (adopt_one m known c s)"
  unfolding adopt_one_def adopt_labelled_def by (intro keeps adopt) assumption+

lemma adopt_rows: "P (store s) \<Longrightarrow> holds P (adopt_loop m known cs n s)"
proof (induction cs arbitrary: n s)
  case (Cons c cs)
  show ?case
    unfolding adopt_loop.simps by (intro holds_and_then adopt_row Cons)
qed (simp add: holds_def)

lemma adopted: "P (store s) \<Longrightarrow> holds P (adopt_untracked m s)"
  unfolding adopt_untracked_def by (intro keeps adopt_rows) simp_all

end

interpretation daemon: tracked daemon_ok
  by unfold_locales (simp_all add: daemon_ok_allocate daemon_ok_add daemon_ok_remove daemon_ok_status daemon_ok_free,
      simp add: daemon_ok_def)

text \<open>The constraints alone, and with a fixed table of peers, are kept by adoption as well.\<close>

lemma peers_frame:
  "peers (snd (remove_instance cid d)) = peers d"
  "peers (snd (update_instance_status cid st d)) = peers d"
  "peers (snd (free_octet ow d)) = peers d"
  "peers (snd (add_instance cid cname ow chal ip ps expi st pub d)) = peers d"
  by (simp_all add: remove_instance_def update_instance_status_def free_octet_def add_instance_def
      insert_inst_def Let_def split: prod.splits sum.splits)

lemma tables_kept:
  assumes "db_ok d"
  shows "db_ok (snd (allocate_octet ow d))" "db_ok (snd (remove_instance cid d))"
    "db_ok (snd (update_instance_status cid st d))" "db_ok (snd (free_octet ow d))"
    "db_ok (snd (add_instance cid cname ow chal ip ps expi st pub d))"
  using assms by (metis allocate_octet_ok prod.collapse, metis remove_instance_ok prod.collapse,
      metis update_instance_status_ok prod.collapse, metis free_octet_ok prod.collapse,
      metis add_instance_ok prod.collapse)

interpretation vpn: adopting "\<lambda>d. db_ok d \<and> peers d = ps" for ps
  by unfold_locales (auto simp: tables_kept allocate_octet_frame peers_frame)

text \<open>
  The result of a release. \<open>False\<close> with an unchanged database: docker refused. Otherwise the row
  of that identifier is gone, every other row is still there, and an octet is freed only for
  the owner of the row and only when that owner has no instance left.
\<close>

definition released :: "string \<Rightarrow> db \<Rightarrow> bool \<Rightarrow> db \<Rightarrow> bool" where
  "released cid d b d' \<longleftrightarrow>
     instances d' = filter (\<lambda>i. container_id i \<noteq> cid) (instances d) \<and>
     b = (\<exists>i \<in> set (instances d). container_id i = cid) \<and> peers d' = peers d \<and>
     (octets d' = octets d \<or>
      (\<exists>i \<in> set (instances d). container_id i = cid \<and>
         octets d' = filter (\<lambda>o'. oct_owner o' \<noteq> inst_owner i) (octets d) \<and>
         (\<forall>j \<in> set (instances d'). inst_owner j \<noteq> inst_owner i)))"

lemma release_instance_outcome:
  "outcome (\<lambda>b s'. \<not> b \<and> store s' = store s \<or> released cid (store s) b (store s'))
     (\<lambda>_ s'. store s' = store s \<or> released cid (store s) (list_ex (\<lambda>i. container_id i = cid) (instances (store s))) (store s'))
     (release_instance m cid s)"
proof -
  let ?d = "store s"
  let ?r = "list_ex (\<lambda>i. container_id i = cid) (instances ?d)"
  let ?d1 = "?d\<lparr>instances := filter (\<lambda>i. container_id i \<noteq> cid) (instances ?d)\<rparr>"
  have plain: "released cid ?d ?r ?d1" by (auto simp: released_def list_ex_iff)
  have freed: "released cid ?d ?r (snd (free_octet (inst_owner i) ?d1))"
    if "find_by_id cid ?d = Some i" "count_instances_for_owner (inst_owner i) ?d1 = 0" for i
  proof -
    have "i \<in> set (instances ?d)" "container_id i = cid"
      using find_Some_in that(1) by (fastforce simp: find_by_id_def get_all_instances_def)+
    then show ?thesis
      using that(2) by (auto simp: released_def list_ex_iff free_octet_def count_zero)
  qed
  have net: "outcome (\<lambda>_ s'. released cid ?d ?r (store s')) (\<lambda>_ s'. released cid ?d ?r (store s'))
      (release_owner_network_if_idle m (inst_owner i) s1)"
    if "store s1 = ?d1" "find_by_id cid ?d = Some i" for s1 :: "'a daemon" and i
    using that freed[OF that(2)] plain
    by (intro outcome_mono[OF release_network_outcome]) auto
  have del: "outcome (\<lambda>b s'. released cid ?d b (store s')) (\<lambda>_ s'. released cid ?d ?r (store s'))
     (and_then (db_call (remove_instance cid) s1) (\<lambda>removed s.
        case find_by_id cid ?d of
          None \<Rightarrow> (Inr removed, s)
        | Some row \<Rightarrow>
            and_then (release_owner_network_if_idle m (inst_owner row) s) (\<lambda>_ s. (Inr removed, s))))"
    if "store s1 = ?d" for s1 :: "'a daemon"
    using that plain net
    by (cases "find_by_id cid ?d") (simp_all add: outcome_db_call remove_instance_def)
  let ?Q = "\<lambda>b s'. \<not> b \<and> store s' = ?d \<or> released cid ?d b (store s')"
  let ?E = "\<lambda>_ s'. store s' = ?d \<or> released cid ?d ?r (store s')"
  have del': "outcome (\<lambda>removed s. outcome ?Q ?E
        (case find_by_id cid ?d of
          None \<Rightarrow> (Inr removed, s)
        | Some row \<Rightarrow>
            and_then (release_owner_network_if_idle m (inst_owner row) s) (\<lambda>_ s. (Inr removed, s))))
      ?E (db_call (remove_instance cid) s1)"
    if "store s1 = ?d" for s1 :: "'a daemon"
    using outcome_mono[OF del[OF that], of ?Q ?E] unfolding outcome_and_then by blast
  show ?thesis
    unfolding release_instance_def Let_def
    by (auto intro!: outcome_client outcome_stop del')
qed

text \<open>A teardown only removes rows that are marked as running.\<close>

lemma release_keeps_row:
  "i \<in> set (instances (store s)) \<Longrightarrow> container_id i \<noteq> cid \<Longrightarrow>
   holds (\<lambda>d. i \<in> set (instances d)) (release_instance m cid s)"
  by (rule holds_release_instance) (auto simp: remove_instance_def free_octet_def)

lemma teardown_keeps_row:
  "i \<in> set (instances (store s)) \<Longrightarrow> container_id i \<notin> container_id ` set is \<Longrightarrow>
   holds (\<lambda>d. i \<in> set (instances d)) (teardown_loop m is n s)"
proof (induction "is" arbitrary: n s)
  case (Cons j "is")
  have "holds (\<lambda>d. i \<in> set (instances d)) (release_instance m (container_id j) s)"
    using Cons.prems by (intro release_keeps_row) auto
  then show ?case
    unfolding teardown_loop.simps by (rule holds_and_then) (use Cons in simp)
qed (simp add: holds_def)

section \<open>Adoption\<close>

definition adopt_kept :: "db \<Rightarrow> db \<Rightarrow> bool" where
  "adopt_kept d d' \<longleftrightarrow>
     (db_ok d \<longrightarrow> db_ok d') \<and> octets d' = octets d \<and> peers d' = peers d \<and>
     (\<exists>new. instances d' = instances d @ new)"

lemma adopt_kept_refl: "adopt_kept d d"
  by (simp add: adopt_kept_def)

lemma adopt_kept_add:
  assumes "adopt_kept d d1"
  shows "adopt_kept d (snd (add_instance cid cname ow chal ip ps expi st pub d1))"
proof -
  obtain r d2 where d2: "add_instance cid cname ow chal ip ps expi st pub d1 = (r, d2)" by (rule prod.exhaust)
  show ?thesis
  proof (cases r)
    case (Inl e)
    then show ?thesis using assms d2 add_instance_Inl(1) by fastforce
  next
    case (Inr i)
    then show ?thesis
      using assms d2 add_instance_ok[OF _ d2] add_instance_Inr(2)[OF d2[unfolded Inr]]
      by (auto simp: adopt_kept_def)
  qed
qed

lemma adopt_one_kept: "adopt_kept d (store s) \<Longrightarrow> holds (adopt_kept d) (adopt_one m known c s)"
  unfolding adopt_one_def adopt_labelled_def
  by (intro keeps adopt_kept_add) assumption+

lemma adopt_loop_kept: "adopt_kept d (store s) \<Longrightarrow> holds (adopt_kept d) (adopt_loop m known cs n s)"
proof (induction cs arbitrary: n s)
  case (Cons c cs)
  show ?case
    unfolding adopt_loop.simps by (intro holds_and_then adopt_one_kept Cons)
qed (simp add: holds_def)

lemma adopt_untracked_kept: "holds (adopt_kept (store s)) (adopt_untracked m s)"
  unfolding adopt_untracked_def
  by (intro keeps adopt_loop_kept) (simp_all add: adopt_kept_refl)

section \<open>Addresses\<close>

lemma find_next_owner_ip_eq:
  assumes "1 \<le> k" "k \<le> 254"
  shows "find_next_owner_ip ow k d =
     iter_subnet_hosts (owner_net (nat k)) (get_used_instance_ips ow d @ [owner_gateway_ip k])"
  using assms by (simp add: find_next_owner_ip_def owner_subnet_eq)

lemma find_next_owner_ip_Inr:
  assumes "find_next_owner_ip ow k d = Inr ip"
  shows "\<exists>a. in_net a (owner_net (nat k)) \<and> ip = ip_str a \<and> a < 2 ^ 32" "ip \<noteq> owner_gateway_ip k"
    "ip \<notin> set (get_used_instance_ips ow d)"
proof -
  have k: "1 \<le> k \<and> k \<le> 254"
    using assms by (auto simp: find_next_owner_ip_def owner_subnet_eq split: if_splits)
  then have "first_free (map ip_str (hosts (owner_net (nat k)))) (get_used_instance_ips ow d @ [owner_gateway_ip k]) = Some ip"
    using assms by (simp add: find_next_owner_ip_eq iter_subnet_hosts_def split: option.splits)
  from ff.pick_fresh[OF this] have ip: "ip \<in> ip_str ` set (hosts (owner_net (nat k)))"
    "ip \<noteq> owner_gateway_ip k" "ip \<notin> set (get_used_instance_ips ow d)" by auto
  then obtain a where a: "a \<in> set (hosts (owner_net (nat k)))" "ip = ip_str a" by blast
  have "nat k < 256" using k by linarith
  then have "in_net a (owner_net (nat k))" "a < 2 ^ 32"
    using a(1) hosts_bound[OF wf_owner_net a(1)]
    by (auto simp: hosts_owner_net in_owner_net_iff ip_of_octets_def)
  then show "\<exists>a. in_net a (owner_net (nat k)) \<and> ip = ip_str a \<and> a < 2 ^ 32" using a(2) by blast
  show "ip \<noteq> owner_gateway_ip k" "ip \<notin> set (get_used_instance_ips ow d)" using ip by auto
qed

section \<open>The retry loop\<close>

text \<open>
  The loop never writes to the database, from which \<open>find_next_owner_ip\<close> takes the addresses in
  use. So once the next address has been tried, it is the next address for ever, and every
  later iteration is skipped.
\<close>

lemma loop_stuck:
  "find_next_owner_ip (sr_owner q) (pl_octet pl) (store s) = Inr ip \<Longrightarrow> ip \<in> set tried \<Longrightarrow>
   launch_loop m q pl n tried tried_ports le s = (Inr (Out_of_tries le), s)"
  by (induction n) simp_all

lemma loop_gives_up:
  assumes "find_next_owner_ip (sr_owner q) (pl_octet pl) (store s) = Inr ip"
    and "choose_port_map m q pl [] (store s) = Inr pm"
    and "build_secure_host_config m (sr_profile q) pm = Inr cfg"
    and "launch m q pl ip cfg s = (Inl e, s1)" "is_APIError e" "is_resource_conflict e"
    and "discard_container m (pl_name pl) s1 = (Inr (), s2)"
  shows "launch_loop m q pl (Suc n) [] [] le s = (Inr (Out_of_tries (exc_str e)), s2)"
proof -
  have "store s1 = store s"
    using holds_launch[of "\<lambda>d. d = store s" s m q pl ip cfg] assms(4) by (simp add: holds_def)
  moreover have "store s2 = store s1"
    using holds_discard[of "\<lambda>d. d = store s1" s1 m "pl_name pl"] assms(7) by (simp add: holds_def)
  ultimately show ?thesis
    using assms loop_stuck[of q pl s2 ip "[ip]" m n "port_values pm" "exc_str e"] by simp
qed

section \<open>Public ports\<close>

lemma choose_ports_eq:
  "length chosen < count \<Longrightarrow>
   choose_ports used chosen count span =
     (let free = filter (\<lambda>p. p \<notin> set used) span in
      if count \<le> length chosen + length free
      then Some (chosen @ take (count - length chosen) free) else None)"
proof (induction span arbitrary: chosen)
  case (Cons p span)
  consider "p \<in> set used" | "p \<notin> set used" "Suc (length chosen) < count"
    | "p \<notin> set used" "count = Suc (length chosen)"
    using Cons.prems by linarith
  then show ?case
  proof cases
    case 2
    then have "count - length chosen = Suc (count - Suc (length chosen))" by simp
    then show ?thesis using 2 Cons.IH[of "chosen @ [p]"] by (simp add: Let_def)
  qed (use Cons in \<open>simp_all add: Let_def\<close>)
qed (simp add: Let_def)

lemma update_ints_JInt: "update_ints fl used (map JInt ps) = Inr (used @ ps)"
  by (induction ps arbitrary: used) (simp_all add: json_int_def)

lemma update_ints_mono: "update_ints fl used vs = Inr used' \<Longrightarrow> set used \<subseteq> set used'"
proof (induction vs arbitrary: used)
  case (Cons v vs)
  then show ?case by (fastforce split: sum.splits if_splits)
qed simp

lemma loads_published:
  assumes "distinct (map fst pm)" "json_published pm = Some text"
  shows "text \<noteq> []" "loads text = Inr (JObj (map (\<lambda>(c, h). (c, JInt h)) pm))"
proof -
  let ?j = "JObj (map (\<lambda>(c, h). (c, JInt h)) pm)"
  have t: "text = dumps '', '' '': '' ?j" using assms(2) by (simp add: json_published_def split: if_splits)
  have "map fst (map (\<lambda>(c, h). (c, JInt h)) pm) = map fst pm" by (induction pm) auto
  then have wf: "wf_json ?j" using assms(1) by (auto simp: list_all_iff simp del: map_map)
  have seps: "seps '', '' '': ''" by (simp add: seps_def json_space_def)
  show "loads text = Inr ?j" unfolding t by (rule loads_dumps[OF seps wf])
  show "text \<noteq> []" unfolding t using dumps_solid[OF wf] by blast
qed

lemma used_ports_mono: "used_ports_of fl u is = Inr used \<Longrightarrow> set u \<subseteq> set used"
proof (induction "is" arbitrary: u)
  case (Cons i "is")
  then show ?case
    by (auto split: option.splits if_splits sum.splits dest!: update_ints_mono; blast)
qed simp

lemma used_ports_recorded:
  "used_ports_of fl u is = Inr used \<Longrightarrow> i \<in> set is \<Longrightarrow> published_ports i = json_published pm \<Longrightarrow>
   distinct (map fst pm) \<Longrightarrow> snd ` set pm \<subseteq> set used"
proof (induction "is" arbitrary: u)
  case (Cons j "is")
  show ?case
  proof (cases "i = j \<and> pm \<noteq> []")
    case True
    then obtain t where t: "json_published pm = Some t" by (simp add: json_published_def)
    have "map snd (map (\<lambda>(c, h). (c, JInt h)) pm) = map JInt (map snd pm)" by (induction pm) auto
    then have "used_ports_of fl (u @ map snd pm) is = Inr used"
      using Cons.prems True t loads_published[OF Cons.prems(4) t]
        update_ints_JInt[of fl u "map snd pm"]
      by (simp add: obj_items_def del: map_map)
    then show ?thesis using used_ports_mono by fastforce
  next
    case False
    show ?thesis
    proof (cases "pm = []")
      case False
      then have "i \<in> set is" using Cons.prems(2) \<open>\<not> (i = j \<and> pm \<noteq> [])\<close> by simp
      moreover have "\<exists>u'. used_ports_of fl u' is = Inr used"
        using Cons.prems(1) by (auto split: option.splits if_splits sum.splits)
      ultimately show ?thesis using Cons.IH Cons.prems(3,4) by blast
    qed simp
  qed
qed simp

lemma allocate_public_ports_Inr:
  assumes "allocate_public_ports m count exclude d = Inr ps" "0 < count"
  shows "length ps = count" "distinct ps" "set ps \<subseteq> {port_range_start m .. port_range_end m}"
    "set ps \<inter> set exclude = {}"
    "i \<in> set (instances d) \<Longrightarrow> published_ports i = json_published pm \<Longrightarrow> distinct (map fst pm) \<Longrightarrow>
     set ps \<inter> snd ` set pm = {}"
proof -
  obtain used where used: "used_public_ports m d = Inr used"
    using assms(1) by (cases "used_public_ports m d") (auto simp: allocate_public_ports_def)
  let ?free = "filter (\<lambda>p. p \<notin> set (used @ exclude)) [port_range_start m .. port_range_end m]"
  have ps: "ps = take count ?free" "count \<le> length ?free"
    using assms used
    by (auto simp: allocate_public_ports_def choose_ports_eq Let_def simp del: upto_rec_numeral split: if_splits)
  have sub: "set ps \<subseteq> set ?free" unfolding ps(1) by (rule set_take_subset)
  show "length ps = count" using ps by simp
  show "distinct ps" unfolding ps(1) by (intro distinct_take distinct_filter) simp
  show "set ps \<subseteq> {port_range_start m .. port_range_end m}" "set ps \<inter> set exclude = {}" using sub by auto
  show "set ps \<inter> snd ` set pm = {}"
    if "i \<in> set (instances d)" "published_ports i = json_published pm" "distinct (map fst pm)"
    using sub used_ports_recorded[OF used[unfolded used_public_ports_def get_all_instances_def] that] by auto
qed

lemma allocate_public_ports_refused:
  assumes "allocate_public_ports m count exclude d = Inl e" "used_public_ports m d = Inr used" "0 < count"
  shows "length (filter (\<lambda>p. p \<notin> set (used @ exclude)) [port_range_start m .. port_range_end m]) < count"
  using assms by (auto simp: allocate_public_ports_def choose_ports_eq Let_def split: if_splits)

end
