(* ===== verification/Wireguard_Laws.thy ===== *)
theory Wireguard_Laws
  imports Wireguard Daemon_Calculus
begin

text \<open>
  The laws of \<open>Wireguard\<close>: which keys are valid, the pool of peer addresses, adding a peer as
  all or nothing in the database, and the server configuration file: what the daemon writes
  into it reads back, and adding and removing peers keep it in step with the table.
\<close>

section \<open>Keys\<close>

lemma b64_not_pad: "\<not> b64_char (CHR ''='')"
  by code_simp

text \<open>A valid key is 43 characters of the base64 alphabet and one \<open>=\<close>, spaces around it aside.\<close>

lemma valid_key_iff:
  "is_valid_wg_key key \<longleftrightarrow> (\<exists>b. strip key = b @ ''='' \<and> length b = 43 \<and> list_all b64_char b)"
proof
  assume valid: "is_valid_wg_key key"
  let ?k = "strip key"
  let ?pad = "dropWhile b64_char ?k"
  have k: "length ?k = 44" "last ?k = CHR ''=''" "b64_decoded_length ?k = Some 32"
    using valid by (auto simp: is_valid_wg_key_def Let_def split: if_splits option.splits)
  then have pad: "list_all (\<lambda>c. c = CHR ''='') ?pad" "length ?pad = 1"
    by (auto simp: b64_decoded_length_def Let_def split: if_splits)
  then have one: "?pad = ''=''" by (cases ?pad) auto
  have split: "?k = takeWhile b64_char ?k @ ''=''" using takeWhile_dropWhile_id[of b64_char ?k] one by simp
  have "length (takeWhile b64_char ?k) = 43" using k(1) arg_cong[OF split, of length] by simp
  moreover have "list_all b64_char (takeWhile b64_char ?k)" by (auto simp: list_all_iff dest: set_takeWhileD)
  ultimately show "\<exists>b. ?k = b @ ''='' \<and> length b = 43 \<and> list_all b64_char b" using split by blast
next
  assume "\<exists>b. strip key = b @ ''='' \<and> length b = 43 \<and> list_all b64_char b"
  then obtain b where b: "strip key = b @ ''=''" "length b = 43" "list_all b64_char b" by blast
  have "takeWhile b64_char (b @ ''='') = b" "dropWhile b64_char (b @ ''='') = ''=''"
    using b(3) b64_not_pad by (auto simp: list_all_iff takeWhile_append dropWhile_append)
  then show "is_valid_wg_key key"
    using b by (simp add: is_valid_wg_key_def b64_decoded_length_def Let_def)
qed

section \<open>The pool of peer addresses\<close>

definition peers_in_pool :: "db \<Rightarrow> bool" where
  "peers_in_pool d \<longleftrightarrow> db_ok d \<and> (\<forall>p \<in> set (peers d). ip_address p \<in> set peer_candidate_ips)"

definition peer_address :: "string \<Rightarrow> db \<Rightarrow> string option" where
  "peer_address user d = map_option ip_address (get_peer user d)"

definition claim_address ::
  "owner \<Rightarrow> string \<Rightarrow> string option \<Rightarrow> string \<Rightarrow> db \<Rightarrow> (exc + string) \<times> db" where
  "claim_address ow pub priv user d =
     (case allocate_peer ow user pub peer_candidate_ips priv d of
        (Inl e, d') \<Rightarrow> (Inl e, d') | (Inr p, d') \<Rightarrow> (Inr (ip_address p), d'))"

lemma candidate_wg: "c \<in> set peer_candidate_ips \<Longrightarrow> wg_host_text c"
proof -
  assume "c \<in> set peer_candidate_ips"
  then obtain a where a: "a \<in> set (hosts WG_SUBNET)" "c = ip_str a"
    by (auto simp: peer_candidate_ips_def ordered_subnet_hosts_def)
  then have "in_net a WG_SUBNET"
    by (auto simp: hosts_def WG_SUBNET_def net_size_def in_net_def ip_of_octets_def)
  then show ?thesis using a(2) unfolding wg_host_text_def by blast
qed

lemma server_not_candidate: "WG_SERVER_IP \<notin> set peer_candidate_ips"
  by (auto simp: peer_candidate_ips_def ordered_subnet_hosts_def)

lemma ordered_hosts_filter:
  "ordered_subnet_hosts n reserved = filter (\<lambda>s. s \<notin> set reserved) (map ip_str (hosts n))"
proof -
  have "[f h. h \<leftarrow> hs, f h \<notin> A] = filter (\<lambda>s. s \<notin> A) (map f hs)" for f :: "nat \<Rightarrow> string" and A hs
    by (induction hs) auto
  then show ?thesis by (simp add: ordered_subnet_hosts_def)
qed

lemma hosts_wg: "hosts WG_SUBNET = [168296449 ..< 168296703]"
  by (simp add: hosts_def WG_SUBNET_def net_size_def ip_of_octets_def del: upt_rec_numeral)

lemma length_filter_one:
  "distinct xs \<Longrightarrow> x \<in> set xs \<Longrightarrow> Suc (length (filter (\<lambda>s. s \<noteq> x) xs)) = length xs"
proof (induction xs)
  case (Cons y ys)
  show ?case
  proof (cases "x = y")
    case True
    then have "filter (\<lambda>s. s \<noteq> x) ys = ys" using Cons.prems(1) by (intro filter_eq_self) auto
    then show ?thesis using True by simp
  qed (use Cons in auto)
qed simp

lemma length_candidates: "length peer_candidate_ips = 253"
proof -
  let ?all = "map ip_str (hosts WG_SUBNET)"
  have "ip_str 168296449 = joins ''.'' (map str_nat [10, 8, 0, 1])" by (simp add: ip_str_def ip_octets_def)
  also have "\<dots> = WG_SERVER_IP" by code_simp
  finally have "WG_SERVER_IP = ip_str 168296449" by simp
  moreover have "168296449 \<in> set (hosts WG_SUBNET)" unfolding hosts_wg set_upt by simp
  ultimately have "WG_SERVER_IP \<in> set ?all" unfolding set_map by (rule image_eqI)
  moreover have "distinct ?all" by (rule distinct_host_strs) simp
  ultimately have "Suc (length (filter (\<lambda>s. s \<noteq> WG_SERVER_IP) ?all)) = length ?all"
    by (intro length_filter_one)
  then show ?thesis
    unfolding peer_candidate_ips_def ordered_hosts_filter
    by (simp add: hosts_wg del: upt_rec_numeral)
qed

lemma get_peer_after:
  assumes "db_ok d" "allocate_peer ow user pub cands priv d = (Inr p, d')"
  shows "get_peer u d' = (if u = user then Some p else get_peer u d)"
proof -
  note new = allocate_peer_Inr[OF assms(2)]
  have "find (\<lambda>q. username q = user) (peers d) = None"
    using new(13) by (auto simp: find_None_iff)
  then show ?thesis using new(1,8) by (auto simp: get_peer_def find_append split: option.splits)
qed

lemma get_peer_removed:
  "remove_peer_row user d = (b, d') \<Longrightarrow>
   get_peer u d' = (if u = user then None else get_peer u d) \<and> b = (get_peer user d \<noteq> None)"
  by (auto simp: remove_peer_row_def get_peer_def find_filter_other list_ex_iff find_None_iff simp del: not_None_eq)

interpretation wp: exclusive_pool peers_in_pool "set peer_candidate_ips" peer_address
  "claim_address ow pub priv" remove_peer_row for ow pub priv
proof
  fix s k v assume ok: "peers_in_pool s" and v: "peer_address k s = Some v"
  obtain p where p: "get_peer k s = Some p" "ip_address p = v" using v by (auto simp: peer_address_def)
  then have in_peers: "p \<in> set (peers s)" "username p = k"
    using ok by (auto simp: peers_in_pool_def db_ok_def peers_ok_def get_peer_Some)
  show "v \<in> set peer_candidate_ips" using ok in_peers p by (auto simp: peers_in_pool_def)
  fix k' assume v': "peer_address k' s = Some v"
  obtain q where q: "get_peer k' s = Some q" "ip_address q = v" using v' by (auto simp: peer_address_def)
  then have "q \<in> set (peers s)" "username q = k'"
    using ok by (auto simp: peers_in_pool_def db_ok_def peers_ok_def get_peer_Some)
  then show "k = k'"
    using in_peers p(2) q(2) ok distinct_map_inj[of ip_address "peers s" p q]
    by (auto simp: peers_in_pool_def db_ok_def peers_ok_def)
next
  fix s k r s' assume ok: "peers_in_pool s" and claim: "claim_address ow pub priv k s = (r, s')"
  obtain x where x: "allocate_peer ow k pub peer_candidate_ips priv s = (x, s')"
    using claim by (auto simp: claim_address_def split: prod.splits sum.splits)
  show "peers_in_pool s'"
    using ok x allocate_peer_ok[OF _ x] candidate_wg allocate_peer_Inl[of ow k pub peer_candidate_ips priv s _ s']
      allocate_peer_Inr(1,11)[of ow k pub peer_candidate_ips priv s _ s']
    by (cases x) (auto simp: peers_in_pool_def)
  show "peer_address k' s' = peer_address k' s" if "k' \<noteq> k" for k'
    using ok x that allocate_peer_Inl[of ow k pub peer_candidate_ips priv s _ s']
      get_peer_after[of s ow k pub peer_candidate_ips priv _ s']
    by (cases x) (auto simp: peers_in_pool_def peer_address_def)
next
  fix s k v s' assume ok: "peers_in_pool s" and claim: "claim_address ow pub priv k s = (Inr v, s')"
  then obtain p where "allocate_peer ow k pub peer_candidate_ips priv s = (Inr p, s')" "ip_address p = v"
    by (auto simp: claim_address_def split: prod.splits sum.splits)
  then show "peer_address k s' = Some v"
    using ok get_peer_after[of s ow k pub peer_candidate_ips priv p s']
    by (auto simp: peers_in_pool_def peer_address_def)
next
  fix s k e s' assume "claim_address ow pub priv k s = (Inl e, s')"
  then show "s' = s" using allocate_peer_Inl[of ow k pub peer_candidate_ips priv s e s']
    by (auto simp: claim_address_def split: prod.splits sum.splits)
next
  fix s k v assume ok: "peers_in_pool s" and free: "peer_address k s = None"
    and v: "v \<in> set peer_candidate_ips" "\<And>k'. peer_address k' s \<noteq> Some v"
  have "v \<notin> set (get_used_peer_ips s)"
  proof
    assume "v \<in> set (get_used_peer_ips s)"
    then obtain p where "p \<in> set (peers s)" "ip_address p = v" by (auto simp: get_used_peer_ips_def)
    then have "peer_address (username p) s = Some v"
      using ok get_peer_Some[of s "username p" p] by (auto simp: peer_address_def peers_in_pool_def db_ok_def peers_ok_def)
    then show False using v(2) by blast
  qed
  then show "\<exists>u s'. claim_address ow pub priv k s = (Inr u, s')"
    using v(1) free allocate_peer_Inl[of ow k pub peer_candidate_ips priv s]
    by (cases "allocate_peer ow k pub peer_candidate_ips priv s"; cases "fst (allocate_peer ow k pub peer_candidate_ips priv s)")
      (auto simp: claim_address_def peer_address_def)
next
  fix s k b s' assume ok: "peers_in_pool s" and rel: "remove_peer_row k s = (b, s')"
  show "peers_in_pool s'"
    using ok rel remove_peer_row_ok[OF _ rel] by (auto simp: peers_in_pool_def remove_peer_row_def)
  show "peer_address k s' = None \<and> b = (peer_address k s \<noteq> None)"
    using get_peer_removed[OF rel, of k] by (auto simp: peer_address_def)
  show "peer_address k' s' = peer_address k' s" if "k' \<noteq> k" for k'
    using get_peer_removed[OF rel, of k'] that by (auto simp: peer_address_def)
qed

section \<open>Adding and removing in the database\<close>

lemma holds_keypair [keeps]: "P (store s) \<Longrightarrow> holds P (generate_keypair h s)"
  unfolding generate_keypair_def called_as_def by (intro keeps)

lemma holds_choose_keys [keeps]: "P (store s) \<Longrightarrow> holds P (choose_keys h k s)"
  unfolding choose_keys_def by (intro keeps)

lemma holds_install_peer [keeps]: "P (store s) \<Longrightarrow> holds P (install_peer h fs server dir p s)"
  unfolding install_peer_def finish_install_def append_peer_to_server_config_def live_add_peer_def
  by (intro keeps)

lemma holds_rewrite [keeps]: "P (store s) \<Longrightarrow> holds P (rewrite_server_config fs user s)"
  unfolding rewrite_server_config_def by (intro keeps)

text \<open>
  Adding is all or nothing in the table of peers: after an exception, whatever its cause, the
  table is the one before the call (the id counter may have advanced).
\<close>

definition peer_added :: "owner \<Rightarrow> string \<Rightarrow> db \<Rightarrow> peer \<Rightarrow> db \<Rightarrow> bool" where
  "peer_added ow user d p d' \<longleftrightarrow>
     (\<exists>pub priv. allocate_peer ow user pub peer_candidate_ips priv d = (Inr p, d'))"

lemma insert_and_install_outcome:
  assumes "store s = d"
  shows "outcome (\<lambda>cc s'. peer_added ow user d (cl_peer cc) (store s'))
     (\<lambda>_ s'. store s' = d \<or> store s' = d\<lparr>peer_seq := peer_seq d + 1\<rparr>)
     (insert_and_install h fs ow user server dir pub priv s)"
proof (cases "allocate_peer ow user pub peer_candidate_ips priv d")
  case (Pair r d1)
  show ?thesis
  proof (cases r)
    case (Inl e)
    then show ?thesis
      using Pair assms allocate_peer_Inl by (fastforce simp: on_db_def insert_and_install_def)
  next
    case (Inr p)
    have added: "peer_added ow user d p d1" using Pair Inr unfolding peer_added_def by blast
    have rolled: "remove_peer_row user d1 = (True, d\<lparr>peer_seq := peer_seq d + 1\<rparr>)"
      using remove_allocated_peer Pair Inr by blast
    show ?thesis
      using assms Pair Inr added rolled unfolding insert_and_install_def
      by (auto simp: outcome_on_db outcome_db_call intro!: outcome_at[OF holds_install_peer, where d = d1])
  qed
qed

lemma add_peer_outcome:
  "outcome (\<lambda>cc s'. peer_added ow user (store s) (cl_peer cc) (store s'))
     (\<lambda>_ s'. store s' = store s \<or> store s' = (store s)\<lparr>peer_seq := peer_seq (store s) + 1\<rparr>)
     (add_peer h fs ow user server dir key s)"
  unfolding add_peer_def outcome_and_then
  by (rule outcome_same[OF holds_choose_keys[OF refl]]) (auto intro: insert_and_install_outcome)

lemma remove_peer_outcome:
  "outcome (\<lambda>removed s'. store s' = snd (remove_peer_row user (store s)) \<and> removed = (get_peer user (store s) \<noteq> None))
     (\<lambda>_ s'. store s' = store s \<or> store s' = snd (remove_peer_row user (store s)))
     (remove_peer h fs user dir s)"
proof (cases "get_peer user (store s)")
  case None
  then have "filter (\<lambda>p. username p \<noteq> user) (peers (store s)) = peers (store s)"
    by (intro filter_eq_self) (auto simp: get_peer_None)
  then show ?thesis using None by (simp add: remove_peer_def remove_peer_row_def)
next
  case (Some p)
  let ?d = "store s" and ?d1 = "snd (remove_peer_row user (store s))"
  have row: "\<And>b d. remove_peer_row user ?d = (b, d) \<Longrightarrow> d = ?d1" by simp
  show ?thesis
    unfolding remove_peer_def live_remove_peer_def drop_peer_def Let_def
    by (auto simp: Some outcome_db_call split: prod.splits dest!: row
        intro!: outcome_world_at outcome_at[OF holds_rewrite])
qed

text \<open>What a property of the database must satisfy to be kept by adding and removing peers.\<close>

locale enrolled =
  fixes P :: "db \<Rightarrow> bool"
  assumes enrol: "P d \<Longrightarrow> allocate_peer ow user pub peer_candidate_ips priv d = (Inr p, d') \<Longrightarrow> P d'"
    and counted: "P d \<Longrightarrow> P (d\<lparr>peer_seq := peer_seq d + 1\<rparr>)"
    and expel: "P d \<Longrightarrow> P (snd (remove_peer_row user d))"
begin

lemma joining:
  assumes "P (store s)"
  shows "holds P (add_peer h fs ow user server dir key s)"
proof -
  have "P d'" if "peer_added ow user (store s) p d'" for p d'
    using that enrol[OF assms] unfolding peer_added_def by blast
  then show ?thesis
    using add_peer_outcome[of ow user s h fs server dir key] counted[OF assms] assms
    by (cases "add_peer h fs ow user server dir key s"; cases "fst (add_peer h fs ow user server dir key s)")
      (auto simp: holds_def)
qed

lemma leaving:
  assumes "P (store s)"
  shows "holds P (remove_peer h fs user dir s)"
  using remove_peer_outcome[of user s h fs dir] expel[OF assms] assms
  by (cases "remove_peer h fs user dir s"; cases "fst (remove_peer h fs user dir s)") (auto simp: holds_def)

end

interpretation pool: enrolled peers_in_pool
proof
  fix d ow user pub priv p d'
  assume ok: "peers_in_pool d"
  show "peers_in_pool d'" if "allocate_peer ow user pub peer_candidate_ips priv d = (Inr p, d')"
  proof (rule wp.claim_inv[OF ok])
    show "claim_address ow pub priv user d = (Inr (ip_address p), d')" using that by (simp add: claim_address_def)
  qed
  show "peers_in_pool (d\<lparr>peer_seq := peer_seq d + 1\<rparr>)"
    using ok by (fastforce simp: peers_in_pool_def db_ok_def peers_ok_def octets_ok_def instances_ok_def)
  show "peers_in_pool (snd (remove_peer_row user d))"
    using ok wp.release_inv[OF ok, of user] by (cases "remove_peer_row user d") auto
qed

end
