(* ===== verification/Daemon_Laws.thy ===== *)
theory Daemon_Laws
  imports Daemon_Rpc Container_Laws Wireguard_Laws
begin

text \<open>
  What the RPC server keeps, request by request: the rules for its handlers, for one connection
  and for a whole session, stated for every property of the database that the operations on
  containers (\<open>tracked\<close>) and on peers (\<open>enrolled\<close>) keep; then who may do anything at all, and what
  the single requests guarantee.
\<close>

section \<open>Every request keeps the invariant\<close>

lemma holds_firewall [keeps]: "P (store s) \<Longrightarrow> holds P (rebuild_firewall v s)"
  unfolding rebuild_firewall_def by (intro keeps)

lemma holds_load_config [keeps]: "P (store s) \<Longrightarrow> holds P (load_server_config h fs e p s)"
  unfolding load_server_config_def parse_interface_section_def derive_pubkey_def called_as_def Let_def
  by (intro keeps)

lemma send_reply_state [simp]: "snd (send_reply kwargs s) = s"
  by (simp add: send_reply_def)

lemma run_handler_state [simp]: "snd (run_handler f params s) = snd (f (or_empty params) s)"
  by (simp add: run_handler_def split: prod.split sum.split)

locale service_law = tracked P + enrolled P for P :: "db \<Rightarrow> bool"
begin

lemma ensure_peer_law: "P (store s) \<Longrightarrow> holds P (ensure_peer v ow user s)"
  unfolding ensure_peer_def Let_def by (intro keeps joining)

lemma peer_handlers:
  assumes "P (store s)"
  shows "holds P (handle_ping params s)" "holds P (handle_wg_ensure_peer v params s)"
    "holds P (handle_wg_remove_peer v params s)" "holds P (handle_wg_render_config v params s)"
  unfolding handle_ping_def handle_wg_ensure_peer_def handle_wg_remove_peer_def handle_wg_render_config_def
  by (intro keeps ensure_peer_law leaving assms; assumption)+

lemma container_handlers:
  assumes "P (store s)"
  shows "holds P (handle_container_ensure_instance v params s)"
    "holds P (handle_container_release_instance v params s)"
    "holds P (handle_container_reconcile v params s)" "holds P (handle_container_inspect v params s)"
    "holds P (handle_kill_switch v params s)"
  unfolding handle_container_ensure_instance_def handle_container_release_instance_def
    handle_container_reconcile_def handle_container_inspect_def handle_kill_switch_def
  by (intro keeps spawn release reconciled teardown assms; assumption)+

lemma method_law:
  assumes "P (store s)" "map_of (METHODS v) name = Some f"
  shows "holds P (f params s)"
proof -
  have "f \<in> snd ` set (METHODS v)" using assms(2) map_of_SomeD by force
  then show ?thesis
    unfolding METHODS_def using peer_handlers[OF assms(1)] container_handlers[OF assms(1)] by auto
qed

lemma dispatch_law: "P (store s) \<Longrightarrow> P (store (snd (dispatch v req s)))"
  unfolding dispatch_def using method_law unfolding holds_def
  by (auto split: sum.split option.split json.split)

lemma connection: "P (store s) \<Longrightarrow> P (store (snd (serve_one v uid evs s)))"
  unfolding serve_one_def using dispatch_law
  by (auto split: sum.split bool.split prod.split received.split loaded.split)

lemma session: "P (store s) \<Longrightarrow> P (store (serve_session v conns s))"
  by (induction v conns s rule: serve_session.induct) (simp_all add: connection)

end

locale startup_law = service_law P + adopting P for P :: "db \<Rightarrow> bool"
begin

lemma survived: "holds P (f s) \<Longrightarrow> holds P (survive f s)"
  unfolding survive_def by (intro keeps)

lemma started:
  assumes "P (store s)"
  shows "holds P (start_up v s)"
  unfolding start_up_def init_server_def bring_up_def generate_keypair_def called_as_def Let_def
  by (intro keeps survived adopted reconciled assms; (rule assms | assumption))

lemma daemon_run: "P (store s) \<Longrightarrow> P (store (run_daemon v conns s))"
  using started[of s v] session unfolding run_daemon_def holds_def
  by (auto split: prod.split sum.split bool.split)

end

text \<open>
  The invariant of the daemon: the constraints of the tables, an octet for every owner that has an
  instance, and peer addresses from the candidates. Start-up keeps it without the second part:
  an adopted container's owner need not have an octet.
\<close>

definition service_ok :: "db \<Rightarrow> bool" where
  "service_ok d \<longleftrightarrow> daemon_ok d \<and> peers_in_pool d"

lemma pool_kept:
  assumes "peers_in_pool d"
  shows "peers_in_pool (snd (allocate_octet ow d))" "peers_in_pool (snd (remove_instance cid d))"
    "peers_in_pool (snd (update_instance_status cid st d))" "peers_in_pool (snd (free_octet ow d))"
    "peers_in_pool (snd (add_instance cid cname ow chal ip ps expi st pub d))"
  using assms by (simp_all add: peers_in_pool_def tables_kept allocate_octet_frame peers_frame)

interpretation boot: startup_law peers_in_pool
  by unfold_locales (simp_all add: pool_kept, simp add: peers_in_pool_def)

lemma daemon_ok_peers:
  assumes "daemon_ok d" "db_ok d'" "octets d' = octets d" "instances d' = instances d"
  shows "daemon_ok d'"
  using assms by (simp add: daemon_ok_def housed_def get_octet_def)

interpretation kept: service_law service_ok
proof
  fix d ow user pub priv p d'
  assume ok: "service_ok d"
  show "service_ok d'" if "allocate_peer ow user pub peer_candidate_ips priv d = (Inr p, d')"
    using ok pool.enrol[OF _ that] daemon_ok_peers[of d d'] allocate_peer_Inr(4,5)[OF that]
    by (simp add: service_ok_def peers_in_pool_def)
  show "service_ok (d\<lparr>peer_seq := peer_seq d + 1\<rparr>)"
    using ok pool.counted[of d] daemon_ok_peers[of d "d\<lparr>peer_seq := peer_seq d + 1\<rparr>"]
    by (simp add: service_ok_def peers_in_pool_def)
  show "service_ok (snd (remove_peer_row user d))"
    using ok pool.expel[of d user] daemon_ok_peers[of d "snd (remove_peer_row user d)"]
    by (simp add: service_ok_def peers_in_pool_def remove_peer_row_def)
qed (simp_all add: service_ok_def pool_kept daemon.allocate daemon.add daemon.remove daemon.update daemon.free,
    simp add: daemon_ok_def)

section \<open>Who is served\<close>

lemma authorized_iff:
  "authorized v uid = Inr True \<longleftrightarrow>
     uid = 0 \<or> (\<exists>t. allowed_uid v = Some t \<and> int_of_text t = Inr uid)"
  by (auto simp: authorized_def sum_bind_def split: option.splits sum.splits)

lemma refused_unchanged:
  assumes "authorized v uid \<noteq> Inr True"
  shows "snd (serve_one v uid evs s) = s"
proof (cases "authorized v uid")
  case (Inr b)
  then show ?thesis using assms by (cases b) (simp_all add: serve_one_def)
qed (simp add: serve_one_def)

lemma refused_reply:
  assumes "authorized v uid = Inr False"
  shows "serve_one v uid evs s = send_reply (error_reply ''unauthorized'') s"
  using assms by (simp add: serve_one_def)

lemma reply_frame:
  "length (dumps '','' '':'' (JObj kvs)) < 4294967296 \<Longrightarrow>
   \<exists>h. pack_be32 (length (dumps '','' '':'' (JObj kvs))) = Inr h \<and>
       reply kvs = Inr (h @ dumps '','' '':'' (JObj kvs))"
  by (simp add: reply_def frame_def pack_be32_def)

section \<open>The kill switch\<close>

lemma killed_keeps_peers: "holds (\<lambda>d. peers d = peers (store s)) (handle_kill_switch v params s)"
proof -
  have "holds (\<lambda>d. peers d = peers (store s)) (teardown_loop m is n s1)"
    if "peers (store s1) = peers (store s)" for m :: "'a machine" and "is" n s1
    using that
  proof (induction "is" arbitrary: n s1)
    case (Cons i "is")
    show ?case
      unfolding teardown_loop.simps
      by (intro holds_and_then holds_release_instance Cons) (simp_all add: peers_frame Cons.prems)
  qed (simp add: holds_def)
  then show ?thesis unfolding handle_kill_switch_def teardown_all_def by (intro keeps) simp_all
qed

text \<open>
  The count of a teardown is the number of rows it removed; when it counts every running row, no
  container that was marked as running is left in the table.
\<close>

definition gone :: "inst list \<Rightarrow> db \<Rightarrow> bool" where
  "gone is d \<longleftrightarrow> container_id ` set is \<inter> container_id ` set (instances d) = {}"

lemma released_shrinks: "released cid d b d' \<Longrightarrow> set (instances d') \<subseteq> set (instances d) \<and> cid \<notin> container_id ` set (instances d')"
  by (auto simp: released_def)

lemma teardown_loop_outcome:
  "outcome (\<lambda>n s'. set (instances (store s')) \<subseteq> set (instances (store s)) \<and>
       n \<le> n0 + int (length is) \<and> (n = n0 + int (length is) \<longrightarrow> gone is (store s')))
     (\<lambda>_ _. True) (teardown_loop m is n0 s)"
proof (induction "is" arbitrary: n0 s)
  case (Cons i "is")
  have step: "outcome (\<lambda>b s1. set (instances (store s1)) \<subseteq> set (instances (store s)) \<and>
      (b \<longrightarrow> container_id i \<notin> container_id ` set (instances (store s1)))) (\<lambda>_ _. True)
      (release_instance m (container_id i) s)"
    by (rule outcome_mono[OF release_instance_outcome]) (auto dest: released_shrinks)
  show ?case
    unfolding teardown_loop.simps outcome_and_then
  proof (rule outcome_mono[OF step], goal_cases)
    case (1 b s1)
    show ?case
      by (rule outcome_mono[OF Cons.IH]) (use 1 in \<open>auto simp: gone_def split: if_splits\<close>)
  qed simp
qed (simp add: gone_def)

lemma killed_running:
  "outcome (\<lambda>r s'. \<exists>n. r = JObj [(''containers_removed'', JInt n)] \<and>
       n \<le> int (length (get_active_instances (store s))) \<and>
       (n = int (length (get_active_instances (store s))) \<longrightarrow> gone (get_active_instances (store s)) (store s')))
     (\<lambda>_ _. True) (handle_kill_switch v params s)"
  unfolding handle_kill_switch_def teardown_all_def outcome_and_then
proof (rule outcome_mono[OF teardown_loop_outcome], goal_cases)
  case (1 n s1)
  show ?case
    by (rule outcome_same[OF holds_firewall[OF refl]]) (use 1 in auto)
qed simp

section \<open>Peers\<close>

lemma ensure_peer_existing:
  assumes "get_peer user (store s) = Some p"
  shows "outcome (\<lambda>r s'. store s' = store s \<and> (\<exists>server. r = peer_reply p server))
     (\<lambda>_ s'. store s' = store s) (ensure_peer v ow user s)"
  unfolding ensure_peer_def Let_def
  by (simp add: assms) (rule outcome_same[OF holds_load_config[OF refl]], auto)

lemma ensure_peer_new:
  assumes "get_peer user (store s) = None"
  shows "outcome
     (\<lambda>r s'. \<exists>p server. r = peer_reply p server \<and> peer_added ow user (store s) p (store s') \<and>
        get_peer user (store s') = Some p)
     (\<lambda>_ s'. store s' = store s \<or> store s' = (store s)\<lparr>peer_seq := peer_seq (store s) + 1\<rparr> \<or>
        (\<exists>p. peer_added ow user (store s) p (store s'))) (ensure_peer v ow user s)"
proof -
  have got: "get_peer user d' = Some p" if "peer_added ow user (store s) p d'" for p d'
  proof -
    from that obtain pub priv where new: "allocate_peer ow user pub peer_candidate_ips priv (store s) = (Inr p, d')"
      unfolding peer_added_def by blast
    show ?thesis
      using assms allocate_peer_Inr(1,8)[OF new] by (simp add: get_peer_def find_append)
  qed
  have added: "outcome (\<lambda>cc s'. peer_added ow user (store s) (cl_peer cc) (store s'))
     (\<lambda>_ s'. store s' = store s \<or> store s' = (store s)\<lparr>peer_seq := peer_seq (store s) + 1\<rparr>)
     (add_peer h fs ow user server dir key s1)" if "store s1 = store s" for h :: "'a host" and fs server dir key s1
    using add_peer_outcome[of ow user s1 h fs server dir key] that by simp
  show ?thesis
    unfolding ensure_peer_def Let_def outcome_and_then
    apply (simp add: assms)
    apply (rule outcome_same[OF holds_load_config[OF refl]])
     apply (rule outcome_mono[OF added])
       apply assumption
      apply (rule outcome_same[OF holds_firewall[OF refl]])
       apply (auto intro: got)
    done
qed

end
