(* ===== verification/Daemon_Threads.thy ===== *)
theory Daemon_Threads
  imports Daemon_Laws
begin

text \<open>
  Concurrent requests. The daemon serves every connection in a thread of its own, and the only
  lock around a request is the semaphore of the spawns, which lets four of them run at a time
  unless configured otherwise; the relation does not bound them. A spawn is long: between the call
  of \<open>ensure_owner_network\<close> and the record of its container lies the build of the image. The runs
  of \<open>thread_step\<close> interleave the two halves of the spawns with the other requests, each of which
  is one step; \<open>ph t = Some (q, k)\<close> says that thread \<open>t\<close> holds octet \<open>k\<close> for request \<open>q\<close> and is
  building. \<open>Octet_Race\<close> splits the allocation of an octet further.
\<close>

section \<open>Steps\<close>

type_synonym ('w, 't) threads = "'w daemon \<times> ('t \<Rightarrow> (spawn_request \<times> int) option)"

inductive thread_step :: "'w service \<Rightarrow> ('w, 't) threads \<Rightarrow> ('w, 't) threads \<Rightarrow> bool" for v :: "'w service" where
  begun: "ph t = None \<Longrightarrow> find_instance (sr_owner q) (sr_challenge q) (store s) = None \<Longrightarrow>
     ensure_owner_network (machine_of v) (sr_owner q) s = (Inr k, s') \<Longrightarrow>
     thread_step v (s, ph) (s', ph(t \<mapsto> (q, k)))"
| refused: "find_instance (sr_owner q) (sr_challenge q) (store s) = None \<Longrightarrow>
     ensure_owner_network (machine_of v) (sr_owner (q :: spawn_request)) s = (Inl e, s') \<Longrightarrow>
     thread_step v (s, ph) (s', ph)"
| finished: "ph t = Some (q, k) \<Longrightarrow> build_and_run (machine_of v) q k s = (r, s') \<Longrightarrow>
     thread_step v (s, ph) (s', ph(t := None))"
| released: "release_instance (machine_of v) cid s = (r, s') \<Longrightarrow> thread_step v (s, ph) (s', ph)"
| rebuilt: "rebuild_firewall v s = (r, s') \<Longrightarrow> thread_step v (s, ph) (s', ph)"
| served: "map_of (METHODS v) name = Some f \<Longrightarrow> f params s = (r, s') \<Longrightarrow> thread_step v (s, ph) (s', ph)"

inductive_cases thread_stepE: "thread_step v (s, ph) (s', ph')"

definition thread_runs :: "'w service \<Rightarrow> ('w, 't) threads \<Rightarrow> ('w, 't) threads \<Rightarrow> bool" where
  "thread_runs v = (thread_step v)\<^sup>*\<^sup>*"

text \<open>The handler of a spawn, alone, is a run of these steps.\<close>

lemma spawn_halves:
  assumes "ph t = None"
  shows "thread_runs v (s, ph) (snd (spawn_instance (machine_of v) q s), ph)"
proof -
  let ?m = "machine_of v"
  show ?thesis
  proof (cases "find_instance (sr_owner q) (sr_challenge q) (store s) = None \<and> is_file ?m (sr_path q @ ''/Dockerfile'') (world s)")
    case True
    obtain r s1 where net: "ensure_owner_network ?m (sr_owner q) s = (r, s1)" by fastforce
    show ?thesis
    proof (cases r)
      case (Inl e)
      then show ?thesis
        using True net by (auto simp: spawn_instance_def thread_runs_def intro: thread_step.refused)
    next
      case (Inr k)
      obtain r' s2 where run: "build_and_run ?m q k s1 = (r', s2)" by fastforce
      have first: "thread_step v (s, ph) (s1, ph(t \<mapsto> (q, k)))"
        using True assms net Inr by (intro thread_step.begun) auto
      have "thread_step v (s1, ph(t \<mapsto> (q, k))) (s2, (ph(t \<mapsto> (q, k)))(t := None))"
        by (rule thread_step.finished[OF _ run]) simp
      then have "thread_step v (s1, ph(t \<mapsto> (q, k))) (s2, ph)" using assms by (simp add: fun_upd_idem)
      then show ?thesis
        using True net Inr run first
        by (auto simp: spawn_instance_def thread_runs_def intro: converse_rtranclp_into_rtranclp)
    qed
  qed (auto simp: spawn_instance_def thread_runs_def split: option.split)
qed

section \<open>What every interleaving keeps\<close>

context service_law
begin

text \<open>All steps but the end of a spawn keep the property on their own.\<close>

lemma thread_law:
  assumes "thread_step v (s, ph) (s', ph')" "P (store s)"
    and last: "\<And>t q k. ph t = Some (q, k) \<Longrightarrow> holds P (build_and_run (machine_of v) q k s)"
  shows "P (store s')"
  using assms(1)
proof cases
  case (begun t q k)
  then show ?thesis using holds_ensure[of P "sr_owner q" s "machine_of v"] allocate[OF assms(2)] by (simp add: holds_def)
next
  case (refused q e)
  then show ?thesis using holds_ensure[of P "sr_owner q" s "machine_of v"] allocate[OF assms(2)] by (simp add: holds_def)
next
  case (finished t q k r)
  then show ?thesis using last[of t q k] by (simp add: holds_def)
next
  case (released cid r)
  then show ?thesis using release[OF assms(2), of "machine_of v" cid] by (simp add: holds_def)
next
  case (rebuilt r)
  then show ?thesis using holds_firewall[of P s v] assms(2) by (simp add: holds_def)
next
  case (served name f params r)
  then show ?thesis using method_law[OF assms(2), of v name f params] by (simp add: holds_def)
qed

lemma last_law:
  assumes "P (store s)" "get_octet (sr_owner q) (store s) \<noteq> None"
  shows "holds P (build_and_run m q k s)"
  using build_and_run_outcome[of s "store s" q k m, OF refl] assms
  by (cases "build_and_run m q k s"; cases "fst (build_and_run m q k s)")
    (auto simp: holds_def spawn_end_def intro: recorded)

end

text \<open>A property that does not depend on who has an octet is kept by every run.\<close>

context startup_law
begin

lemma recorded_anyway: "P d \<Longrightarrow> new_instance q pl i d d' \<Longrightarrow> P d'"
  unfolding new_instance_def by (metis adopt snd_conv)

lemma unhoused_law: "P (store s) \<Longrightarrow> holds P (build_and_run m q k s)"
  using build_and_run_outcome[of s "store s" q k m, OF refl]
  by (cases "build_and_run m q k s"; cases "fst (build_and_run m q k s)")
    (auto simp: holds_def spawn_end_def intro: recorded_anyway)

lemma thread_runs_law: "thread_runs v x y \<Longrightarrow> P (store (fst x)) \<Longrightarrow> P (store (fst y))"
  unfolding thread_runs_def
proof (induction rule: rtranclp_induct)
  case (step y z)
  then show ?case
    using thread_law[of v "fst y" "snd y" "fst z" "snd z"] unhoused_law[of "fst y"] by simp
qed simp

end

section \<open>What needs the octets held\<close>

text \<open>
  \<open>octets_held\<close>: every spawn that is building still has, in the table, the octet it was given. The code
  does not ensure it: a release by the same owner may free the octet meanwhile.
\<close>

definition octets_held :: "('w, 't) threads \<Rightarrow> bool" where
  "octets_held x \<longleftrightarrow> (\<forall>t q k. snd x t = Some (q, k) \<longrightarrow> get_octet (sr_owner q) (store (fst x)) = Some k)"

definition held_runs :: "'w service \<Rightarrow> ('w, 't) threads \<Rightarrow> ('w, 't) threads \<Rightarrow> bool" where
  "held_runs v = (\<lambda>x y. thread_step v x y \<and> octets_held y)\<^sup>*\<^sup>*"

context service_law
begin

lemma held_runs_law:
  assumes "held_runs v x y" "octets_held x" "P (store (fst x))"
  shows "P (store (fst y)) \<and> octets_held y"
  using assms unfolding held_runs_def
proof (induction rule: rtranclp_induct)
  case (step y z)
  then have "P (store (fst y))" "octets_held y" "thread_step v y z" "octets_held z" by auto
  then show ?case
    using thread_law[of v "fst y" "snd y" "fst z" "snd z"] last_law[of "fst y"] by (auto simp: octets_held_def)
qed simp

end

text \<open>A run holds the octets when no step frees the octet of an owner whose spawn is building.\<close>

lemma begun_holds:
  assumes "db_ok (store s)" "ensure_owner_network m (sr_owner q) s = (Inr k, s')" "octets_held (s, ph)"
  shows "octets_held (s', ph(t \<mapsto> (q, k)))"
proof -
  note net = ensure_owner_network_Inr[OF assms(2)]
  have "get_octet (sr_owner q) (store s') = Some k" using op.claim_held[OF assms(1) net] .
  moreover have "get_octet ow (store s') = Some j" if "get_octet ow (store s) = Some j" for ow j
    using op.claim_keeps_all[OF assms(1) net] that by blast
  ultimately show ?thesis using assms(3) by (auto simp: octets_held_def)
qed

end
