(* ===== verification/Wg_Config_File.thy ===== *)
theory Wg_Config_File
  imports Wireguard_Laws
begin

text \<open>
  The server configuration file of \<open>Wireguard\<close>: what the daemon writes reads back with the same
  private key, however many peers were appended; and with the documented behaviour of files the
  \<open>[Peer]\<close> blocks of the file stay the rows of the table when a peer is added or removed. Also
  what happens when adding a peer fails half way: the row is rolled back, the block is not.
\<close>

section \<open>The form of the file\<close>

definition config_form :: "int \<Rightarrow> string \<Rightarrow> peer list \<Rightarrow> string" where
  "config_form port key ps = server_config_text port key @ concat (map peer_block ps)"

text \<open>A value without spaces and without the characters that mean something to the parser.\<close>

definition plain_value :: "string \<Rightarrow> bool" where
  "plain_value v \<longleftrightarrow> v \<noteq> [] \<and> list_all (\<lambda>c. \<not> is_space c \<and> c \<noteq> CHR ''#'' \<and> c \<noteq> CHR '';'' \<and> c \<noteq> CHR ''['') v"

definition plain_line :: "string \<Rightarrow> bool" where
  "plain_line v \<longleftrightarrow> CHR 0x0A \<notin> set v \<and> CHR 0x0D \<notin> set v"

definition plain_peer :: "peer \<Rightarrow> bool" where
  "plain_peer p \<longleftrightarrow> plain_line (username p) \<and> plain_value (public_key p) \<and> plain_value (ip_address p)"

lemma newline_space [simp]: "is_space (CHR 0x0A)" "is_space (CHR 0x0D)" "is_space (CHR '' '')"
  by (simp_all add: is_space_def)

lemma plain_value_line: "plain_value v \<Longrightarrow> plain_line v"
proof -
  assume "plain_value v"
  then have "\<And>c. c \<in> set v \<Longrightarrow> \<not> is_space c" by (simp add: plain_value_def list_all_iff)
  then show ?thesis unfolding plain_line_def using newline_space by blast
qed

lemma before_first_skip:
  "CHR ''['' \<notin> set xs \<Longrightarrow> before_first ''[Peer]'' (xs @ ys) = xs @ before_first ''[Peer]'' ys"
  by (induction xs) (auto simp: startswith_def)

lemma digit_chars: "c \<in> set (str_nat n) \<Longrightarrow> is_digit c"
  using str_nat_digits[of n] by (simp add: list_all_iff)

lemma str_int_chars: "c \<in> set (str_int i) \<Longrightarrow> is_digit c \<or> c = CHR ''-''"
  by (auto simp: str_int_def digit_chars split: if_splits)

lemma str_int_no_bracket: "CHR ''['' \<notin> set (str_int i)"
  by (auto dest!: str_int_chars simp: is_digit_def)

lemma plain_no_bracket: "plain_value v \<Longrightarrow> CHR ''['' \<notin> set v"
  by (auto simp: plain_value_def list_all_iff)

text \<open>The header up to the first block, as \<open>_rewrite_server_config\<close> cuts it out.\<close>

lemma before_first_form:
  assumes "plain_value key"
  shows "before_first ''[Peer]'' (config_form port key ps) =
     server_config_text port key @ (if ps = [] then [] else newline)"
proof -
  have tail: "before_first ''[Peer]'' (concat (map peer_block ps)) = (if ps = [] then [] else newline)"
    by (cases ps) (auto simp: peer_block_def startswith_def)
  have "str_nat (prefixlen WG_SUBNET) = ''24''" by (simp add: WG_SUBNET_def) code_simp
  then obtain xs where xs: "server_config_text port key = CHR ''['' # xs" "CHR ''['' \<notin> set xs"
    using str_int_no_bracket[of port] plain_no_bracket[OF assms]
    by (auto simp: server_config_text_def WG_SERVER_IP_def)
  have start: "\<not> startswith ''[Peer]'' (server_config_text port key @ ys)" for ys
    by (simp add: server_config_text_def startswith_def)
  have "before_first ''[Peer]'' (config_form port key ps) = CHR ''['' # before_first ''[Peer]'' (xs @ concat (map peer_block ps))"
    using start[of "concat (map peer_block ps)"] by (simp add: config_form_def xs(1))
  then show ?thesis using before_first_skip[OF xs(2)] tail xs(1) by simp
qed

lemma rewritten_form:
  assumes "plain_value key"
  shows "rewritten_config (config_form port key qs) ps user =
     config_form port key (filter (\<lambda>p. username p \<noteq> user) ps)"
proof -
  obtain xs where xs: "server_config_text port key = xs @ ''e'' @ newline"
    by (simp add: server_config_text_def)
  have solid: "\<not> is_space (CHR ''e'')" by (simp add: is_space_def)
  have "rstrip (server_config_text port key @ (if qs = [] then [] else newline)) = xs @ ''e''"
    using solid by (auto simp: xs rstrip_def)
  then show ?thesis
    unfolding rewritten_config_def before_first_form[OF assms] by (simp add: xs config_form_def)
qed

section \<open>Reading the file\<close>

lemma universal_plain: "CHR 0x0D \<notin> set s \<Longrightarrow> universal_newlines s = s"
  by (induction s rule: universal_newlines.induct) auto

lemma splitc_lines:
  "(\<And>l. l \<in> set ls \<Longrightarrow> CHR 0x0A \<notin> set l) \<Longrightarrow>
   splitc (CHR 0x0A) (concat (map (\<lambda>l. l @ [CHR 0x0A]) ls)) = ls @ [[]]"
  by (induction ls) (auto simp: splitc_append)

lemma text_lines_of:
  "(\<And>l. l \<in> set ls \<Longrightarrow> CHR 0x0A \<notin> set l) \<Longrightarrow> text_lines (concat (map (\<lambda>l. l @ [CHR 0x0A]) ls)) = ls"
  by (simp add: text_lines_def splitc_lines Let_def)

definition header_lines :: "int \<Rightarrow> string \<Rightarrow> string list" where
  "header_lines port key =
     [''[Interface]'', ''# edo: WireGuard server interface'', ''Address = 10.8.0.1/24'',
      ''ListenPort = '' @ str_int port, ''PrivateKey = '' @ key, ''SaveConfig = false'']"

definition block_lines :: "peer \<Rightarrow> string list" where
  "block_lines p =
     [[], ''[Peer]'', ''# '' @ username p, ''PublicKey = '' @ public_key p,
      ''AllowedIPs = '' @ ip_address p @ ''/32'']"

lemma config_form_lines:
  "config_form port key ps =
     concat (map (\<lambda>l. l @ [CHR 0x0A]) (header_lines port key @ concat (map block_lines ps)))"
proof -
  have "str_nat (prefixlen WG_SUBNET) = ''24''" by (simp add: WG_SUBNET_def) code_simp
  then have "server_config_text port key = concat (map (\<lambda>l. l @ [CHR 0x0A]) (header_lines port key))"
    by (simp add: server_config_text_def header_lines_def WG_SERVER_IP_def)
  moreover have "concat (map peer_block ps) = concat (map (\<lambda>l. l @ [CHR 0x0A]) (concat (map block_lines ps)))"
    by (induction ps) (simp_all add: peer_block_def block_lines_def)
  ultimately show ?thesis by (simp add: config_form_def)
qed

lemma form_text_lines:
  assumes "plain_value key" "list_all plain_peer ps"
  shows "text_lines (universal_newlines (config_form port key ps)) = header_lines port key @ concat (map block_lines ps)"
proof -
  have port: "CHR 0x0A \<notin> set (str_int port)" "CHR 0x0D \<notin> set (str_int port)"
    by (auto dest!: str_int_chars simp: is_digit_def)
  have key: "plain_line key" by (rule plain_value_line[OF assms(1)])
  have lines: "plain_line l" if l: "l \<in> set (header_lines port key @ concat (map block_lines ps))" for l
  proof (cases "l \<in> set (header_lines port key)")
    case True
    then show ?thesis using port key by (auto simp: header_lines_def plain_line_def)
  next
    case False
    then obtain p where p: "p \<in> set ps" "l \<in> set (block_lines p)" using l by auto
    then have "plain_line (username p)" "plain_line (public_key p)" "plain_line (ip_address p)"
      using assms(2) plain_value_line by (auto simp: list_all_iff plain_peer_def)
    then show ?thesis using p(2) by (auto simp: block_lines_def plain_line_def)
  qed
  let ?ls = "header_lines port key @ concat (map block_lines ps)"
  have "text_lines (concat (map (\<lambda>l. l @ [CHR 0x0A]) ?ls)) = ?ls"
    by (rule text_lines_of) (use lines in \<open>simp add: plain_line_def del: set_append\<close>)
  moreover have "universal_newlines (concat (map (\<lambda>l. l @ [CHR 0x0A]) ?ls)) = concat (map (\<lambda>l. l @ [CHR 0x0A]) ?ls)"
    by (rule universal_plain) (use lines in \<open>auto simp: plain_line_def\<close>)
  ultimately show ?thesis unfolding config_form_lines by (rule subst[where P = "\<lambda>t. text_lines t = ?ls", OF sym, rotated])
qed

text \<open>A line \<open>name = value\<close> inside a section, a comment, a blank line and a header.\<close>

lemma cut_plain: "CHR ''#'' \<notin> set v \<Longrightarrow> cut_inline b v = v"
  by (induction v arbitrary: b) auto

definition plain_name :: "string \<Rightarrow> bool" where
  "plain_name k \<longleftrightarrow>
     k \<noteq> [] \<and> list_all (\<lambda>c. \<not> is_space c \<and> \<not> is_delim c \<and> c \<noteq> CHR ''#'' \<and> c \<noteq> CHR '';'' \<and> c \<noteq> CHR ''['') k"

lemma option_line_plain:
  assumes "plain_name k" "plain_value v" "cursect p = Some sec"
  shows "ini_line (k @ '' = '' @ v) p =
     Inr ((put_option sec k (Some [v]) p)\<lparr>optname := Some k, indent_level := 0\<rparr>)"
proof -
  let ?l = "k @ '' = '' @ v"
  obtain c cs where k: "k = c # cs" using assms(1) by (cases k) (auto simp: plain_name_def)
  have c: "\<not> is_space c" "c \<noteq> CHR ''#''" "c \<noteq> CHR '';''" "c \<noteq> CHR ''[''"
    using assms(1) by (auto simp: plain_name_def k)
  have v: "v \<noteq> []" "\<not> is_space (hd v)" "\<not> is_space (last v)" "CHR ''#'' \<notin> set v"
    using assms(2) by (auto simp: plain_value_def list_all_iff)
  have "CHR ''#'' \<notin> set k" using assms(1) by (auto simp: plain_name_def list_all_iff)
  then have hash: "CHR ''#'' \<notin> set ?l" using v(4) by simp
  have strip_l: "strip ?l = ?l" by (rule strip_solid) (use c v k in auto)
  have val: "line_value ?l = (?l, False)"
    unfolding line_value_def comment_line_def Let_def strip_l cut_plain[OF hash]
    using c k by (simp add: strip_l[unfolded k, simplified])
  have no_delim: "\<not> is_delim x" if "x \<in> set k" for x using assms(1) that by (auto simp: plain_name_def list_all_iff)
  have space: "\<not> is_delim (CHR '' '')" "is_delim (CHR ''='')" by (simp_all add: is_delim_def)
  have take: "takeWhile (\<lambda>x. \<not> is_delim x) ?l = k @ '' ''" "dropWhile (\<lambda>x. \<not> is_delim x) ?l = ''= '' @ v"
    using no_delim space by (simp_all add: takeWhile_append dropWhile_append)
  have "rstrip (k @ '' '') = k"
    using assms(1) by (cases k rule: rev_cases) (auto simp: rstrip_def plain_name_def)
  moreover have "strip ('' '' @ v) = v"
    using strip_solid[OF v(1,2,3)] by (simp add: strip_def lstrip_def)
  ultimately have opt: "split_option ?l = (k, Some v)" unfolding split_option_def take by simp
  have "indent_of ?l = 0" "section_header ?l = None" using c k by (simp_all add: indent_of_def section_header_def)
  then show ?thesis
    using val assms(3) k opt
    by (auto simp: ini_line_def option_line_def Let_def put_option_def section_of_def split: option.split)
qed

lemma strip_head: "\<not> is_space c \<Longrightarrow> \<exists>t. strip (c # cs) = c # t"
proof -
  assume c: "\<not> is_space c"
  have "\<exists>t. rev (dropWhile is_space (rev cs @ [c])) = c # t"
  proof (cases "\<exists>x \<in> set (rev cs). \<not> is_space x")
    case True
    then show ?thesis
      by (auto simp: dropWhile_append1 intro: exI[of _ "rev (dropWhile is_space (rev cs))"])
  next
    case False
    then have "dropWhile is_space (rev cs @ [c]) = [c]" using c by (subst dropWhile_append2) auto
    then show ?thesis by simp
  qed
  then show ?thesis using c by (simp add: strip_def lstrip_def rstrip_def)
qed

lemma comment_skipped: "ini_line (CHR ''#'' # v) p = Inr p"
proof -
  have "\<not> is_space (CHR ''#'')" by (simp add: is_space_def)
  then obtain t where "strip (CHR ''#'' # v) = CHR ''#'' # t" using strip_head by blast
  then have "line_value (CHR ''#'' # v) = ([], True)" by (simp add: line_value_def comment_line_def)
  then show ?thesis by (auto simp: ini_line_def blank_line_def split: option.splits)
qed

lemma blank_skipped: "ini_line [] p = Inr (blank_line False p)"
  by (simp add: ini_line_def line_value_def comment_line_def strip_def lstrip_def rstrip_def)

lemma peer_header:
  "ini_line ''[Peer]'' p =
     Inr (p\<lparr>indent_level := 0,
            sections := (if map_of (sections p) ''Peer'' = None then sections p @ [(''Peer'', [])] else sections p),
            cursect := Some ''Peer'', optname := None\<rparr>)"
proof -
  have "line_value ''[Peer]'' = (''[Peer]'', False)" "section_header ''[Peer]'' = Some ''Peer''"
    "indent_of ''[Peer]'' = 0"
    by code_simp+
  then show ?thesis by (auto simp: ini_line_def Let_def split: option.split)
qed

text \<open>What the parser has seen of the interface, and keeps while it reads the blocks of peers.\<close>

definition iface_read :: "int \<Rightarrow> string \<Rightarrow> ini \<Rightarrow> bool" where
  "iface_read port key p \<longleftrightarrow>
     \<not> malformed p \<and> map_of (sections p) ''Interface'' \<noteq> None \<and>
     map_of (section_of ''Interface'' p) ''PrivateKey'' = Some (Some [key]) \<and>
     map_of (section_of ''Interface'' p) ''ListenPort'' = Some (Some [str_int port]) \<and>
     (cursect p = Some ''Interface'' \<longrightarrow> optname p = Some ''SaveConfig'')"

lemma section_put:
  "section_of sec' (put_option sec k v p) = (if sec' = sec then AList.update k v (section_of sec p) else section_of sec' p)"
  by (simp add: section_of_def put_option_def update_conv)

lemma has_put: "map_of (sections (put_option sec k v p)) s = None \<longleftrightarrow> s \<noteq> sec \<and> map_of (sections p) s = None"
  by (simp add: put_option_def update_conv)

lemma put_frame:
  "malformed (put_option sec k v p) = malformed p" "cursect (put_option sec k v p) = cursect p"
  "optname (put_option sec k v p) = optname p"
  by (simp_all add: put_option_def)

lemma iface_put:
  assumes "iface_read port key p" "sec = ''Interface'' \<Longrightarrow> k \<noteq> ''PrivateKey'' \<and> k \<noteq> ''ListenPort''"
  shows "iface_read port key (put_option sec k v p)"
  using assms by (auto simp: iface_read_def section_put has_put put_frame update_conv)

lemma blank_cases:
  "blank_line False p = p \<or>
   (\<exists>sec k v. cursect p = Some sec \<and> optname p = Some k \<and> blank_line False p = put_option sec k v p)"
  by (auto simp: blank_line_def split: option.split)

lemma iface_blank: "iface_read port key p \<Longrightarrow> iface_read port key (blank_line False p)"
proof -
  assume read: "iface_read port key p"
  consider "blank_line False p = p"
    | sec k v where "cursect p = Some sec" "optname p = Some k" "blank_line False p = put_option sec k v p"
    using blank_cases by blast
  then show ?thesis
  proof cases
    case 2
    then show ?thesis using iface_put[OF read, of sec k v] read by (auto simp: iface_read_def)
  qed (use read in simp)
qed

lemma plain_append: "plain_value v \<Longrightarrow> plain_value (v @ ''/32'')"
proof -
  have "plain_value ''/32''" by (simp add: plain_value_def is_space_def)
  then show "plain_value v \<Longrightarrow> plain_value (v @ ''/32'')" unfolding plain_value_def by simp
qed

lemma iface_block:
  assumes "iface_read port key p" "plain_peer q"
  shows "\<exists>p'. ini_lines (block_lines q) p = Inr p' \<and> iface_read port key p'"
proof -
  define p1 where "p1 = blank_line False p"
  define p2 where "p2 = p1\<lparr>indent_level := 0,
      sections := (if map_of (sections p1) ''Peer'' = None then sections p1 @ [(''Peer'', [])] else sections p1),
      cursect := Some ''Peer'', optname := None\<rparr>"
  have i1: "iface_read port key p1" unfolding p1_def by (rule iface_blank[OF assms(1)])
  have i2: "iface_read port key p2"
    using i1 by (auto simp: iface_read_def p2_def section_of_def map_add_def split: option.splits)
  define p3 where "p3 = (put_option ''Peer'' ''PublicKey'' (Some [public_key q]) p2)
      \<lparr>optname := Some ''PublicKey'', indent_level := 0\<rparr>"
  have i3: "iface_read port key p3"
    using iface_put[OF i2, of "''Peer''" "''PublicKey''"] by (simp add: p3_def iface_read_def section_of_def p2_def put_frame)
  define p4 where "p4 = (put_option ''Peer'' ''AllowedIPs'' (Some [ip_address q @ ''/32'']) p3)
      \<lparr>optname := Some ''AllowedIPs'', indent_level := 0\<rparr>"
  have cur: "cursect p2 = Some ''Peer''" "cursect p3 = Some ''Peer''"
    by (simp_all add: p2_def p3_def put_frame)
  have i4: "iface_read port key p4"
    using iface_put[OF i3, of "''Peer''" "''AllowedIPs''"] cur(2) by (simp add: p4_def iface_read_def section_of_def put_frame)
  have names: "plain_name ''PublicKey''" "plain_name ''AllowedIPs''" by (simp_all add: plain_name_def is_space_def is_delim_def)
  have vals: "plain_value (public_key q)" "plain_value (ip_address q @ ''/32'')"
    using assms(2) plain_append by (simp_all add: plain_peer_def)
  have "ini_line (''PublicKey = '' @ public_key q) p2 = Inr p3"
    using option_line_plain[OF names(1) vals(1) cur(1)] by (simp add: p3_def)
  moreover have "ini_line (''AllowedIPs = '' @ ip_address q @ ''/32'') p3 = Inr p4"
    using option_line_plain[OF names(2) vals(2) cur(2)] by (simp add: p4_def)
  moreover have "ini_line ''[Peer]'' p1 = Inr p2" unfolding peer_header p2_def ..
  ultimately have "ini_lines (block_lines q) p = Inr p4"
    using blank_skipped[of p] comment_skipped[of "'' '' @ username q" p2]
    by (simp add: block_lines_def p1_def)
  then show ?thesis using i4 by blast
qed

lemma ini_lines_append:
  "ini_lines (xs @ ys) p = (case ini_lines xs p of Inl e \<Rightarrow> Inl e | Inr p' \<Rightarrow> ini_lines ys p')"
  by (induction xs arbitrary: p) (auto split: sum.splits)

lemma iface_blocks:
  "iface_read port key p \<Longrightarrow> list_all plain_peer qs \<Longrightarrow>
   \<exists>p'. ini_lines (concat (map block_lines qs)) p = Inr p' \<and> iface_read port key p'"
proof (induction qs arbitrary: p)
  case (Cons q qs)
  then obtain p1 where "ini_lines (block_lines q) p = Inr p1" "iface_read port key p1"
    using iface_block by fastforce
  then show ?case using Cons by (simp add: ini_lines_append)
qed simp

lemma header_read:
  assumes "plain_value key"
  shows "\<exists>p. ini_lines (header_lines port key) empty_ini = Inr p \<and> iface_read port key p"
proof -
  let ?p1 = "\<lparr>sections = [(''Interface'', [])], cursect = Some ''Interface'', optname = None,
    indent_level = 0, malformed = False\<rparr>"
  have s1: "ini_line ''[Interface]'' empty_ini = Inr ?p1" by code_simp
  have names: "plain_name ''Address''" "plain_name ''ListenPort''" "plain_name ''PrivateKey''" "plain_name ''SaveConfig''"
    by (simp_all add: plain_name_def is_space_def is_delim_def)
  have vals: "plain_value ''10.8.0.1/24''" "plain_value ''false''"
    by (simp_all add: plain_value_def is_space_def)
  have "list_all (\<lambda>c. \<not> is_space c \<and> c \<noteq> CHR ''#'' \<and> c \<noteq> CHR '';'' \<and> c \<noteq> CHR ''['') (str_int port)"
    by (auto simp: list_all_iff dest!: str_int_chars simp: is_digit_def is_space_def)
  then have port: "plain_value (str_int port)"
    by (auto simp: plain_value_def str_int_def)
  note step = option_line_plain[OF names(1) vals(1)] option_line_plain[OF names(2) port]
    option_line_plain[OF names(3) assms] option_line_plain[OF names(4) vals(2)]
  have "\<exists>p. ini_lines (tl (header_lines port key)) ?p1 = Inr p \<and> iface_read port key p"
    using step
    by (simp add: header_lines_def comment_skipped iface_read_def put_option_def section_of_def)
  then show ?thesis using s1 by (simp add: header_lines_def)
qed

lemma config_reads_back:
  assumes "plain_value key" "list_all plain_peer ps"
  shows "\<exists>p. ini_parse (config_form port key ps) = Inr p \<and> has_section ''Interface'' p \<and>
     section_items ''Interface'' p ''PrivateKey'' = Some (Some key) \<and>
     section_items ''Interface'' p ''ListenPort'' = Some (Some (str_int port))"
proof -
  obtain p0 where "ini_lines (header_lines port key) empty_ini = Inr p0" "iface_read port key p0"
    using header_read[OF assms(1)] by blast
  then obtain p where p: "ini_lines (header_lines port key @ concat (map block_lines ps)) empty_ini = Inr p"
    "iface_read port key p"
    using iface_blocks[OF _ assms(2)] by (fastforce simp: ini_lines_append)
  have solid: "rstrip v = v" if "v \<noteq> []" "\<not> is_space (last v)" for v
    using that by (cases v rule: rev_cases) (auto simp: rstrip_def)
  have "rstrip key = key" using assms(1) by (intro solid) (auto simp: plain_value_def list_all_iff)
  moreover have "rstrip (str_int port) = str_int port"
    by (intro solid) (auto simp: str_int_def last_str_nat_solid)
  ultimately show ?thesis
    using p by (auto simp: ini_parse_def form_text_lines[OF assms] has_section_def section_items_def
        option_text_def iface_read_def)
qed

section \<open>The file follows the table\<close>

text \<open>
  What the code relies on of the file system and of the programs: \<open>content w p\<close> is the text of
  the file \<open>p\<close>; a read, write or append that succeeds does what it says; directories, modes and
  the programs the daemon runs do not change the text of a file.
\<close>

definition documented_files :: "'w files \<Rightarrow> 'w host \<Rightarrow> ('w \<Rightarrow> string \<Rightarrow> string option) \<Rightarrow> bool" where
  "documented_files fs h content \<longleftrightarrow>
     (\<forall>p w t w'. read_text fs p w = (Inr t, w') \<longrightarrow> content w p = Some t \<and> content w' = content w) \<and>
     (\<forall>p t w w'. write_text fs p t w = (Inr (), w') \<longrightarrow> content w' = (content w)(p \<mapsto> t)) \<and>
     (\<forall>p t w w' old. append_text fs p t w = (Inr (), w') \<longrightarrow> content w p = Some old \<longrightarrow>
        content w' = (content w)(p \<mapsto> old @ t)) \<and>
     (\<forall>p w r w'. make_dirs fs p w = (r, w') \<longrightarrow> content w' = content w) \<and>
     (\<forall>p n w r w'. change_mode fs p n w = (r, w') \<longrightarrow> content w' = content w) \<and>
     (\<forall>p w r w' q. unlink fs p w = (r, w') \<longrightarrow> q \<noteq> p \<longrightarrow> content w' q = content w q) \<and>
     (\<forall>c w r w'. exec h c w = (r, w') \<longrightarrow> content w' = content w)"

definition config_text :: "('w \<Rightarrow> string \<Rightarrow> string option) \<Rightarrow> 'w daemon \<Rightarrow> string option" where
  "config_text content s = content (world s) WG_SERVER_CONFIG"

definition config_in_step :: "('w \<Rightarrow> string \<Rightarrow> string option) \<Rightarrow> int \<Rightarrow> string \<Rightarrow> 'w daemon \<Rightarrow> bool" where
  "config_in_step content port key s \<longleftrightarrow>
     config_text content s = Some (config_form port key (peers (store s)))"

lemma outcome_on_world:
  assumes "\<And>x w. f (world s) = (Inr x, w) \<Longrightarrow> Q x (s\<lparr>world := w\<rparr>)"
    "\<And>e w. f (world s) = (Inl e, w) \<Longrightarrow> E e (s\<lparr>world := w\<rparr>)"
  shows "outcome Q E (on_world f s)"
  using assms by (cases "f (world s)"; cases "fst (f (world s))") (auto simp: on_world_def)

lemma py_run_world: "py_run h c w = (r, w') \<Longrightarrow> \<exists>x. exec h c w = (x, w')"
  by (auto simp: py_run_def split: prod.splits proc.splits if_splits)

definition quiet :: "('w \<Rightarrow> string \<Rightarrow> string option) \<Rightarrow> 'w daemon \<Rightarrow> 'w daemon \<Rightarrow> bool" where
  "quiet content s0 s \<longleftrightarrow> store s = store s0 \<and> config_text content s = config_text content s0"

lemma quiet_refl [simp]: "quiet content s s"
  by (simp add: quiet_def)

lemma outcome_quiet:
  assumes "quiet content s0 s" "\<And>r w. f (world s) = (r, w) \<Longrightarrow> content w WG_SERVER_CONFIG = content (world s) WG_SERVER_CONFIG"
    "\<And>x s'. quiet content s0 s' \<Longrightarrow> Q x s'" "\<And>e s'. quiet content s0 s' \<Longrightarrow> E e s'"
  shows "outcome Q E (on_world f s)"
  by (rule outcome_on_world; intro assms(3,4))
    (use assms(1,2) in \<open>auto simp: quiet_def config_text_def\<close>)

lemma outcome_run:
  assumes "documented_files fs h content" "quiet content s0 s"
    "\<And>x s'. quiet content s0 s' \<Longrightarrow> Q x s'" "\<And>e s'. quiet content s0 s' \<Longrightarrow> E e s'"
  shows "outcome Q E (on_world (py_run h c) s)"
  by (rule outcome_quiet[OF assms(2) _ assms(3,4)])
    (use assms(1) in \<open>fastforce simp: documented_files_def dest!: py_run_world\<close>)+

lemma choose_keys_quiet:
  assumes "documented_files fs h content" "\<And>x s'. quiet content s s' \<Longrightarrow> Q x s'"
  shows "outcome Q (\<lambda>_ _. True) (choose_keys h k s)"
  unfolding choose_keys_def generate_keypair_def called_as_def Let_def
  using assms(2)
  by (cases k) (auto intro!: outcome_run[OF assms(1), of s])

lemma client_not_config: "client_path None user \<noteq> WG_SERVER_CONFIG"
  by (simp add: client_path_def WG_CLIENTS_DIR_def WG_CONFIG_DIR_def WG_SERVER_CONFIG_def WG_INTERFACE_def)

lemma config_form_snoc: "config_form port key (ps @ [p]) = config_form port key ps @ peer_block p"
  by (simp add: config_form_def)

lemma outcome_write:
  assumes "documented_files fs h content" "quiet content s0 s" "p \<noteq> WG_SERVER_CONFIG"
    "\<And>x s'. quiet content s0 s' \<Longrightarrow> Q x s'"
  shows "outcome Q (\<lambda>_ _. True) (on_world (write_text fs p t) s)"
proof (rule outcome_on_world)
  fix x w assume "write_text fs p t (world s) = (Inr x, w)"
  then have "content w = (content (world s))(p \<mapsto> t)" using assms(1) by (simp add: documented_files_def)
  then show "Q x (s\<lparr>world := w\<rparr>)"
    using assms(2,3) by (intro assms(4)) (simp add: quiet_def config_text_def)
qed simp

lemma outcome_dirs:
  assumes "documented_files fs h content" "quiet content s0 s"
    "\<And>x s'. quiet content s0 s' \<Longrightarrow> Q x s'" "\<And>e s'. quiet content s0 s' \<Longrightarrow> E e s'"
  shows "outcome Q E (on_world (make_dirs fs p) s)" "outcome Q E (on_world (change_mode fs p n) s)"
  by (rule outcome_quiet[OF assms(2) _ assms(3,4)];
      use assms(1) in \<open>simp add: documented_files_def\<close>)+

text \<open>The steps after the row was inserted append exactly its block.\<close>

lemma finish_install_quiet:
  assumes doc: "documented_files fs h content" and q: "quiet content s0 s"
  shows "outcome (\<lambda>_ s'. quiet content s0 s') (\<lambda>_ _. True) (finish_install h fs server None p s)"
  unfolding finish_install_def live_add_peer_def Let_def
  using client_not_config[of "username p"] q
  by (auto intro!: outcome_run[OF doc, of s0] outcome_dirs[OF doc, of s0] outcome_write[OF doc, of s0])

lemma install_peer_config:
  assumes doc: "documented_files fs h content"
    and old: "config_text content s = Some (config_form port key ps)"
  shows "outcome (\<lambda>_ s'. store s' = store s \<and> config_text content s' = Some (config_form port key (ps @ [p])))
     (\<lambda>_ _. True) (install_peer h fs server None p s)"
  unfolding install_peer_def append_peer_to_server_config_def outcome_and_then
proof (rule outcome_on_world)
  fix x w assume "append_text fs WG_SERVER_CONFIG (peer_block p) (world s) = (Inr x, w)"
  then have "config_text content (s\<lparr>world := w\<rparr>) = Some (config_form port key (ps @ [p]))"
    using doc old by (simp add: documented_files_def config_text_def config_form_snoc)
  then show "outcome (\<lambda>_ s'. store s' = store s \<and> config_text content s' = Some (config_form port key (ps @ [p])))
     (\<lambda>_ _. True) (finish_install h fs server None p (s\<lparr>world := w\<rparr>))"
    by (intro outcome_mono[OF finish_install_quiet[OF doc quiet_refl]]) (auto simp: quiet_def)
qed simp

lemma insert_and_install_in_step:
  assumes doc: "documented_files fs h content" and q: "config_in_step content port key s"
  shows "outcome (\<lambda>_ s'. config_in_step content port key s') (\<lambda>_ _. True)
     (insert_and_install h fs ow user server None pub priv s)"
proof (cases "allocate_peer ow user pub peer_candidate_ips priv (store s)")
  case (Pair r d1)
  show ?thesis
  proof (cases r)
    case (Inr p)
    have "config_text content (s\<lparr>store := d1\<rparr>) = Some (config_form port key (peers (store s)))"
      using q by (simp add: config_in_step_def config_text_def)
    from install_peer_config[OF doc this, of p server] show ?thesis
      using allocate_peer_Inr(1)[OF Pair[unfolded Inr]] unfolding insert_and_install_def
      by (auto simp: Pair Inr outcome_on_db outcome_db_call config_in_step_def
          split: prod.splits elim!: outcome_mono)
  qed (simp add: Pair outcome_on_db insert_and_install_def)
qed

lemma add_peer_in_step:
  assumes doc: "documented_files fs h content" and step: "config_in_step content port key s"
    and add: "add_peer h fs ow user server None k s = (Inr cc, s')"
  shows "config_in_step content port key s'"
proof -
  have "outcome (\<lambda>_ s'. config_in_step content port key s') (\<lambda>_ _. True) (add_peer h fs ow user server None k s)"
    unfolding add_peer_def outcome_and_then
    by (rule choose_keys_quiet[OF doc], rule insert_and_install_in_step[OF doc])
      (use step in \<open>auto simp: quiet_def config_in_step_def\<close>)
  then show ?thesis using add by simp
qed

lemma rewrite_in_step:
  assumes doc: "documented_files fs h content" and q: "quiet content s0 s"
    and step: "config_in_step content port key s0" and key: "plain_value key"
  shows "outcome (\<lambda>_ s'. store s' = store s0 \<and>
        config_text content s' = Some (config_form port key (filter (\<lambda>q. username q \<noteq> user) (peers (store s0)))))
      (\<lambda>_ _. True) (rewrite_server_config fs user s)"
  unfolding rewrite_server_config_def outcome_and_then
proof (rule outcome_on_world)
  let ?new = "config_form port key (filter (\<lambda>q. username q \<noteq> user) (peers (store s0)))"
  fix old w assume "read_text fs WG_SERVER_CONFIG (world s) = (Inr old, w)"
  then have old: "old = config_form port key (peers (store s0))"
    using doc q step by (fastforce simp: documented_files_def quiet_def config_in_step_def config_text_def)
  show "outcome (\<lambda>_ s2. store s2 = store s0 \<and> config_text content s2 = Some ?new) (\<lambda>_ _. True)
      (on_world (write_text fs WG_SERVER_CONFIG
         (rewritten_config old (get_all_peers (store (s\<lparr>world := w\<rparr>))) user)) (s\<lparr>world := w\<rparr>))"
    using q doc
    by (intro outcome_on_world)
      (auto simp: old rewritten_form[OF key] get_all_peers_def quiet_def config_text_def documented_files_def)
qed simp

lemma drop_peer_in_step:
  assumes doc: "documented_files fs h content"
    and new: "config_text content s = Some (config_form port key (filter (\<lambda>q. username q \<noteq> user) (peers (store s))))"
  shows "outcome (\<lambda>_ s'. config_in_step content port key s') (\<lambda>_ _. True) (drop_peer fs user None s)"
proof -
  have "content w WG_SERVER_CONFIG = content w0 WG_SERVER_CONFIG"
    if "unlink fs (client_path None user) w0 = (r, w)" for w w0 r
    using that doc client_not_config[of user] unfolding documented_files_def by metis
  then show ?thesis
    using new unfolding drop_peer_def
    by (auto simp: outcome_db_call remove_peer_row_def config_in_step_def config_text_def Let_def
        intro!: outcome_on_world)
qed

lemma remove_peer_in_step:
  assumes doc: "documented_files fs h content" and step: "config_in_step content port key s"
    and key: "plain_value key" and rem: "remove_peer h fs user None s = (Inr removed, s')"
  shows "config_in_step content port key s'"
proof (cases "get_peer user (store s)")
  case None
  then show ?thesis using rem step by (simp add: remove_peer_def)
next
  case (Some p)
  have "outcome (\<lambda>_ s'. config_in_step content port key s') (\<lambda>_ _. True) (remove_peer h fs user None s)"
    unfolding remove_peer_def Some option.case live_remove_peer_def
    by (auto intro!: outcome_run[OF doc, of s] outcome_mono[OF rewrite_in_step[OF doc _ step key]] drop_peer_in_step[OF doc])
  then show ?thesis using rem by simp
qed

section \<open>A failure half way\<close>

text \<open>
  When a step after the append raises, \<open>add_peer\<close> takes back the row but not the block: the file
  then grants an address that the table considers free.
\<close>

lemma add_peer_leaves_block:
  assumes doc: "documented_files fs h content" and step: "config_in_step content port key s"
    and alloc: "allocate_peer ow user pub peer_candidate_ips priv (store s) = (Inr p, d1)"
    and append: "append_text fs WG_SERVER_CONFIG (peer_block p) (world s) = (Inr (), w)"
    and fails: "finish_install h fs server None p (s\<lparr>store := d1, world := w\<rparr>) = (Inl e, s1)"
    and kept: "config_text content s1 = config_text content (s\<lparr>store := d1, world := w\<rparr>)"
  shows "\<exists>s'. insert_and_install h fs ow user server None pub priv s = (Inl e, s') \<and>
     peers (store s') = peers (store s) \<and>
     config_text content s' = Some (config_form port key (peers (store s) @ [p]))"
proof -
  have inst: "install_peer h fs server None p (s\<lparr>store := d1\<rparr>) = (Inl e, s1)"
    using append fails by (simp add: install_peer_def append_peer_to_server_config_def on_world_def)
  have "store s1 = d1"
    using holds_install_peer[of "\<lambda>d. d = d1" "s\<lparr>store := d1\<rparr>" h fs server None p] inst
    by (simp add: holds_def)
  moreover have "config_text content s1 = Some (config_form port key (peers (store s) @ [p]))"
    using kept doc append step
    by (auto simp: documented_files_def config_in_step_def config_text_def config_form_snoc)
  ultimately show ?thesis
    using alloc inst remove_allocated_peer[OF alloc]
    by (simp add: insert_and_install_def on_db_def db_call_def config_text_def)
qed

end
