(* ===== verification/Iptables_Machine.thy ===== *)
theory Iptables_Machine
  imports Firewall_Apply
begin

text \<open>
  What the firewall code relies on of iptables, and what the rebuild then leaves in the
  kernel. \<open>ipt_effect\<close> is the documented effect of the commands in use on the chains of the
  filter table; \<open>iptables_ok h ch\<close> says that the programs of the host \<open>h\<close> act that way on the
  chains \<open>ch w\<close> of a machine state: a command that returns 0 has had its effect, one that does
  not (another return code, a binary that cannot start) has changed nothing, the two query
  commands report the truth, and other programs than iptables leave the chains alone (which is
  assumed of no \<open>firewall-cmd\<close>). Commands may fail at any time. \<open>sim_host\<close> is a machine
  with this behaviour, so the assumption can hold.
\<close>

section \<open>The documented behaviour of iptables\<close>

type_synonym chains = "string \<Rightarrow> rule list option"

definition ipt_effect :: "string list \<Rightarrow> chains \<Rightarrow> chains option" where
  "ipt_effect args chs =
     (case args of
        opt # c # r \<Rightarrow>
          (if opt = ''-N'' then (if chs c = None then Some (chs(c \<mapsto> [])) else None)
           else (case chs c of
                   None \<Rightarrow> None
                 | Some rs \<Rightarrow>
                     if opt = ''-L'' then Some chs
                     else if opt = ''-C'' then (if r \<in> set rs then Some chs else None)
                     else if opt = ''-A'' then Some (chs(c \<mapsto> rs @ [r]))
                     else if opt = ''-D'' then (if r \<in> set rs then Some (chs(c \<mapsto> remove1 r rs)) else None)
                     else if opt = ''-I'' then Some (chs(c \<mapsto> tl r # rs))
                     else if opt = ''-F'' then Some (chs(c \<mapsto> []))
                     else if opt = ''-X'' then (if rs = [] then Some (chs(c := None)) else None)
                     else None))
      | _ \<Rightarrow> None)"

definition query_option :: "string list \<Rightarrow> bool" where
  "query_option args \<longleftrightarrow> args \<noteq> [] \<and> (hd args = ''-C'' \<or> hd args = ''-L'')"

text \<open>One run of iptables: the chains before, the outcome, the chains after.\<close>

fun ipt_run :: "string list \<Rightarrow> chains \<Rightarrow> proc \<Rightarrow> chains \<Rightarrow> bool" where
  "ipt_run args chs (Exited rc out err) chs' \<longleftrightarrow>
     (if rc = 0 then ipt_effect args chs = Some chs' else chs' = chs) \<and>
     (query_option args \<longrightarrow> (rc = 0 \<longleftrightarrow> ipt_effect args chs \<noteq> None))"
| "ipt_run args chs Missing chs' \<longleftrightarrow> chs' = chs \<and> \<not> query_option args"
| "ipt_run args chs (OsFail _) chs' \<longleftrightarrow> chs' = chs \<and> \<not> query_option args"

definition iptables_ok :: "'w host \<Rightarrow> ('w \<Rightarrow> chains) \<Rightarrow> bool" where
  "iptables_ok h ch \<longleftrightarrow>
     (\<forall>args w r w'. exec h (cmd (''iptables'' # args)) w = (r, w') \<longrightarrow> ipt_run args (ch w) r (ch w')) \<and>
     (\<forall>b args w r w'. b \<notin> {''iptables'', ''firewall-cmd''} \<longrightarrow>
        exec h (cmd (b # args)) w = (r, w') \<longrightarrow> ch w' = ch w)"

text \<open>A host without firewalld, so that the input rule is managed through iptables too.\<close>

definition no_firewalld :: "'w host \<Rightarrow> bool" where
  "no_firewalld h \<longleftrightarrow> (\<forall>w. \<not> which h ''firewall-cmd'' w)"

section \<open>The primitives, on chains\<close>

lemma ipt_execD:
  "iptables_ok h ch \<Longrightarrow> exec h (cmd (''iptables'' # args)) w = (r, w') \<Longrightarrow> ipt_run args (ch w) r (ch w')"
  by (simp add: iptables_ok_def)

lemma other_program_frame:
  "iptables_ok h ch \<Longrightarrow> b \<noteq> ''iptables'' \<Longrightarrow> b \<noteq> ''firewall-cmd'' \<Longrightarrow>
   exec h (cmd (b # args)) w = (r, w') \<Longrightarrow> ch w' = ch w"
  by (simp add: iptables_ok_def)

lemma effect_simps [simp]:
  "ipt_effect (''-N'' # c # r) chs = (if chs c = None then Some (chs(c \<mapsto> [])) else None)"
  "ipt_effect (''-L'' # c # r) chs = (if chs c = None then None else Some chs)"
  "ipt_effect (''-C'' # c # r) chs
     = (case chs c of None \<Rightarrow> None | Some rs \<Rightarrow> if r \<in> set rs then Some chs else None)"
  "ipt_effect (''-A'' # c # r) chs = map_option (\<lambda>rs. chs(c \<mapsto> rs @ [r])) (chs c)"
  "ipt_effect (''-D'' # c # r) chs
     = (case chs c of None \<Rightarrow> None | Some rs \<Rightarrow> if r \<in> set rs then Some (chs(c \<mapsto> remove1 r rs)) else None)"
  "ipt_effect (''-I'' # c # r) chs = map_option (\<lambda>rs. chs(c \<mapsto> tl r # rs)) (chs c)"
  "ipt_effect (''-F'' # c # r) chs = map_option (\<lambda>rs. chs(c \<mapsto> [])) (chs c)"
  "ipt_effect (''-X'' # c # r) chs
     = (case chs c of None \<Rightarrow> None | Some rs \<Rightarrow> if rs = [] then Some (chs(c := None)) else None)"
  by (simp_all add: ipt_effect_def split: option.splits)

lemma query_simps [simp]:
  "query_option (''-C'' # r)" "query_option (''-L'' # r)" "\<not> query_option (''-N'' # r)"
  "\<not> query_option (''-A'' # r)" "\<not> query_option (''-D'' # r)" "\<not> query_option (''-I'' # r)"
  "\<not> query_option (''-F'' # r)" "\<not> query_option (''-X'' # r)"
  by (simp_all add: query_option_def)

definition has_rule :: "chains \<Rightarrow> string \<Rightarrow> rule \<Rightarrow> bool" where
  "has_rule chs c r \<longleftrightarrow> (\<exists>rs. chs c = Some rs \<and> r \<in> set rs)"

lemma iptables_check_spec:
  assumes "iptables_ok h ch" "iptables_check h (c # r) w = (b, w')"
  shows "ch w' = ch w" "b \<longleftrightarrow> has_rule (ch w) c r"
proof -
  obtain res where ex: "exec h (cmd (''iptables'' # ''-C'' # c # r)) w = (res, w')"
    using assms(2) by (auto simp: iptables_check_def raw_run_def split: prod.splits proc.splits)
  from ipt_execD[OF assms(1) ex] ex assms(2)
  show "ch w' = ch w" "b \<longleftrightarrow> has_rule (ch w) c r"
    by (cases res; auto simp: iptables_check_def raw_run_def has_rule_def split: if_splits option.splits)+
qed

lemma chain_exists_spec:
  assumes "iptables_ok h ch" "chain_exists h c w = (b, w')"
  shows "ch w' = ch w" "b \<longleftrightarrow> ch w c \<noteq> None"
proof -
  obtain res where ex: "exec h (cmd (''iptables'' # ''-L'' # c # [''-n''])) w = (res, w')"
    using assms(2) by (auto simp: chain_exists_def raw_run_def split: prod.splits proc.splits)
  from ipt_execD[OF assms(1) ex] ex assms(2)
  show "ch w' = ch w" "b \<longleftrightarrow> ch w c \<noteq> None"
    by (cases res; auto simp: chain_exists_def raw_run_def split: if_splits)+
qed

lemma ipt_py_run:
  assumes "iptables_ok h ch" "py_run h (cmd (''iptables'' # args)) w = (res, w')"
  shows "case res of Inr _ \<Rightarrow> ipt_effect args (ch w) = Some (ch w') | Inl _ \<Rightarrow> ch w' = ch w"
proof -
  obtain r where ex: "exec h (cmd (''iptables'' # args)) w = (r, w')"
    using assms(2) by (auto simp: py_run_def split: prod.splits proc.splits if_splits)
  from ipt_execD[OF assms(1) ex] ex assms(2) show ?thesis
    by (cases r) (auto simp: py_run_def split: if_splits)
qed

lemmas ipt_py_Inr = ipt_py_run[where res = "Inr out" for out, simplified]
lemmas ipt_py_Inl = ipt_py_run[where res = "Inl e" for e, simplified]

lemma ipt_raw_run:
  assumes "iptables_ok h ch" "raw_run h (cmd (''iptables'' # args)) w = (res, w')"
  shows "ch w' = ch w \<or> ipt_effect args (ch w) = Some (ch w')"
proof -
  obtain r where ex: "exec h (cmd (''iptables'' # args)) w = (r, w')"
    using assms(2) by (auto simp: raw_run_def split: prod.splits proc.splits)
  from ipt_execD[OF assms(1) ex] show ?thesis by (cases r) (auto split: if_splits)
qed

lemma run_recorded_spec:
  assumes ok: "iptables_ok h ch" and run: "run_recorded h (''iptables'' # args) r w = (res, w')"
  shows "(case res of Inr x \<Rightarrow> if rr_success x then ipt_effect args (ch w) = Some (ch w') else ch w' = ch w
          | Inl _ \<Rightarrow> ch w' = ch w)"
proof -
  obtain out w1 where py: "py_run h (cmd (''iptables'' # args)) w = (out, w1)" by fastforce
  from ipt_py_run[OF ok py] run py show ?thesis
    by (cases out) (auto simp: run_recorded_def split: if_splits)
qed

lemma iptables_append_spec:
  assumes ok: "iptables_ok h ch" and run: "iptables_append h (c # r) w = (res, w')"
  shows "(case res of
            Inr x \<Rightarrow> if rr_success x
              then \<exists>rs. ch w c = Some rs \<and> ch w' = (ch w)(c \<mapsto> (if r \<in> set rs then rs else rs @ [r]))
              else ch w' = ch w
          | Inl _ \<Rightarrow> ch w' = ch w)"
proof -
  obtain b w1 where chk: "iptables_check h (c # r) w = (b, w1)" by fastforce
  note c = iptables_check_spec[OF ok chk]
  show ?thesis
  proof (cases b)
    case True
    with c obtain rs where rs: "ch w c = Some rs" "r \<in> set rs" by (auto simp: has_rule_def)
    then have "ch w = (ch w)(c \<mapsto> rs)" by (simp add: fun_upd_idem)
    with True run chk c rs show ?thesis
      by (auto simp: iptables_append_def intro: exI[of _ rs])
  next
    case False
    with run chk have "run_recorded h (''iptables'' # ''-A'' # c # r) (c # r) w1 = (res, w')"
      by (simp add: iptables_append_def)
    from run_recorded_spec[OF ok this] False c show ?thesis
      by (auto simp: has_rule_def split: sum.splits if_splits)
  qed
qed

lemma iptables_delete_spec:
  assumes ok: "iptables_ok h ch" and run: "iptables_delete h (c # r) w = (res, w')"
  shows "ch w' = ch w \<or> (\<exists>rs. ch w c = Some rs \<and> r \<in> set rs \<and> ch w' = (ch w)(c \<mapsto> remove1 r rs))"
proof -
  obtain b w1 where chk: "iptables_check h (c # r) w = (b, w1)" by fastforce
  note c = iptables_check_spec[OF ok chk]
  show ?thesis
  proof (cases b)
    case True
    with run chk have "run_recorded h (''iptables'' # ''-D'' # c # r) (c # r) w1 = (res, w')"
      by (simp add: iptables_delete_def)
    from run_recorded_spec[OF ok this] c show ?thesis
      by (auto split: sum.splits if_splits option.splits)
  next
    case False
    with run chk c show ?thesis by (auto simp: iptables_delete_def)
  qed
qed

text \<open>\<open>run_or_raise\<close> and \<open>run_or_return\<close>, on chains.\<close>

lemma run_or_raise_spec:
  assumes ok: "iptables_ok h ch" and run: "run_or_raise h (''iptables'' # args) pre w = (res, w')"
  shows "case res of Inr _ \<Rightarrow> ipt_effect args (ch w) = Some (ch w') | Inl _ \<Rightarrow> ch w' = ch w"
proof -
  obtain out w1 where py: "py_run h (cmd (''iptables'' # args)) w = (out, w1)" by fastforce
  from ipt_py_run[OF ok py] run py show ?thesis
    by (cases out) (auto simp: run_or_raise_def split: if_splits)
qed

lemma run_or_return_frame:
  assumes ok: "iptables_ok h ch"
    and run: "run_or_return h (''iptables'' # args) r rest w = (res, w')"
    and eff: "\<And>chs chs'. ipt_effect args chs = Some chs' \<Longrightarrow> chs' c = chs c"
    and rest: "\<And>w1 res w2. rest w1 = (res, w2) \<Longrightarrow> ch w2 c = ch w1 c"
  shows "ch w' c = ch w c"
proof -
  obtain out w1 where py: "py_run h (cmd (''iptables'' # args)) w = (out, w1)" by fastforce
  from ipt_py_run[OF ok py] eff have w1: "ch w1 c = ch w c"
    by (cases out) fastforce+
  with run py rest show ?thesis
    by (cases out) (auto simp: run_or_return_def split: if_splits)
qed

section \<open>The steps of the rebuild, on chains\<close>

text \<open>The input rule touches the chains \<open>INPUT\<close> and \<open>EDO_INPUT\<close> only.\<close>

lemma append_frame:
  assumes "iptables_ok h ch" "iptables_append h (c' # r) w = (res, w')" "c \<noteq> c'"
  shows "ch w' c = ch w c"
  using iptables_append_spec[OF assms(1,2)] assms(3) by (auto split: sum.splits if_splits)

lemma input_rule_frame:
  assumes ok: "iptables_ok h ch" and nf: "no_firewalld h"
    and run: "apply_wg_input_rule h port w = (res, w')"
    and c: "c \<noteq> ''INPUT''" "c \<noteq> EDO_INPUT_CHAIN"
  shows "ch w' c = ch w c"
proof -
  let ?refill = "run_or_return h [''iptables'', ''-F'', EDO_INPUT_CHAIN] [''-F'', EDO_INPUT_CHAIN]
                   (iptables_append h (wg_input_rule port))"
  have app: "ch w2 c = ch w1 c" if "iptables_append h (wg_input_rule port) w1 = (res, w2)" for w1 res w2
    using append_frame[OF ok, of EDO_INPUT_CHAIN "tl (wg_input_rule port)"] that c
    by (simp add: wg_input_rule_def)
  have refill: "ch w2 c = ch w1 c" if "?refill w1 = (res, w2)" for w1 res w2
    by (rule run_or_return_frame[OF ok that]) (use c app in auto)
  have hook: "ch w2 c = ch w1 c"
    if "run_or_return h [''iptables'', ''-I'', ''INPUT'', ''1'', ''-j'', EDO_INPUT_CHAIN] input_hook ?refill w1
        = (res, w2)" for w1 res w2
    by (rule run_or_return_frame[OF ok that]) (use c refill in auto)
  obtain n w1 where n: "raw_run h (cmd [''iptables'', ''-N'', EDO_INPUT_CHAIN]) w = (n, w1)" by fastforce
  have w1: "ch w1 c = ch w c"
    using ipt_raw_run[OF ok n] c by (auto split: if_splits) (metis fun_upd_other)
  have fw: "firewalld_active h w = (False, w)"
    using nf by (simp add: no_firewalld_def firewalld_active_def)
  obtain b w2 where chk: "iptables_check h input_hook w1 = (b, w2)" by fastforce
  then have w2: "ch w2 = ch w1"
    using iptables_check_spec(1)[OF ok] by (simp add: input_hook_def)
  show ?thesis
    using run n w1 chk w2 refill hook
    by (cases n; cases b) (auto simp: apply_wg_input_rule_def fw Let_def)
qed

text \<open>Unhooking leaves every chain alone that is not a candidate for the hook.\<close>

lemma unhook_loop_frame:
  assumes "iptables_ok h ch"
  shows "unhook_loop n h (c' # r) w = (res, w') \<Longrightarrow> c \<noteq> c' \<Longrightarrow> ch w' c = ch w c"
proof (induction n arbitrary: w res w')
  case 0
  then show ?case
    using iptables_check_spec(1)[OF assms] by (auto split: prod.splits)
next
  case (Suc n)
  obtain b w1 where chk: "iptables_check h (c' # r) w = (b, w1)" by fastforce
  note w1 = iptables_check_spec(1)[OF assms chk]
  obtain d w2 where del: "iptables_delete h (c' # r) w1 = (d, w2)" by fastforce
  have w2: "ch w2 c = ch w1 c"
    using iptables_delete_spec[OF assms del] Suc.prems(2) by auto
  obtain l w3 where loop: "unhook_loop n h (c' # r) w2 = (l, w3)" by fastforce
  with Suc.IH Suc.prems(2) have w3: "ch w3 c = ch w2 c" by blast
  show ?case
    using Suc.prems(1) chk del loop w1 w2 w3
    by (cases b; cases d; cases l) auto
qed

lemma unhook_chains_frame:
  assumes "iptables_ok h ch"
  shows "unhook_chains h cs w = (res, w') \<Longrightarrow> c \<notin> set cs \<Longrightarrow> ch w' c = ch w c"
proof (induction cs arbitrary: w res w')
  case (Cons x cs)
  obtain b w1 where ex: "chain_exists h x w = (b, w1)" by fastforce
  note w1 = chain_exists_spec(1)[OF assms ex]
  obtain l w2 where loop: "unhook_loop 5 h (forward_hook x) w1 = (l, w2)" by fastforce
  with Cons.prems(2) have w2: "ch w2 c = ch w1 c"
    unfolding forward_hook_def by (auto intro: unhook_loop_frame[OF assms])
  obtain l' w3 where tail: "unhook_chains h cs w2 = (l', w3)" by fastforce
  with Cons have w3: "ch w3 c = ch w2 c" by auto
  have skip: "ch w' c = ch w1 c" if "\<not> b"
    using that Cons.prems Cons.IH[of w1 res w'] ex by simp
  show ?case
    using Cons.prems ex loop tail w1 w2 w3 skip
    by (cases b; cases l; cases l') auto
qed simp

lemma preferred_hook_spec:
  assumes ok: "iptables_ok h ch" and run: "preferred_forward_hook h w = (target, w')"
  shows "ch w' = ch w"
    and "target = (if ch w ''DOCKER-USER'' \<noteq> None then ''DOCKER-USER'' else ''FORWARD'')"
proof -
  obtain b1 w1 where e1: "chain_exists h ''DOCKER-USER'' w = (b1, w1)" by fastforce
  obtain b2 w2 where e2: "chain_exists h ''FORWARD'' w1 = (b2, w2)" by fastforce
  note s1 = chain_exists_spec[OF ok e1] and s2 = chain_exists_spec[OF ok e2]
  from run e1 e2 s1 s2 show "ch w' = ch w"
    and "target = (if ch w ''DOCKER-USER'' \<noteq> None then ''DOCKER-USER'' else ''FORWARD'')"
    by (cases b1; cases b2; simp add: preferred_forward_hook_def FORWARD_HOOK_CANDIDATES_def)+
qed

text \<open>Appending the rules one by one, each only when it is not there yet.\<close>

fun append_new :: "rule list \<Rightarrow> rule list \<Rightarrow> rule list" where
  "append_new acc [] = acc"
| "append_new acc (r # rs) = append_new (if r \<in> set acc then acc else acc @ [r]) rs"

lemma install_rules_spec:
  assumes ok: "iptables_ok h ch"
  shows "install_rules h (map ((#) c) specs) w = (Inr results, w') \<Longrightarrow> ch w c = Some acc \<Longrightarrow>
    ch w' = (ch w)(c \<mapsto> append_new acc specs)"
proof (induction specs arbitrary: w acc results)
  case Nil
  then show ?case by (auto simp: fun_upd_idem)
next
  case (Cons r specs)
  from Cons.prems(1) obtain res w1 others where
    app: "iptables_append h (c # r) w = (Inr res, w1)" and succ: "rr_success res" and
    tail: "install_rules h (map ((#) c) specs) w1 = (Inr others, w')"
    by (auto dest!: and_then_InrD split: if_splits)
  from iptables_append_spec[OF ok app] succ Cons.prems(2)
  have w1: "ch w1 = (ch w)(c \<mapsto> (if r \<in> set acc then acc else acc @ [r]))" by simp
  then have "ch w1 c = Some (if r \<in> set acc then acc else acc @ [r])" by simp
  from Cons.IH[OF tail this] show ?case
    unfolding w1 by (simp only: fun_upd_upd append_new.simps)
qed

lemma verdict_skip: "\<not> rm r p \<Longrightarrow> chain_verdict rm (acc @ r # rs) p = chain_verdict rm (acc @ rs) p"
  by (induction acc) (auto simp: verdict_Cons)

lemma verdict_known:
  "r \<in> set acc \<Longrightarrow> chain_verdict rm (acc @ r # rs) p = chain_verdict rm (acc @ rs) p"
  by (cases "rm r p", induction acc) (auto simp: verdict_Cons verdict_skip)

lemma append_new_verdict:
  "chain_verdict rm (append_new acc specs) p = chain_verdict rm (acc @ specs) p"
  by (induction specs arbitrary: acc) (auto simp: verdict_known)

lemma append_new_set: "set (append_new acc specs) = set acc \<union> set specs"
  by (induction specs arbitrary: acc) auto

text \<open>A refused rule leaves the chain empty or, when the flush is refused too, partly filled.\<close>

lemma install_rules_error:
  assumes ok: "iptables_ok h ch"
  shows "install_rules h (map ((#) EDO_CHAIN) specs) w = (Inl e, w') \<Longrightarrow> ch w EDO_CHAIN = Some acc \<Longrightarrow>
    ch w' EDO_CHAIN = Some [] \<or>
    (\<exists>k < length specs. ch w' EDO_CHAIN = Some (append_new acc (take k specs)))"
proof (induction specs arbitrary: w acc)
  case (Cons r specs)
  let ?acc' = "if r \<in> set acc then acc else acc @ [r]"
  obtain res w1 where app: "iptables_append h (EDO_CHAIN # r) w = (res, w1)" by fastforce
  note spec = iptables_append_spec[OF ok app]
  have here: ?case if "ch w' EDO_CHAIN = Some acc"
    using that by (intro disjI2 exI[of _ 0]) simp
  show ?case
  proof (cases "\<exists>x. res = Inr x \<and> rr_success x")
    case True
    then obtain x where x: "res = Inr x" "rr_success x" by blast
    with spec Cons.prems(2) have w1: "ch w1 EDO_CHAIN = Some ?acc'" by (auto split: if_splits)
    from Cons.prems(1) app x have "install_rules h (map ((#) EDO_CHAIN) specs) w1 = (Inl e, w')"
      by (auto dest: and_then_InlD)
    from Cons.IH[OF this w1] show ?thesis
      by (auto intro: exI[of _ "Suc k" for k])
  next
    case False
    with spec have w1: "ch w1 = ch w" by (auto split: sum.splits)
    show ?thesis
    proof (cases res)
      case (Inl e')
      with Cons.prems app w1 here show ?thesis by simp
    next
      case (Inr x)
      with False have x: "\<not> rr_success x" by simp
      obtain fl w2 where fl: "raw_run h (cmd [''iptables'', ''-F'', EDO_CHAIN]) w1 = (fl, w2)" by fastforce
      have "ch w2 EDO_CHAIN = Some acc \<or> ch w2 EDO_CHAIN = Some []"
        using ipt_raw_run[OF ok fl] w1 Cons.prems(2) by (auto split: if_splits) (metis fun_upd_same)
      moreover have "w' = w2"
        using Cons.prems(1) app Inr x fl by (cases fl) auto
      ultimately show ?thesis using here by auto
    qed
  qed
qed simp

text \<open>
  When the flush is not refused, a refused rule (which is told by its message from a binary that
  vanished) leaves the chain empty.
\<close>

definition flush_works :: "'w host \<Rightarrow> ('w \<Rightarrow> chains) \<Rightarrow> bool" where
  "flush_works h ch \<longleftrightarrow> (\<forall>w. ch w EDO_CHAIN \<noteq> None \<longrightarrow> (\<exists>out err. fst (exec h (cmd [''iptables'', ''-F'', EDO_CHAIN]) w) = Exited 0 out err))"

lemma append_not_refused: "iptables_append h r w \<noteq> (Inl (RuntimeError (''failed to install rule '' @ msg)), w')"
  by (auto simp: iptables_append_def run_recorded_def py_run_def split: prod.splits proc.splits if_splits)

lemma install_rules_refused:
  assumes ok: "iptables_ok h ch" "flush_works h ch"
  shows "install_rules h (map ((#) EDO_CHAIN) specs) w = (Inl (RuntimeError (''failed to install rule '' @ msg)), w') \<Longrightarrow>
    ch w EDO_CHAIN = Some acc \<Longrightarrow> ch w' EDO_CHAIN = Some []"
proof (induction specs arbitrary: w acc)
  case (Cons r specs)
  obtain res w1 where app: "iptables_append h (EDO_CHAIN # r) w = (res, w1)" by fastforce
  note spec = iptables_append_spec[OF ok(1) app]
  obtain x where x: "res = Inr x" using Cons.prems(1) app append_not_refused[of h "EDO_CHAIN # r" w msg w'] by (cases res) auto
  obtain acc' where w1: "ch w1 EDO_CHAIN = Some acc'" using spec x Cons.prems(2) by (auto split: if_splits)
  show ?case
  proof (cases "rr_success x")
    case True
    then show ?thesis using Cons.IH[OF _ w1] Cons.prems(1) app x by (auto dest: and_then_InlD)
  next
    case False
    obtain out err w2 where fl: "exec h (cmd [''iptables'', ''-F'', EDO_CHAIN]) w1 = (Exited 0 out err, w2)"
      using ok(2) w1 unfolding flush_works_def by (metis option.distinct(1) prod.collapse)
    have "ch w2 EDO_CHAIN = Some []" using ipt_execD[OF ok(1) fl] w1 by (auto dest: sym)
    then show ?thesis using Cons.prems(1) app x False fl by (simp add: raw_run_def)
  qed
qed simp

section \<open>The rebuild\<close>

lemma hook_chain_spec:
  assumes ok: "iptables_ok h ch" and run: "hook_chain h w = (Inr target, w')"
  shows "ch w' EDO_CHAIN = Some []"
    and "target \<in> set FORWARD_HOOK_CANDIDATES"
    and "\<exists>rs. ch w' target = Some ([''-j'', EDO_CHAIN] # rs)"
proof -
  from run obtain x1 w1 x2 w2 w3 x4 w4 x5 w5 where
    "raw_run h (cmd [''iptables'', ''-N'', EDO_CHAIN]) w = (Inr x1, w1)"
    "unhook_edo_from_all h w1 = (Inr x2, w2)" and
    pref: "preferred_forward_hook h w2 = (target, w3)" and
    ins: "run_or_raise h [''iptables'', ''-I'', target, ''1'', ''-j'', EDO_CHAIN]
        (''failed to hook '' @ EDO_CHAIN @ '' into '' @ target @ '': '') w3 = (Inr x4, w4)" and
    flush: "run_or_raise h [''iptables'', ''-F'', EDO_CHAIN]
        (''failed to flush '' @ EDO_CHAIN @ '': '') w4 = (Inr x5, w')"
    by (auto simp: hook_chain_def dest!: and_then_InrD split: prod.splits)
  note target = preferred_hook_spec[OF ok pref]
  then have ne: "target \<noteq> EDO_CHAIN" by (simp add: EDO_CHAIN_def)
  from run_or_raise_spec[OF ok ins] obtain rs where "ch w4 target = Some ([''-j'', EDO_CHAIN] # rs)"
    by auto (metis fun_upd_same)
  moreover from run_or_raise_spec[OF ok flush] have w': "ch w' = (ch w4)(EDO_CHAIN \<mapsto> [])" by auto
  ultimately show "\<exists>rs. ch w' target = Some ([''-j'', EDO_CHAIN] # rs)" using ne by auto
  from w' show "ch w' EDO_CHAIN = Some []" by simp
  show "target \<in> set FORWARD_HOOK_CANDIDATES"
    using target(2) by (simp add: FORWARD_HOOK_CANDIDATES_def)
qed

lemma owner_rules_head: "owner_rules peers octets = Inr rules \<Longrightarrow> r \<in> set rules \<Longrightarrow> r = EDO_CHAIN # tl r"
  by (induction octets arbitrary: rules)
    (auto simp: accept_pair_def split: sum.splits)

lemma build_rules_head:
  assumes "build_chain_rules i peers octets = Inr rules"
  shows "rules = map ((#) EDO_CHAIN) (map tl rules)"
proof -
  have "\<forall>r \<in> set rules. r = EDO_CHAIN # tl r"
    using assms owner_rules_head
    by (fastforce simp: build_chain_rules_def Let_def split: sum.splits)
  then show ?thesis by (induction rules) auto
qed

definition edo_installed :: "chains \<Rightarrow> rule list \<Rightarrow> bool" where
  "edo_installed chs specs \<longleftrightarrow>
     (\<exists>target \<in> set FORWARD_HOOK_CANDIDATES. \<exists>rs. chs target = Some ([''-j'', EDO_CHAIN] # rs)) \<and>
     chs EDO_CHAIN = Some (append_new [] specs)"

lemma apply_firewall_installs:
  assumes ok: "iptables_ok h ch" and nf: "no_firewalld h"
    and run: "apply_firewall h peers octets port w = (Inr res, w')"
  shows "\<exists>rules. build_chain_rules (public_interface res) peers octets = Inr rules \<and>
    edo_installed (ch w') (map tl rules)"
proof -
  from run obtain i rules target w2 w3 w4 results input where
    hook: "hook_chain h w2 = (Inr target, w3)" and
    rules: "build_chain_rules i peers octets = Inr rules" and
    inst: "install_rules h rules w3 = (Inr results, w4)" and
    inp: "apply_wg_input_rule h port w4 = (Inr input, w')" and
    res: "public_interface res = i"
    by (fastforce simp: apply_firewall_def dest!: and_then_InrD split: if_splits)
  note h = hook_chain_spec[OF ok hook]
  have "install_rules h (map ((#) EDO_CHAIN) (map tl rules)) w3 = (Inr results, w4)"
    using inst build_rules_head[OF rules] by simp
  from install_rules_spec[OF ok this h(1)]
  have w4: "ch w4 = (ch w3)(EDO_CHAIN \<mapsto> append_new [] (map tl rules))" .
  have names: "target \<noteq> ''INPUT''" "target \<noteq> EDO_INPUT_CHAIN" "target \<noteq> EDO_CHAIN"
    "EDO_CHAIN \<noteq> ''INPUT''" "EDO_CHAIN \<noteq> EDO_INPUT_CHAIN"
    using h(2) by (auto simp: FORWARD_HOOK_CANDIDATES_def EDO_CHAIN_def EDO_INPUT_CHAIN_def)
  have "ch w' target = ch w4 target" "ch w' EDO_CHAIN = ch w4 EDO_CHAIN"
    using input_rule_frame[OF ok nf inp] names by auto
  with w4 h(2,3) names rules res show ?thesis
    by (auto simp: edo_installed_def intro!: bexI[of _ target])
qed

text \<open>The interface in the rules is the one that the default route names.\<close>

lemma apply_firewall_interface:
  assumes "apply_firewall h peers octets port w = (Inr res, w')"
  shows "\<exists>w1. get_public_interface h w = (Inr (Some (public_interface res)), w1)"
  using assms
  by (fastforce simp: apply_firewall_def dest!: and_then_InrD split: if_splits)

section \<open>A simulated machine\<close>

definition sim_host :: "chains host" where
  "sim_host =
     \<lparr>exec = (\<lambda>c w. case argv c of
        [] \<Rightarrow> (Missing, w)
      | b # args \<Rightarrow>
          if b = ''iptables''
          then (case ipt_effect args w of Some w' \<Rightarrow> (Exited 0 [] [], w') | None \<Rightarrow> (Exited 1 [] ''no'', w))
          else if b = ''ip'' then (Exited 0 ''default via 192.0.2.1 dev eth0'' [], w)
          else (Exited 0 [] [], w)),
      which = (\<lambda>_ _. False)\<rparr>"

definition fresh_chains :: chains where
  "fresh_chains = [''INPUT'' \<mapsto> [], ''FORWARD'' \<mapsto> [], ''DOCKER-USER'' \<mapsto> []]"

lemma query_effect: "query_option args \<Longrightarrow> ipt_effect args chs = Some chs' \<Longrightarrow> chs' = chs"
  by (auto simp: query_option_def ipt_effect_def split: list.splits option.splits if_splits)

lemma sim_host_ok: "iptables_ok sim_host id"
  by (auto simp: iptables_ok_def sim_host_def cmd_def split: option.splits if_splits)

lemma sim_no_firewalld: "no_firewalld sim_host"
  by (simp add: no_firewalld_def sim_host_def)

end
