(* ===== verification/Port_Guard.thy ===== *)
theory Port_Guard
  imports Containers
begin

text \<open>
  Spawning without the public mode publishes no port. \<open>portless m\<close> is the machine \<open>m\<close> with a docker
  that refuses every host configuration that binds a host port; a spawn that does not ask for
  published ports cannot tell it from \<open>m\<close> itself, so it never sends docker such a configuration.
\<close>

definition binds_ports :: "(string \<times> json) list \<Rightarrow> bool" where
  "binds_ports kwargs \<longleftrightarrow> ''port_bindings'' \<in> fst ` set kwargs"

definition portless :: "'w machine \<Rightarrow> 'w machine" where
  "portless m = m\<lparr>docker_of := (docker_of m)\<lparr>create_host_config :=
     (\<lambda>kwargs. if binds_ports kwargs then Inl (RuntimeError ''port bindings'')
               else create_host_config (docker_of m) kwargs)\<rparr>\<rparr>"

lemma portless_sel [simp]:
  "is_file (portless m) = is_file m" "iso_after (portless m) = iso_after m" "os_environ (portless m) = os_environ m"
  "host_of (portless m) = host_of m" "float_int (portless m) = float_int m" "nano (portless m) = nano m"
  "sdk_available (docker_of (portless m)) = sdk_available (docker_of m)"
  "connect (docker_of (portless m)) = connect (docker_of m)"
  "networks_get (docker_of (portless m)) = networks_get (docker_of m)"
  "networks_create (docker_of (portless m)) = networks_create (docker_of m)"
  "images_get (docker_of (portless m)) = images_get (docker_of m)"
  "images_build (docker_of (portless m)) = images_build (docker_of m)"
  "create_endpoint_config (docker_of (portless m)) = create_endpoint_config (docker_of m)"
  "create_networking_config (docker_of (portless m)) = create_networking_config (docker_of m)"
  "create_container (docker_of (portless m)) = create_container (docker_of m)"
  "start (docker_of (portless m)) = start (docker_of m)"
  "containers_get (docker_of (portless m)) = containers_get (docker_of m)"
  "container_reload (docker_of (portless m)) = container_reload (docker_of m)"
  "container_remove (docker_of (portless m)) = container_remove (docker_of m)"
  "create_host_config (docker_of (portless m)) = (\<lambda>kwargs. if binds_ports kwargs
     then Inl (RuntimeError ''port bindings'') else create_host_config (docker_of m) kwargs)"
  by (simp_all add: portless_def)

lemma portless_client [simp]: "get_client (portless m) = get_client m"
  by (rule ext) (simp add: get_client_def)

lemma portless_create [simp]: "create_owner_network (portless m) = create_owner_network m"
  by (intro ext) (simp add: create_owner_network_def)

lemma portless_network [simp]: "ensure_owner_network (portless m) = ensure_owner_network m"
  by (intro ext) (simp add: ensure_owner_network_def Let_def cong: if_cong)

lemma portless_build [simp]:
  "buildkit_available (portless m) = buildkit_available m"
  "build_image_sdk (portless m) = build_image_sdk m" "build_env (portless m) = build_env m"
  by (intro ext, simp add: buildkit_available_def build_image_sdk_def build_env_def split_def
      cong: option.case_cong if_cong)+

lemma portless_image [simp]:
  "build_image (portless m) = build_image m" "detect_exposed_ports (portless m) = detect_exposed_ports m"
  by (intro ext, simp add: build_image_def detect_exposed_ports_def split_def Let_def cong: if_cong option.case_cong)+

lemma portless_launch [simp]:
  "plan_for (portless m) = plan_for m" "launch (portless m) = launch m"
  "discard_container (portless m) = discard_container m"
  by (intro ext, simp add: plan_for_def launch_def discard_container_def)+

lemma portless_read [simp]:
  "live_container_ip (portless m) = live_container_ip m" "live_published_ports (portless m) = live_published_ports m"
  "store_container (portless m) = store_container m"
  by (intro ext, simp add: live_container_ip_def live_published_ports_def store_container_def split_def
      cong: option.case_cong if_cong sum.case_cong)+

lemma portless_record [simp]:
  "record_container (portless m) = record_container m" "nano_cpus (portless m) = nano_cpus m"
  by (intro ext, simp add: record_container_def nano_cpus_def split_def cong: number.case_cong if_cong)+

lemma portless_kwargs [simp]: "host_config_kwargs (portless m) = host_config_kwargs m"
  by (intro ext) (simp add: host_config_kwargs_def cong: option.case_cong)

lemma no_bindings: "host_config_kwargs m p None = Inr kwargs \<Longrightarrow> \<not> binds_ports kwargs"
  by (auto simp: host_config_kwargs_def binds_ports_def sum_bind_def split: sum.splits option.splits if_splits)

lemma portless_config [simp]:
  "build_secure_host_config (portless m) p None = build_secure_host_config m p None"
  using no_bindings[of m p]
  by (cases "host_config_kwargs m p None") (simp_all add: build_secure_host_config_def)

lemma portless_loop:
  assumes "\<not> sr_publish q"
  shows "launch_loop (portless m) q pl n = launch_loop m q pl n"
proof (induction n)
  case (Suc n)
  then show ?case by (intro ext) (simp add: choose_port_map_def assms split_def cong: sum.case_cong if_cong)
qed (intro ext, simp)

lemma portless_run: "\<not> sr_publish q \<Longrightarrow> run_planned (portless m) q = run_planned m q"
  by (intro ext) (simp add: run_planned_def portless_loop cong: launch_end.case_cong)

lemma portless_build_run: "\<not> sr_publish q \<Longrightarrow> build_and_run (portless m) q = build_and_run m q"
  by (intro ext) (simp add: build_and_run_def portless_run split_def cong: if_cong)

lemma portless_spawn: "\<not> sr_publish q \<Longrightarrow> spawn_instance (portless m) q s = spawn_instance m q s"
  by (simp add: spawn_instance_def portless_build_run cong: option.case_cong if_cong)

end
