(* ===== verification/Lease.thy ===== *)
theory Lease
  imports Edo_Prelude
begin

text \<open>
  Leader election among the web workers, \<open>_try_acquire_lease\<close> of \<open>scheduler.py\<close> over the table
  \<open>EdoWorkerLease\<close> of \<open>models.py\<close>. First the function as one worker runs it, then all
  interleavings of the SQL statements of several workers: the conditional UPDATE, the SELECT
  and the INSERT are atomic, what happens between them is not. Times are in microseconds.
\<close>

record lease =
  holder :: string
  expires :: int

definition seconds :: "int \<Rightarrow> int" where
  "seconds n = n * 1000000"

definition new_expiry :: "int \<Rightarrow> int \<Rightarrow> int" where
  "new_expiry now lease_seconds = now + seconds (max lease_seconds 10)"

text \<open>The statements, on the row of one lock name.\<close>

definition update_row :: "string \<Rightarrow> int \<Rightarrow> int \<Rightarrow> lease option \<Rightarrow> bool \<times> lease option" where
  "update_row me now expiry row =
     (case row of
        Some l \<Rightarrow>
          if expires l < now \<or> holder l = me then (True, Some \<lparr>holder = me, expires = expiry\<rparr>) else (False, row)
      | None \<Rightarrow> (False, None))"

definition insert_lease :: "string \<Rightarrow> int \<Rightarrow> lease option \<Rightarrow> bool \<times> lease option" where
  "insert_lease me expiry row =
     (case row of None \<Rightarrow> (True, Some \<lparr>holder = me, expires = expiry\<rparr>) | Some _ \<Rightarrow> (False, row))"

definition try_acquire_lease ::
  "string \<Rightarrow> string \<Rightarrow> int \<Rightarrow> int \<Rightarrow> (string \<Rightarrow> lease option) \<Rightarrow> bool \<times> (string \<Rightarrow> lease option)" where
  "try_acquire_lease me lock_name lease_seconds now table =
     (let expiry = new_expiry now lease_seconds in
      case update_row me now expiry (table lock_name) of
        (True, row) \<Rightarrow> (True, table(lock_name := row))
      | (False, _) \<Rightarrow>
          if table lock_name \<noteq> None then (False, table)
          else (case insert_lease me expiry (table lock_name) of
                  (ok, row) \<Rightarrow> (ok, table(lock_name := row))))"

lemma acquire_eq:
  "try_acquire_lease me lock_name n now table =
     (case table lock_name of
        None \<Rightarrow> (True, table(lock_name \<mapsto> \<lparr>holder = me, expires = new_expiry now n\<rparr>))
      | Some l \<Rightarrow>
          if expires l < now \<or> holder l = me
          then (True, table(lock_name \<mapsto> \<lparr>holder = me, expires = new_expiry now n\<rparr>))
          else (False, table))"
  by (simp add: try_acquire_lease_def update_row_def insert_lease_def Let_def split: option.splits)

section \<open>Several workers\<close>

text \<open>
  What a worker is doing: nothing, or an attempt that read the clock at a given time and will
  next run its UPDATE, its SELECT or its INSERT.
\<close>

datatype phase = Idle | Updating int | Looking int | Inserting int

text \<open>\<open>wins\<close> records every successful attempt: the worker, the time it read, the new expiry.\<close>

record election =
  clock :: int
  row :: "lease option"
  phase_of :: "string \<Rightarrow> phase"
  wins :: "(string \<times> int \<times> int) list"

definition win :: "string \<Rightarrow> int \<Rightarrow> int \<Rightarrow> lease option \<Rightarrow> election \<Rightarrow> election" where
  "win w now expiry r e =
     e\<lparr>row := r, phase_of := (phase_of e)(w := Idle), wins := wins e @ [(w, now, expiry)]\<rparr>"

inductive election_step :: "(string \<Rightarrow> int) \<Rightarrow> election \<Rightarrow> election \<Rightarrow> bool"
  for secs :: "string \<Rightarrow> int" where
  tick: "clock e \<le> t \<Longrightarrow> election_step secs e (e\<lparr>clock := t\<rparr>)"
| attempt: "phase_of e w = Idle \<Longrightarrow>
     election_step secs e (e\<lparr>phase_of := (phase_of e)(w := Updating (clock e))\<rparr>)"
| update_hit: "phase_of e w = Updating now \<Longrightarrow>
     update_row w now (new_expiry now (secs w)) (row e) = (True, r) \<Longrightarrow>
     election_step secs e (win w now (new_expiry now (secs w)) r e)"
| update_miss: "phase_of e w = Updating now \<Longrightarrow>
     update_row w now (new_expiry now (secs w)) (row e) = (False, r) \<Longrightarrow>
     election_step secs e (e\<lparr>phase_of := (phase_of e)(w := Looking now)\<rparr>)"
| look_found: "phase_of e w = Looking now \<Longrightarrow> row e \<noteq> None \<Longrightarrow>
     election_step secs e (e\<lparr>phase_of := (phase_of e)(w := Idle)\<rparr>)"
| look_none: "phase_of e w = Looking now \<Longrightarrow> row e = None \<Longrightarrow>
     election_step secs e (e\<lparr>phase_of := (phase_of e)(w := Inserting now)\<rparr>)"
| insert_hit: "phase_of e w = Inserting now \<Longrightarrow>
     insert_lease w (new_expiry now (secs w)) (row e) = (True, r) \<Longrightarrow>
     election_step secs e (win w now (new_expiry now (secs w)) r e)"
| insert_miss: "phase_of e w = Inserting now \<Longrightarrow>
     insert_lease w (new_expiry now (secs w)) (row e) = (False, r) \<Longrightarrow>
     election_step secs e (e\<lparr>phase_of := (phase_of e)(w := Idle)\<rparr>)"

definition start_election :: "int \<Rightarrow> election" where
  "start_election t = \<lparr>clock = t, row = None, phase_of = (\<lambda>_. Idle), wins = []\<rparr>"

definition election_run :: "(string \<Rightarrow> int) \<Rightarrow> election \<Rightarrow> election \<Rightarrow> bool" where
  "election_run secs = (election_step secs)\<^sup>*\<^sup>*"

fun phase_time :: "phase \<Rightarrow> int option" where
  "phase_time Idle = None"
| "phase_time (Updating n) = Some n"
| "phase_time (Looking n) = Some n"
| "phase_time (Inserting n) = Some n"

text \<open>
  The invariant: no time lies ahead of the clock; an attempt started after every earlier win of
  its worker; the row is the last win; and of two wins, the later one is by the same worker or
  read a clock past the expiry of the earlier one: the leases of different workers are disjoint.
\<close>

fun before :: "string \<times> int \<times> int \<Rightarrow> string \<times> int \<times> int \<Rightarrow> bool" where
  "before (v, k, x) (w, n, y) = (if v = w then k \<le> n else x < n)"

definition times_ok :: "(string \<Rightarrow> int) \<Rightarrow> election \<Rightarrow> bool" where
  "times_ok secs e \<longleftrightarrow>
     (\<forall>(w, n, x) \<in> set (wins e). n \<le> clock e \<and> x = new_expiry n (secs w)) \<and>
     (\<forall>w n. phase_time (phase_of e w) = Some n \<longrightarrow>
        n \<le> clock e \<and> (\<forall>k x. (w, k, x) \<in> set (wins e) \<longrightarrow> k \<le> n))"

definition row_ok :: "election \<Rightarrow> bool" where
  "row_ok e \<longleftrightarrow>
     row e = (if wins e = [] then None
              else Some \<lparr>holder = fst (last (wins e)), expires = snd (snd (last (wins e)))\<rparr>)"

definition election_ok :: "(string \<Rightarrow> int) \<Rightarrow> election \<Rightarrow> bool" where
  "election_ok secs e \<longleftrightarrow> times_ok secs e \<and> row_ok e \<and> sorted_wrt before (wins e)"

lemma start_ok: "election_ok secs (start_election t)"
  by (simp add: election_ok_def times_ok_def row_ok_def start_election_def)

lemma new_expiry_later: "n < new_expiry n k"
  by (simp add: new_expiry_def seconds_def)

lemma win_after:
  assumes ok: "election_ok secs e" and now: "phase_time (phase_of e w) = Some now"
    and free: "\<And>l. row e = Some l \<Longrightarrow> expires l < now \<or> holder l = w"
    and old: "(v, k, x) \<in> set (wins e)"
  shows "before (v, k, x) (w, now, y)"
proof (cases "v = w")
  case True
  have "k \<le> now" using ok now old True unfolding election_ok_def times_ok_def by blast
  then show ?thesis using True by simp
next
  case False
  from old obtain us h m z where ws: "wins e = us @ [(h, m, z)]"
    by (metis append_butlast_last_id empty_iff list.set(1) prod_cases3)
  then have row: "row e = Some \<lparr>holder = h, expires = z\<rparr>"
    using ok by (simp add: election_ok_def row_ok_def)
  have z: "z = new_expiry m (secs h)" "h = w \<Longrightarrow> m \<le> now"
    using ok now ws by (auto simp: election_ok_def times_ok_def)
  have m: "h \<noteq> w \<Longrightarrow> m < now" "h \<noteq> w \<Longrightarrow> z < now"
    using free[OF row] z(1) new_expiry_later[of m "secs h"] by auto
  show ?thesis
  proof (cases "(v, k, x) \<in> set us")
    case True
    then have "before (v, k, x) (h, m, z)" "x = new_expiry k (secs v)"
      using ok ws by (auto simp: election_ok_def times_ok_def sorted_wrt_append)
    then show ?thesis
      using False m z by (cases "v = h"; cases "h = w") (auto simp: new_expiry_def seconds_def)
  next
    case False
    then show ?thesis using old ws \<open>v \<noteq> w\<close> m by auto
  qed
qed

lemma win_ok:
  assumes ok: "election_ok secs e" and now: "phase_time (phase_of e w) = Some now"
    and free: "\<And>l. row e = Some l \<Longrightarrow> expires l < now \<or> holder l = w"
    and r: "r = Some \<lparr>holder = w, expires = new_expiry now (secs w)\<rparr>"
  shows "election_ok secs (win w now (new_expiry now (secs w)) r e)"
proof -
  have "sorted_wrt before (wins e @ [(w, now, new_expiry now (secs w))])"
    using ok win_after[OF ok now free] by (auto simp: election_ok_def sorted_wrt_append simp del: before.simps)
  moreover have "now \<le> clock e" using ok now by (simp add: election_ok_def times_ok_def)
  ultimately show ?thesis
    using ok r by (auto simp: election_ok_def times_ok_def row_ok_def win_def)
qed

lemma phase_ok:
  assumes "election_ok secs e" "\<And>n. phase_time p = Some n \<Longrightarrow> phase_time (phase_of e w) = Some n \<or> n = clock e"
  shows "election_ok secs (e\<lparr>phase_of := (phase_of e)(w := p)\<rparr>)"
proof -
  have "phase_time ((if v = w then p else phase_of e v)) = Some n \<Longrightarrow>
      n \<le> clock e \<and> (\<forall>k x. (v, k, x) \<in> set (wins e) \<longrightarrow> k \<le> n)" for v n
    using assms by (fastforce simp: election_ok_def times_ok_def split: if_splits)
  then show ?thesis using assms(1) by (simp add: election_ok_def times_ok_def row_ok_def)
qed

lemma step_ok: "election_step secs e e' \<Longrightarrow> election_ok secs e \<Longrightarrow> election_ok secs e'"
proof (induction rule: election_step.induct)
  case (tick e t)
  then show ?case by (fastforce simp: election_ok_def times_ok_def row_ok_def)
next
  case (update_hit e w now r)
  then show ?case by (intro win_ok) (auto simp: update_row_def split: option.splits if_splits)
next
  case (insert_hit e w now r)
  then show ?case by (intro win_ok) (auto simp: insert_lease_def split: option.splits)
qed (auto intro: phase_ok)

lemma run_ok: "election_run secs e e' \<Longrightarrow> election_ok secs e \<Longrightarrow> election_ok secs e'"
  unfolding election_run_def by (induction rule: rtranclp_induct) (auto intro: step_ok)

lemma wins_before:
  assumes "election_ok secs e" "i < j" "j < length (wins e)"
  shows "before (wins e ! i) (wins e ! j)"
  using assms by (simp add: election_ok_def sorted_wrt_iff_nth_less)

text \<open>A worker that runs its statements without interference has run \<open>try_acquire_lease\<close>.\<close>

lemma alone_acquires:
  assumes "phase_of e w = Idle" "table lock_name = row e"
    and "try_acquire_lease w lock_name (secs w) (clock e) table = (ok, table')"
  shows "\<exists>e'. election_run secs e e' \<and> phase_of e' = phase_of e \<and> clock e' = clock e \<and> row e' = table' lock_name \<and>
     (ok \<longleftrightarrow> wins e' = wins e @ [(w, clock e, new_expiry (clock e) (secs w))]) \<and> (\<not> ok \<longrightarrow> wins e' = wins e)"
proof -
  let ?x = "new_expiry (clock e) (secs w)"
  let ?e1 = "e\<lparr>phase_of := (phase_of e)(w := Updating (clock e))\<rparr>"
  have s1: "election_step secs e ?e1" by (rule attempt[OF assms(1)])
  have idle: "(phase_of e)(w := Idle) = phase_of e" using assms(1) by (simp add: fun_upd_idem)
  have now: "phase_of ?e1 w = Updating (clock e)" by simp
  have run: "election_run secs e e'" if "(election_step secs)\<^sup>*\<^sup>* ?e1 e'" for e'
    using s1 that unfolding election_run_def by (rule converse_rtranclp_into_rtranclp)
  obtain b r where u: "update_row w (clock e) ?x (row ?e1) = (b, r)" by (cases "update_row w (clock e) ?x (row ?e1)")
  show ?thesis
  proof (cases b)
    case True
    have "election_step secs ?e1 (win w (clock e) ?x r ?e1)" using update_hit[OF now] u True by simp
    then show ?thesis
      using run[OF r_into_rtranclp] assms(2,3) u True
      by (intro exI[of _ "win w (clock e) ?x r ?e1"])
        (auto simp: win_def try_acquire_lease_def Let_def idle)
  next
    case False
    let ?e2 = "?e1\<lparr>phase_of := (phase_of ?e1)(w := Looking (clock e))\<rparr>"
    have s2: "election_step secs ?e1 ?e2" using update_miss[OF now] u False by simp
    have look: "phase_of ?e2 w = Looking (clock e)" by simp
    show ?thesis
    proof (cases "row e")
      case (Some l)
      let ?e3 = "?e2\<lparr>phase_of := (phase_of ?e2)(w := Idle)\<rparr>"
      have "election_step secs ?e2 ?e3" by (rule look_found[OF look]) (simp add: Some)
      then have "(election_step secs)\<^sup>*\<^sup>* ?e1 ?e3" using s2 by (meson r_into_rtranclp rtranclp.rtrancl_into_rtrancl)
      then show ?thesis
        using run[of ?e3] assms(2,3) u False Some
        by (intro exI[of _ ?e3]) (auto simp: try_acquire_lease_def Let_def idle)
    next
      case None
      let ?e3 = "?e2\<lparr>phase_of := (phase_of ?e2)(w := Inserting (clock e))\<rparr>"
      let ?r = "Some \<lparr>holder = w, expires = ?x\<rparr>"
      let ?e4 = "win w (clock e) ?x ?r ?e3"
      have "election_step secs ?e2 ?e3" by (rule look_none[OF look]) (simp add: None)
      moreover have "election_step secs ?e3 ?e4"
        by (rule insert_hit) (simp_all add: insert_lease_def None)
      ultimately have "(election_step secs)\<^sup>*\<^sup>* ?e1 ?e4"
        using s2 by (meson r_into_rtranclp rtranclp.rtrancl_into_rtrancl)
      then show ?thesis
        using run[of ?e4] assms(2,3) u False None
        by (intro exI[of _ ?e4]) (auto simp: win_def try_acquire_lease_def insert_lease_def Let_def idle)
    qed
  qed
qed

end
