(* ===== verification/Sample_World.thy ===== *)
theory Sample_World
  imports Daemon_Laws Wg_Config_File Iptables_Machine Port_Guard Lease
begin

text \<open>
  Concrete instances of the parameters of the model, at which the properties are applied: a
  docker that creates what it is asked to, a file system that is a map from paths to texts, a
  host whose programs succeed, and the service with its first database states.
\<close>

section \<open>A docker, a host, files\<close>

definition sample_container :: container where
  "sample_container =
     \<lparr>ct_id = ''c1'', ct_name = ''edo_web_team_7'', ct_status = ''running'', ct_labels = None,
      ct_attrs = JObj []\<rparr>"

definition sample_docker :: "'w docker" where
  "sample_docker =
     \<lparr>sdk_available = True,
      connect = (\<lambda>w. (Inr (), w)),
      networks_get = (\<lambda>_ w. (Inl (NotFound ''no network''), w)),
      networks_create = (\<lambda>_ w. (Inr (), w)),
      network_remove = (\<lambda>_ w. (Inr (), w)),
      images_get = (\<lambda>_ w. (Inr \<lparr>img_attrs = JObj []\<rparr>, w)),
      images_build = (\<lambda>_ _ w. (Inr (), w)),
      create_host_config = (\<lambda>kwargs. Inr (JObj kwargs)),
      create_endpoint_config = (\<lambda>ip. Inr (JStr ip)),
      create_networking_config = (\<lambda>kvs. Inr (JObj kvs)),
      create_container = (\<lambda>_ w. (Inr ''c1'', w)),
      start = (\<lambda>_ w. (Inr (), w)),
      containers_get = (\<lambda>_ w. (Inr sample_container, w)),
      container_reload = (\<lambda>c w. (Inr c, w)),
      container_stop = (\<lambda>_ _ w. (Inr (), w)),
      container_remove = (\<lambda>_ _ w. (Inr (), w)),
      containers_list = (\<lambda>_ _ w. (Inr [], w))\<rparr>"

definition sample_machine :: "'w host \<Rightarrow> 'w machine" where
  "sample_machine h =
     \<lparr>host_of = h, docker_of = sample_docker, is_file = (\<lambda>_ _. True), iso_after = (\<lambda>_ _. ''2026-01-01T00:00:00+00:00''),
      os_environ = [], port_range_start = 30000, port_range_end = 30009,
      float_int = (\<lambda>_. Inl (ValueError ''float'')), nano = (\<lambda>_. Inl (ValueError ''float''))\<rparr>"

lemma sample_machine_sel [simp]:
  "port_range_start (sample_machine h) = 30000" "port_range_end (sample_machine h) = 30009"
  "host_of (sample_machine h) = h" "docker_of (sample_machine h) = sample_docker"
  "is_file (sample_machine h) p w"
  by (simp_all add: sample_machine_def)

definition mem_files :: "(string \<Rightarrow> string option) files" where
  "mem_files =
     \<lparr>file_exists = (\<lambda>p w. w p \<noteq> None),
      read_text = (\<lambda>p w. (case w p of None \<Rightarrow> Inl (FileNotFoundError p) | Some t \<Rightarrow> Inr t, w)),
      write_text = (\<lambda>p t w. (Inr (), w(p \<mapsto> t))),
      append_text = (\<lambda>p t w. (Inr (), w(p \<mapsto> (case w p of None \<Rightarrow> t | Some old \<Rightarrow> old @ t)))),
      make_dirs = (\<lambda>_ w. (Inr (), w)),
      change_mode = (\<lambda>_ _ w. (Inr (), w)),
      unlink = (\<lambda>p w. (Inr (), w(p := None)))\<rparr>"

definition no_files :: "'w files" where
  "no_files =
     \<lparr>file_exists = (\<lambda>_ _. False), read_text = (\<lambda>p w. (Inl (FileNotFoundError p), w)),
      write_text = (\<lambda>_ _ w. (Inr (), w)), append_text = (\<lambda>_ _ w. (Inr (), w)), make_dirs = (\<lambda>_ w. (Inr (), w)),
      change_mode = (\<lambda>_ _ w. (Inr (), w)), unlink = (\<lambda>_ w. (Inr (), w))\<rparr>"

text \<open>The same files on a disk where a client configuration cannot be written.\<close>

definition full_disk :: "(string \<Rightarrow> string option) files" where
  "full_disk = mem_files\<lparr>write_text := (\<lambda>p t w. (Inl (OSError ''No space left on device''), w))\<rparr>"

definition calm_host :: "'w host" where
  "calm_host = \<lparr>exec = (\<lambda>_ w. (Exited 0 ''a2V5'' [], w)), which = (\<lambda>_ _. False)\<rparr>"

lemma mem_files_documented: "documented_files mem_files calm_host id"
  by (auto simp: documented_files_def mem_files_def calm_host_def split: option.splits)

lemma full_disk_documented: "documented_files full_disk calm_host id"
  by (auto simp: documented_files_def full_disk_def mem_files_def calm_host_def split: option.splits)

section \<open>The service\<close>

definition sample_service :: "'w host \<Rightarrow> 'w files \<Rightarrow> 'w service" where
  "sample_service h fs =
     \<lparr>machine_of = sample_machine h, files_of = fs, allowed_uid = Some ''1000'',
      vpn_endpoint = ''vpn.example.com:51820'', vpn_port = 51820\<rparr>"

definition fresh_daemon :: "'w \<Rightarrow> 'w daemon" where
  "fresh_daemon w = \<lparr>store = empty_db, world = w, client_cached = False, buildkit_ok = None\<rparr>"

definition sample_peer :: peer where
  "sample_peer =
     \<lparr>peer_id = 1, peer_owner = (''team'', 7), username = ''user_3'', ip_address = ''10.8.0.2'',
      public_key = ''a2V5'', private_key = Some ''a2V5''\<rparr>"

definition sample_inst :: inst where
  "sample_inst =
     \<lparr>inst_id = 1, container_id = ''c1'', container_name = ''edo_web_team_7'', inst_owner = (''team'', 7),
      challenge_ref = ''web'', assigned_ip = ''10.9.1.2'', ports = ''[]'', status = ''running'',
      expires_at = None, published_ports = None\<rparr>"

text \<open>One team with a subnet, a peer and a running instance, and a second team with a subnet.\<close>

definition busy_db :: db where
  "busy_db =
     \<lparr>peers = [sample_peer], peer_seq = 1,
      octets = [\<lparr>oct_owner = (''team'', 7), octet = 1\<rparr>, \<lparr>oct_owner = (''team'', 8), octet = 2\<rparr>],
      instances = [sample_inst], inst_seq = 1\<rparr>"

definition busy_daemon :: "'w \<Rightarrow> 'w daemon" where
  "busy_daemon w = \<lparr>store = busy_db, world = w, client_cached = True, buildkit_ok = None\<rparr>"

lemma store_sample [simp]: "store (fresh_daemon w) = empty_db" "store (busy_daemon w) = busy_db"
  by (simp_all add: fresh_daemon_def busy_daemon_def)

lemma wg_text:
  "ip_str 168296450 = ''10.8.0.2''" "ip_str 168296449 = WG_SERVER_IP"
proof -
  have "ip_str 168296450 = joins ''.'' (map str_nat [10, 8, 0, 2])" by (simp add: ip_str_def ip_octets_def)
  also have "\<dots> = ''10.8.0.2''" by code_simp
  finally show "ip_str 168296450 = ''10.8.0.2''" .
  have "ip_str 168296449 = joins ''.'' (map str_nat [10, 8, 0, 1])" by (simp add: ip_str_def ip_octets_def)
  also have "\<dots> = WG_SERVER_IP" by code_simp
  finally show "ip_str 168296449 = WG_SERVER_IP" .
qed

lemma sample_candidate: "''10.8.0.2'' \<in> set peer_candidate_ips"
proof -
  have "''10.8.0.2'' \<noteq> WG_SERVER_IP" by (simp add: WG_SERVER_IP_def)
  moreover have "168296450 \<in> set (hosts WG_SUBNET)" unfolding hosts_wg set_upt by simp
  then have "''10.8.0.2'' \<in> set (map ip_str (hosts WG_SUBNET))"
    unfolding set_map wg_text(1)[symmetric] by (rule imageI)
  ultimately show ?thesis unfolding peer_candidate_ips_def ordered_hosts_filter by simp
qed

lemma empty_ok: "peers_in_pool empty_db" "service_ok empty_db"
  using empty_db_ok
  by (simp_all add: peers_in_pool_def service_ok_def daemon_ok_def housed_def, simp_all add: empty_db_def)

lemma busy_db_ok: "db_ok busy_db"
  using candidate_wg[OF sample_candidate]
  by (simp add: db_ok_def peers_ok_def octets_ok_def instances_ok_def busy_db_def sample_peer_def sample_inst_def)

lemma busy_ok: "peers_in_pool busy_db" "service_ok busy_db"
  using busy_db_ok sample_candidate
  by (simp_all add: peers_in_pool_def service_ok_def daemon_ok_def housed_def)
    (simp_all add: busy_db_def sample_peer_def sample_inst_def get_octet_def)

section \<open>A rebuild on the simulated machine\<close>

lemma pools_differ: "net_str WG_SUBNET \<noteq> net_str DOCKER_POOL"
  by (simp add: net_str_inj) (simp add: WG_SUBNET_def DOCKER_POOL_def)

lemma sim_firewall: "\<exists>res w. apply_firewall sim_host Map.empty [] 51820 fresh_chains = (Inr res, w)"
  by (simp add: apply_firewall_def get_public_interface_def sim_host_def cmd_def py_run_def raw_run_def split_ws_def is_space_def
    run_or_raise_def hook_chain_def unhook_edo_from_all_def forward_hook_def FORWARD_HOOK_CANDIDATES_def chain_exists_def
    fresh_chains_def iptables_check_def iptables_append_def iptables_delete_def run_recorded_def
    preferred_forward_hook_def build_chain_rules_def EDO_CHAIN_def pools_differ pools_differ[symmetric]
    apply_wg_input_rule_def firewalld_active_def input_hook_def EDO_INPUT_CHAIN_def run_or_return_def wg_input_rule_def
    eval_nat_numeral Let_def)

lemma sim_rebuild:
  "\<exists>s'. rebuild_firewall (sample_service sim_host no_files) (fresh_daemon fresh_chains) = (Inr (), s')"
proof -
  have "peers_grouped_by_owner empty_db = Map.empty" "octets_by_owner empty_db = []"
    by (simp_all add: peers_grouped_by_owner_def get_all_peers_def octets_by_owner_def get_all_owner_octets_def empty_db_def)
  then show ?thesis
    using sim_firewall by (auto simp: rebuild_firewall_def on_world_def sample_service_def sample_machine_def fresh_daemon_def)
qed

section \<open>Packets\<close>

text \<open>From a container of octet 1 to one of octet 2; from the peer to a container of octet 1.\<close>

definition pool_packet :: packet where
  "pool_packet = \<lparr>pkt_src = 168362242, pkt_dst = 168362498, pkt_oif = ''edo_o2''\<rparr>"

lemma pool_packet_facts:
  "wf_packet pool_packet" "in_net (pkt_src pool_packet) (owner_net 1)" "in_net (pkt_dst pool_packet) (owner_net 2)"
  "in_net (pkt_src pool_packet) DOCKER_POOL" "in_net (pkt_dst pool_packet) DOCKER_POOL"
  by (simp_all add: pool_packet_def wf_packet_def in_owner_net_iff in_docker_pool_iff)

lemma eth_plain: "plain_iface ''eth0''"
  by (simp add: plain_iface_def)

definition own_packet :: packet where
  "own_packet = \<lparr>pkt_src = 168296450, pkt_dst = 168362242, pkt_oif = ''edo_o1''\<rparr>"

lemma own_packet_facts:
  "wf_packet own_packet" "in_net (pkt_dst own_packet) (owner_net 1)" "ip_str (pkt_src own_packet) = ''10.8.0.2''"
  by (simp_all add: own_packet_def wf_packet_def in_owner_net_iff wg_text)

lemma own_packet_accepted:
  "chain_decision reading_match ''eth0'' (peers_grouped_by_owner busy_db) (octets_by_owner busy_db) own_packet = Accepted"
proof -
  have "((''team'', 7), 1) \<in> set (octets_by_owner busy_db)"
    by (simp add: octets_by_owner_iff[OF busy_db_ok]) (simp add: busy_db_def get_octet_def)
  moreover have "ip_str (pkt_src own_packet) \<in> set (get_peers (peers_grouped_by_owner busy_db) (''team'', 7))"
    by (auto simp: grouped_iff own_packet_facts busy_db_def sample_peer_def)
  ultimately show ?thesis
    using own_packet_facts
    by (intro fwdb.own_access_accepted[OF documented_reading_match eth_plain busy_db_ok, where key = "(''team'', 7)" and k = 1])
      simp_all
qed

section \<open>Octets\<close>

lemma first_free_octet: "first_free OCTETS [] = Some 1"
proof -
  have os: "OCTETS = 1 # [2..254]" by (simp add: OCTETS_def upto_rec1 del: upto_rec_numeral)
  show ?thesis unfolding first_free_def os by simp
qed

lemma first_octet: "allocate_octet ow empty_db = (Inr 1, empty_db\<lparr>octets := [\<lparr>oct_owner = ow, octet = 1\<rparr>]\<rparr>)"
  by (simp add: allocate_octet_eq get_octet_def first_free_octet empty_db_def)

lemma second_octet:
  assumes "ow' \<noteq> ow"
  shows "allocate_octet ow' (empty_db\<lparr>octets := [\<lparr>oct_owner = ow, octet = 1\<rparr>]\<rparr>) =
     (Inr 2, empty_db\<lparr>octets := [\<lparr>oct_owner = ow, octet = 1\<rparr>, \<lparr>oct_owner = ow', octet = 2\<rparr>]\<rparr>)"
proof -
  have os: "OCTETS = 1 # 2 # [3..254]" by (simp add: OCTETS_def upto_rec1 del: upto_rec_numeral)
  have "first_free OCTETS [1] = Some 2" unfolding first_free_def os by simp
  then show ?thesis using assms by (simp add: allocate_octet_eq get_octet_def empty_db_def)
qed

text \<open>All octets are held, each by a team.\<close>

definition full_db :: db where
  "full_db = empty_db\<lparr>octets := map (\<lambda>k. \<lparr>oct_owner = (''team'', k), octet = k\<rparr>) OCTETS\<rparr>"

lemma full_db_facts:
  "map octet (octets full_db) = OCTETS" "map oct_owner (octets full_db) = map (Pair ''team'') OCTETS"
  "peers full_db = []" "instances full_db = []"
  by (simp_all add: full_db_def empty_db_def o_def)

lemma full_db_ok: "db_ok full_db"
proof -
  have "octets_ok full_db"
    unfolding octets_ok_def full_db_facts
  proof (intro conjI ballI)
    fix q assume "q \<in> set (octets full_db)"
    then have "octet q \<in> set (map octet (octets full_db))" by simp
    then show "1 \<le> octet q" "octet q \<le> 254" by (simp_all only: full_db_facts set_OCTETS atLeastAtMost_iff)
  qed (simp_all add: distinct_map inj_on_def)
  then show ?thesis by (simp add: db_ok_def peers_ok_def instances_ok_def full_db_facts)
qed

section \<open>A request\<close>

definition web_request :: spawn_request where
  "web_request =
     \<lparr>sr_owner = (''team'', 8), sr_challenge = ''web'', sr_path = ''/srv/web'', sr_profile = default_profile,
      sr_ttl = Some 3600, sr_publish = False\<rparr>"

text \<open>An instance that has port 30000 of the host, and the ports that are chosen next.\<close>

definition published_db :: db where
  "published_db = busy_db\<lparr>instances := [sample_inst\<lparr>published_ports := json_published [(''80/tcp'', 30000)]\<rparr>]\<rparr>"

lemma published_ports_chosen:
  "allocate_public_ports (sample_machine h) 2 [30001] published_db = Inr [30002, 30003]"
proof -
  let ?pm = "[(''80/tcp'', 30000::int)]"
  obtain t where t: "json_published ?pm = Some t" by (simp add: json_published_def)
  have "used_public_ports (sample_machine h) published_db = Inr [30000]"
    using loads_published[OF _ t]
    by (simp add: used_public_ports_def get_all_instances_def published_db_def t obj_items_def json_int_def)
  then show ?thesis by (simp add: allocate_public_ports_def)
qed

text \<open>A docker that reports every address as in use, and the first address of octet 2.\<close>

definition taken_machine :: "nat machine" where
  "taken_machine = (sample_machine calm_host)\<lparr>docker_of :=
     sample_docker\<lparr>create_container := (\<lambda>_ w. (Inl (APIError ''Address already in use''), w))\<rparr>\<rparr>"

definition web_plan :: spawn_plan where
  "web_plan =
     \<lparr>pl_network = bridge_name 2, pl_octet = 2, pl_image = image_tag_for ''web'',
      pl_name = container_name_for ''web'' (''team'', 8), pl_expires = None, pl_exposed = []\<rparr>"

lemma first_address: "find_next_owner_ip (''team'', 8) 2 busy_db = Inr ''10.9.2.2''"
proof -
  have "[ip_of_octets 10 9 2 1 ..< ip_of_octets 10 9 2 255]
      = ip_of_octets 10 9 2 1 # ip_of_octets 10 9 2 2 # [ip_of_octets 10 9 2 3 ..< ip_of_octets 10 9 2 255]"
    by (simp add: upt_conv_Cons ip_of_octets_def del: upt_rec_numeral)
  moreover have "str_nat 2 = ''2''" "str_nat 1 = ''1''" by code_simp+
  then have "ip_str (ip_of_octets 10 9 2 1) = ''10.9.2.1''" "ip_str (ip_of_octets 10 9 2 2) = ''10.9.2.2''"
    by (simp_all add: ip_str_10_9)
  moreover have "owner_gateway_ip 2 = ''10.9.2.1''" by code_simp
  moreover have "get_used_instance_ips (''team'', 8) busy_db = []"
    by (simp add: get_used_instance_ips_def busy_db_def sample_inst_def)
  ultimately have "first_free (map ip_str (hosts (owner_net 2))) (get_used_instance_ips (''team'', 8) busy_db @ [owner_gateway_ip 2])
      = Some ''10.9.2.2''"
    unfolding hosts_owner_net by (simp add: first_free_def)
  then show ?thesis by (simp add: find_next_owner_ip_eq iter_subnet_hosts_def)
qed

lemma sample_plain: "plain_value ''a2V5''" "plain_peer sample_peer"
  by code_simp+

section \<open>A peer that is added and removed\<close>

definition plain_daemon :: "(string \<Rightarrow> string option) daemon" where
  "plain_daemon = \<lparr>store = empty_db, world = [WG_SERVER_CONFIG \<mapsto> config_form 51820 ''a2V5'' []],
     client_cached = False, buildkit_ok = None\<rparr>"

definition sample_server :: server_config where
  "sample_server = \<lparr>sv_private = ''a2V5'', sv_public = ''a2V5'', sv_endpoint = ''vpn.example.com:51820'', sv_port = 51820\<rparr>"

lemma first_candidate: "\<exists>ip. first_free peer_candidate_ips [] = Some ip"
  using ff.pick_available[of peer_candidate_ips "[]"] sample_candidate by fastforce

lemma sample_add:
  "\<exists>cc s1 s2.
     add_peer calm_host mem_files (''team'', 7) ''user_3'' sample_server None None plain_daemon = (Inr cc, s1) \<and>
     remove_peer calm_host mem_files ''user_3'' None s1 = (Inr True, s2)"
proof -
  obtain ip where ip: "first_free peer_candidate_ips [] = Some ip" using first_candidate by blast
  show ?thesis
    by (simp add: add_peer_def choose_keys_def generate_keypair_def on_world_def py_run_def calm_host_def
      insert_and_install_def on_db_def allocate_peer_eq ip install_peer_def append_peer_to_server_config_def
      finish_install_def live_add_peer_def mem_files_def plain_daemon_def empty_db_def Let_def
      remove_peer_def get_peer_def live_remove_peer_def rewrite_server_config_def drop_peer_def db_call_def remove_peer_row_def
      split: option.split)
qed

section \<open>A peer that exists\<close>

definition vpn_daemon :: "(string \<Rightarrow> string option) daemon" where
  "vpn_daemon = plain_daemon\<lparr>store := busy_db\<rparr>"

lemma sample_load:
  "\<exists>server. load_server_config calm_host mem_files endpoint port vpn_daemon = (Inr server, vpn_daemon)"
proof -
  obtain p where p: "ini_parse (config_form 51820 ''a2V5'' []) = Inr p" "has_section ''Interface'' p"
    "section_items ''Interface'' p ''PrivateKey'' = Some (Some ''a2V5'')"
    using config_reads_back[OF sample_plain(1), of "[]" 51820] by auto
  have key: "strip ''a2V5'' = ''a2V5''" by code_simp
  show ?thesis
    by (simp add: load_server_config_def parse_interface_section_def derive_pubkey_def on_world_def py_run_def
        calm_host_def mem_files_def vpn_daemon_def plain_daemon_def p key Let_def)
qed

lemma sample_ensure:
  "\<exists>r. \<forall>ow. ensure_peer (sample_service calm_host mem_files) ow ''user_3'' vpn_daemon = (Inr r, vpn_daemon)"
proof -
  obtain server where "load_server_config calm_host mem_files ''vpn.example.com:51820'' 51820 vpn_daemon = (Inr server, vpn_daemon)"
    using sample_load by blast
  moreover have "get_peer ''user_3'' (store vpn_daemon) = Some sample_peer"
    by (simp add: vpn_daemon_def busy_db_def sample_peer_def get_peer_def)
  ultimately show ?thesis
    by (simp add: ensure_peer_def sample_service_def)
qed

section \<open>Two workers\<close>

lemma sample_election:
  "\<exists>e. election_run (\<lambda>_. 30) (start_election 0) e \<and> wins e = [(''w1'', 0, 30000000), (''w2'', 30000001, 60000001)]"
proof -
  let ?t1 = "(\<lambda>_. None)(''sweep'' \<mapsto> \<lparr>holder = ''w1'', expires = 30000000\<rparr>)"
  let ?t2 = "(\<lambda>_. None)(''sweep'' \<mapsto> \<lparr>holder = ''w2'', expires = 60000001\<rparr>)"
  have "try_acquire_lease ''w1'' ''sweep'' 30 (clock (start_election 0)) (\<lambda>_. None) = (True, ?t1)"
    by (simp add: acquire_eq start_election_def new_expiry_def seconds_def)
  then obtain e1 where e1: "election_run (\<lambda>_. 30) (start_election 0) e1" "phase_of e1 = (\<lambda>_. Idle)" "clock e1 = 0"
    "row e1 = ?t1 ''sweep''" "wins e1 = [(''w1'', 0, 30000000)]"
    using alone_acquires[of "start_election 0" "''w1''" "\<lambda>_. None" "''sweep''" "\<lambda>_. 30"]
    by (auto simp: start_election_def new_expiry_def seconds_def)
  let ?e2 = "e1\<lparr>clock := 30000001\<rparr>"
  have step: "election_step (\<lambda>_. 30) e1 ?e2" using e1(3) by (intro tick) simp
  have "try_acquire_lease ''w2'' ''sweep'' 30 (clock ?e2) ?t1 = (True, ?t2)"
    by (simp add: acquire_eq new_expiry_def seconds_def)
  then obtain e3 where e3: "election_run (\<lambda>_. 30) ?e2 e3"
    "wins e3 = [(''w1'', 0, 30000000), (''w2'', 30000001, 60000001)]"
    using alone_acquires[of ?e2 "''w2''" ?t1 "''sweep''" "\<lambda>_. 30"] e1
    by (auto simp: new_expiry_def seconds_def)
  have "election_run (\<lambda>_. 30) (start_election 0) e3"
    using e1(1) step e3(1) unfolding election_run_def by (meson rtranclp.rtrancl_into_rtrancl rtranclp_trans)
  then show ?thesis using e3(2) by blast
qed

section \<open>A machine that refuses rules\<close>

definition no_append_host :: "chains host" where
  "no_append_host =
     sim_host\<lparr>exec := (\<lambda>c w. if take 2 (argv c) = [''iptables'', ''-A''] then (Exited 1 [] ''no'', w) else exec sim_host c w)\<rparr>"

lemma no_append_ok: "iptables_ok no_append_host id"
  using sim_host_ok
  by (auto simp: iptables_ok_def no_append_host_def cmd_def query_option_def take_Cons' split: if_splits)
    (case_tac args, simp_all)+

lemma no_append_flush: "flush_works no_append_host id"
  by (auto simp: flush_works_def no_append_host_def sim_host_def cmd_def)

lemma no_append_refuses:
  "\<exists>msg. install_rules no_append_host (map ((#) EDO_CHAIN) [[''-j'', ''DROP'']]) (fresh_chains(EDO_CHAIN \<mapsto> []))
     = (Inl (RuntimeError (''failed to install rule '' @ msg)), fresh_chains(EDO_CHAIN \<mapsto> []))"
  by (simp add: no_append_host_def iptables_append_def iptables_check_def run_recorded_def raw_run_def py_run_def
      cmd_def sim_host_def fresh_chains_def)

lemma str_nat_one: "str_nat 1 = ''1''"
  by code_simp

end
