(* ===== verification/Sample_Threads.thy ===== *)
theory Sample_Threads
  imports Daemon_Threads Sample_World
begin

text \<open>
  A run of three concurrent requests on a docker that has networks and containers: it knows a
  network by its name, refuses to remove one that a container is attached to, and creates a
  container only in a network that exists. Team 7 releases its last container while its next
  spawn is building, and team 9 spawns meanwhile.
\<close>

section \<open>A docker with networks\<close>

record dock =
  nets :: "string list"
  boxes :: "(string \<times> string) list"

definition dock_net :: "string \<Rightarrow> docker_net" where
  "dock_net n = \<lparr>net_id = n, net_attrs =
     JObj [(''Options'', JObj [(''com.docker.network.bridge.gateway_mode_ipv4'', JStr ''routed'')])]\<rparr>"

definition dock_container :: "string \<Rightarrow> container" where
  "dock_container c = \<lparr>ct_id = c, ct_name = c, ct_status = ''running'', ct_labels = None, ct_attrs = JObj []\<rparr>"

definition dock_create :: "container_spec \<Rightarrow> (dock, string) act" where
  "dock_create spec w =
     (case cs_networking spec of
        JObj ((n, _) # _) \<Rightarrow>
          if n \<notin> set (nets w) then (Inl (NotFound ''network not found''), w)
          else if cs_name spec \<in> fst ` set (boxes w) then (Inl (APIError ''name is already in use''), w)
          else (Inr (cs_name spec), w\<lparr>boxes := (cs_name spec, n) # boxes w\<rparr>)
      | _ \<Rightarrow> (Inl (APIError ''no network''), w))"

definition dock_docker :: "dock docker" where
  "dock_docker = sample_docker
     \<lparr>networks_get := \<lambda>n w. (if n \<in> set (nets w) then Inr (dock_net n) else Inl (NotFound ''network not found''), w),
      networks_create := \<lambda>spec w.
        if ns_name spec \<in> set (nets w) then (Inl (APIError ''network already exists''), w)
        else (Inr (), w\<lparr>nets := ns_name spec # nets w\<rparr>),
      network_remove := \<lambda>n w.
        if n \<in> snd ` set (boxes w) then (Inl (APIError ''network has active endpoints''), w)
        else (Inr (), w\<lparr>nets := filter (\<lambda>n'. n' \<noteq> n) (nets w)\<rparr>),
      create_container := dock_create,
      containers_get := \<lambda>c w. (if c \<in> fst ` set (boxes w) then Inr (dock_container c) else Inl (NotFound ''no container''), w),
      container_remove := \<lambda>c _ w. (Inr (), w\<lparr>boxes := filter (\<lambda>(c', n). c' \<noteq> c) (boxes w)\<rparr>)\<rparr>"

definition dock_service :: "dock service" where
  "dock_service = (sample_service calm_host no_files)
     \<lparr>machine_of := (sample_machine calm_host)\<lparr>docker_of := dock_docker\<rparr>\<rparr>"

section \<open>The run\<close>

definition late_request :: spawn_request where
  "late_request = web_request\<lparr>sr_owner := (''team'', 7), sr_challenge := ''pwn''\<rparr>"

definition other_request :: spawn_request where
  "other_request = web_request\<lparr>sr_owner := (''team'', 9)\<rparr>"

definition dock_daemon :: "dock daemon" where
  "dock_daemon = busy_daemon \<lparr>nets = [bridge_name 1, bridge_name 2], boxes = [(''c1'', bridge_name 1)]\<rparr>"

definition freed_db :: db where
  "freed_db = busy_db\<lparr>octets := [\<lparr>oct_owner = (''team'', 8), octet = 2\<rparr>], instances := []\<rparr>"

definition freed_daemon :: "dock daemon" where
  "freed_daemon = dock_daemon\<lparr>store := freed_db, world := \<lparr>nets = [bridge_name 2], boxes = []\<rparr>\<rparr>"

definition given_db :: db where
  "given_db = freed_db\<lparr>octets := [\<lparr>oct_owner = (''team'', 8), octet = 2\<rparr>, \<lparr>oct_owner = (''team'', 9), octet = 1\<rparr>]\<rparr>"

definition given_daemon :: "dock daemon" where
  "given_daemon = dock_daemon\<lparr>store := given_db, world := \<lparr>nets = [bridge_name 1, bridge_name 2], boxes = []\<rparr>\<rparr>"

lemma dock_sel [simp]:
  "store dock_daemon = busy_db" "client_cached dock_daemon" "world dock_daemon = \<lparr>nets = [bridge_name 1, bridge_name 2], boxes = [(''c1'', bridge_name 1)]\<rparr>"
  "store freed_daemon = freed_db" "client_cached freed_daemon" "world freed_daemon = \<lparr>nets = [bridge_name 2], boxes = []\<rparr>"
  "store given_daemon = given_db" "client_cached given_daemon" "world given_daemon = \<lparr>nets = [bridge_name 1, bridge_name 2], boxes = []\<rparr>"
  "docker_of (machine_of dock_service) = dock_docker" "host_of (machine_of dock_service) = calm_host"
  "sr_owner late_request = (''team'', 7)" "sr_challenge late_request = ''pwn''" "sr_publish late_request = False" "sr_path late_request = ''/srv/web''"
  "sr_profile late_request = default_profile" "sr_owner other_request = (''team'', 9)" "sr_challenge other_request = ''web''"
  by (simp_all add: dock_daemon_def freed_daemon_def given_daemon_def busy_daemon_def dock_service_def sample_service_def
      late_request_def other_request_def web_request_def sample_machine_def)

lemma dock_calls [simp]:
  "networks_get dock_docker n w = (if n \<in> set (nets w) then Inr (dock_net n) else Inl (NotFound ''network not found''), w)"
  "networks_create dock_docker spec w =
     (if ns_name spec \<in> set (nets w) then (Inl (APIError ''network already exists''), w)
      else (Inr (), w\<lparr>nets := ns_name spec # nets w\<rparr>))"
  "network_remove dock_docker n w =
     (if n \<in> snd ` set (boxes w) then (Inl (APIError ''network has active endpoints''), w)
      else (Inr (), w\<lparr>nets := filter (\<lambda>n'. n' \<noteq> n) (nets w)\<rparr>))"
  "create_container dock_docker = dock_create"
  "containers_get dock_docker c w = (if c \<in> fst ` set (boxes w) then Inr (dock_container c) else Inl (NotFound ''no container''), w)"
  "container_remove dock_docker c b w = (Inr (), w\<lparr>boxes := filter (\<lambda>(c', n). c' \<noteq> c) (boxes w)\<rparr>)"
  "container_stop dock_docker c t w = (Inr (), w)" "container_reload dock_docker ct w = (Inr ct, w)"
  "start dock_docker c w = (Inr (), w)" "images_get dock_docker tag w = (Inr \<lparr>img_attrs = JObj []\<rparr>, w)"
  "images_build dock_docker tag path w = (Inr (), w)" "create_host_config dock_docker kw = Inr (JObj kw)"
  "create_endpoint_config dock_docker ip = Inr (JStr ip)" "create_networking_config dock_docker kvs = Inr (JObj kvs)"
  by (simp_all add: dock_docker_def sample_docker_def)

lemma dock_routed [simp]: "network_is_routed (dock_net n) = Inr True" "net_id (dock_net n) = n"
  "ct_id (dock_container c) = c" "ct_attrs (dock_container c) = JObj []"
  by (simp_all add: network_is_routed_def dock_net_def obj_get_def or_empty_def dock_container_def)

lemma bridges: "bridge_name 1 \<noteq> bridge_name 2" "bridge_name 2 \<noteq> bridge_name 1"
  by code_simp+

lemma late_begins:
  "ensure_owner_network (machine_of dock_service) (''team'', 7) dock_daemon = (Inr 1, dock_daemon)"
proof -
  have "allocate_octet (''team'', 7) busy_db = (Inr 1, busy_db)"
    by (rule allocate_octet_held) (simp add: get_octet_def busy_db_def)
  then show ?thesis
    by (simp add: ensure_owner_network_def on_db_def get_client_def pure_def owner_subnet_eq on_world_def Let_def)
qed

lemma busy_rows: "find_by_id ''c1'' busy_db = Some sample_inst" "inst_owner sample_inst = (''team'', 7)"
  "remove_instance ''c1'' busy_db = (True, busy_db\<lparr>instances := []\<rparr>)"
  "get_octet (''team'', 7) (busy_db\<lparr>instances := []\<rparr>) = Some 1"
  "count_instances_for_owner ow (busy_db\<lparr>instances := []\<rparr>) = 0"
  "free_octet (''team'', 7) (busy_db\<lparr>instances := []\<rparr>) = (True, freed_db)"
  by (simp_all add: find_by_id_def get_all_instances_def busy_db_def sample_inst_def remove_instance_def get_octet_def
      count_instances_for_owner_def free_octet_def freed_db_def)

lemma last_released: "release_instance (machine_of dock_service) ''c1'' dock_daemon = (Inr True, freed_daemon)"
  by (simp add: release_instance_def Let_def get_client_def stop_and_remove_def on_world_def busy_rows db_call_def
      release_owner_network_if_idle_def bridges freed_daemon_def)

lemma other_begins:
  "ensure_owner_network (machine_of dock_service) (''team'', 9) freed_daemon = (Inr 1, given_daemon)"
proof -
  have "first_free OCTETS [2] = Some 1"
    by (simp add: first_free_def OCTETS_def upto_rec1 del: upto_rec_numeral)
  then have "allocate_octet (''team'', 9) freed_db = (Inr 1, given_db)"
    by (simp add: allocate_octet_eq get_octet_def freed_db_def given_db_def)
  then show ?thesis
    by (simp add: ensure_owner_network_def on_db_def get_client_def pure_def owner_subnet_eq on_world_def Let_def
        create_owner_network_def network_spec_def bridges given_daemon_def freed_daemon_def)
qed

lemma free_address:
  assumes "get_used_instance_ips ow d = []"
  shows "find_next_owner_ip ow 1 d = Inr ''10.9.1.2''"
proof -
  have "[ip_of_octets 10 9 1 1 ..< ip_of_octets 10 9 1 255]
      = ip_of_octets 10 9 1 1 # ip_of_octets 10 9 1 2 # [ip_of_octets 10 9 1 3 ..< ip_of_octets 10 9 1 255]"
    by (simp add: upt_conv_Cons ip_of_octets_def del: upt_rec_numeral)
  moreover have "str_nat 2 = ''2''" "str_nat 1 = ''1''" by code_simp+
  then have "ip_str (ip_of_octets 10 9 1 1) = ''10.9.1.1''" "ip_str (ip_of_octets 10 9 1 2) = ''10.9.1.2''"
    by (simp_all add: ip_str_10_9)
  moreover have "owner_gateway_ip 1 = ''10.9.1.1''" by code_simp
  ultimately have "first_free (map ip_str (hosts (owner_net 1))) (get_used_instance_ips ow d @ [owner_gateway_ip 1])
      = Some ''10.9.1.2''"
    using assms unfolding hosts_owner_net by (simp add: first_free_def)
  then show ?thesis by (simp add: find_next_owner_ip_eq iter_subnet_hosts_def)
qed

lemma given_rows: "get_used_instance_ips ow given_db = []" "instances given_db = []"
  by (simp_all add: get_used_instance_ips_def given_db_def freed_db_def)

lemma late_finishes:
  "\<exists>i s'. build_and_run (machine_of dock_service) late_request 1 given_daemon = (Inr (spawned i), s') \<and>
     instances (store s') = [i] \<and> octets (store s') = octets given_db \<and> inst_owner i = (''team'', 7) \<and>
     assigned_ip i = ''10.9.1.2''"
proof -
  let ?m = "machine_of dock_service"
  have built: "build_image ?m tag path s = (Inr (True, []), s)" if "client_cached s" for tag path and s :: "dock daemon"
    using that by (simp add: build_image_def calm_host_def build_image_sdk_def get_client_def on_world_def)
  have exposed: "detect_exposed_ports ?m tag s = (Inr [], s)" for tag and s :: "dock daemon"
    by (simp add: detect_exposed_ports_def on_world_def exposed_of_def obj_get_def or_empty_def sorted_keys_def obj_items_def)
  have cfg: "\<exists>c. build_secure_host_config ?m default_profile None = Inr c"
    by (simp add: build_secure_host_config_def host_config_kwargs_def default_profile_def set_text_def)
  then obtain c where c: "build_secure_host_config ?m default_profile None = Inr c" by blast
  let ?pl = "plan_for ?m late_request 1 [] given_daemon" and ?ct = "dock_container (container_name_for ''pwn'' (''team'', 7))"
  let ?s = "given_daemon\<lparr>world := \<lparr>nets = [bridge_name 1, bridge_name 2], boxes = [(container_name_for ''pwn'' (''team'', 7), bridge_name 1)]\<rparr>\<rparr>"
  have pl: "pl_network ?pl = bridge_name 1" "pl_octet ?pl = 1" "pl_name ?pl = container_name_for ''pwn'' (''team'', 7)" "pl_exposed ?pl = []"
    by (simp_all add: plan_for_def)
  have launched: "launch ?m late_request ?pl ''10.9.1.2'' c given_daemon = (Inr ?ct, ?s)"
    by (simp add: launch_def pure_def on_world_def dock_create_def pl)
  have "launch_loop ?m late_request ?pl (Suc 7) [] [] [] given_daemon = (Inr (Running ?ct ''10.9.1.2''), ?s)"
    unfolding launch_loop.simps by (simp add: free_address given_rows pl choose_port_map_def c launched)
  moreover have "Suc 7 = 8" by simp
  ultimately have "run_planned ?m late_request ?pl given_daemon = record_container ?m late_request ?pl ?ct ''10.9.1.2'' ?s"
    by (simp only: run_planned_def and_then_simps launch_end.case)
  moreover have "\<exists>i s'. record_container ?m late_request ?pl ?ct ''10.9.1.2'' ?s = (Inr (spawned i), s') \<and>
     instances (store s') = [i] \<and> octets (store s') = octets given_db \<and> inst_owner i = (''team'', 7) \<and> assigned_ip i = ''10.9.1.2''"
    by (simp add: record_container_def live_container_ip_def on_world_def pure_def ip_of_attrs_def obj_get_def
        store_container_def on_db_def add_instance_def insert_inst_def given_rows Let_def)
  ultimately show ?thesis
    by (simp add: build_and_run_def get_client_def built exposed)
qed


section \<open>Its steps\<close>

lemma late_step:
  "thread_step dock_service (dock_daemon, \<lambda>_ :: bool. None) (dock_daemon, [True \<mapsto> (late_request, 1)])"
  using late_begins
  by (intro thread_step.begun) (simp_all add: find_instance_def busy_db_def sample_inst_def)

lemma late_run:
  "\<exists>i s'. thread_runs dock_service (dock_daemon, \<lambda>_ :: bool. None) (s', [False \<mapsto> (other_request, 1)]) \<and>
     instances (store s') = [i] \<and> octets (store s') = octets given_db \<and> inst_owner i = (''team'', 7) \<and>
     assigned_ip i = ip_str (ip_of_octets 10 9 1 2)"
proof -
  obtain i s' where last: "build_and_run (machine_of dock_service) late_request 1 given_daemon = (Inr (spawned i), s')"
    and i: "instances (store s') = [i]" "octets (store s') = octets given_db" "inst_owner i = (''team'', 7)" "assigned_ip i = ''10.9.1.2''"
    using late_finishes by blast
  have "str_nat 1 = ''1''" "str_nat 2 = ''2''" by code_simp+
  then have ip: "ip_str (ip_of_octets 10 9 1 2) = ''10.9.1.2''" by (simp add: ip_str_10_9)
  let ?p1 = "[True \<mapsto> (late_request, 1)]" and ?p2 = "[True \<mapsto> (late_request, 1), False \<mapsto> (other_request, 1)]"
  have free: "thread_step dock_service (dock_daemon, ?p1) (freed_daemon, ?p1)" by (rule thread_step.released[OF last_released])
  have other: "thread_step dock_service (freed_daemon, ?p1) (given_daemon, ?p2)"
    using other_begins by (intro thread_step.begun) (simp_all add: find_instance_def freed_db_def)
  have same: "?p2(True := None) = [False \<mapsto> (other_request, 1)]" by (rule ext) simp
  have "thread_step dock_service (given_daemon, ?p2) (s', ?p2(True := None))"
    by (rule thread_step.finished[OF _ last]) simp
  then have "thread_step dock_service (given_daemon, ?p2) (s', [False \<mapsto> (other_request, 1)])" unfolding same .
  with late_step free other have "thread_runs dock_service (dock_daemon, \<lambda>_. None) (s', [False \<mapsto> (other_request, 1)])"
    unfolding thread_runs_def by (rule four_steps)
  then show ?thesis unfolding ip using i by blast
qed


end
