(* ===== verification/Json_Wire.thy ===== *)
theory Json_Wire
  imports Wire_Format "HOL-Library.Multiset"
begin

text \<open>
  What the two ends of the socket rely on of \<open>json.dumps(\<dots>).encode()\<close>: the text is ASCII, so its
  bytes decode to it again, and \<open>sort_keys=True\<close> permutes the members of objects, so look-ups of
  keys do not notice it.
\<close>

section \<open>ASCII\<close>

definition ascii :: "string \<Rightarrow> bool" where
  "ascii s \<longleftrightarrow> (\<forall>c \<in> set s. (of_char c :: nat) < 128)"

lemma ascii_simps [simp]:
  "ascii []" "ascii (c # s) \<longleftrightarrow> (of_char c :: nat) < 128 \<and> ascii s" "ascii (s @ t) \<longleftrightarrow> ascii s \<and> ascii t"
  by (auto simp: ascii_def)

lemma utf8_ascii: "ascii s \<Longrightarrow> utf8_decode s = Some s"
  by (induction s) auto

lemma ascii_digits: "list_all is_digit s \<Longrightarrow> ascii s"
  by (induction s) (auto simp: is_digit_def)

lemma ascii_takeWhile: "ascii (takeWhile is_digit s)"
  by (rule ascii_digits) (auto simp: list_all_iff dest: set_takeWhileD)

lemma ascii_number:
  assumes "scan_number t = Some (JFloat u, r)"
  shows "ascii u"
proof -
  have digits: "ascii (fst (scan_digits s))" for s by (simp add: scan_digits_def ascii_takeWhile)
  have sign: "ascii (exp_sign s)" for s by (auto simp: exp_sign_def)
  have int: "ascii ds" if "scan_int s = Some (ds, q)" for s ds q
    using that digits[of s] by (auto simp: scan_int_def split: prod.splits list.splits if_splits)
  have frac: "ascii (fst (scan_frac s))" for s
    using digits[of "tl s"] by (auto simp: scan_frac_def split: list.splits prod.splits)
  have exp: "ascii (fst (scan_exp s))" for s
    using digits sign by (auto simp: scan_exp_def split: list.splits prod.splits) (metis fst_conv)+
  show ?thesis
    using assms int frac exp
    by (auto simp: scan_number_def Let_def split: option.splits prod.splits if_splits) (metis fst_conv)+
qed

lemma ascii_hex: "ascii [hex_char (of_char (c::char) div 16), hex_char (of_char c mod 16)]"
proof -
  have "list_all (\<lambda>n. (of_char (hex_char n) :: nat) < 128) [0..<16]" by code_simp
  then have "(of_char (hex_char n) :: nat) < 128" if "n < 16" for n using that by (simp add: list_all_iff)
  moreover have "(of_char c :: nat) < 256" by simp
  ultimately show ?thesis by (simp add: less_mult_imp_div_less)
qed

lemma ascii_esc: "ascii (esc_char c)"
  using ascii_hex[of c] by (simp add: esc_char_def)

lemma ascii_dump_str: "ascii (dump_str s)"
  by (induction s) (simp_all add: dump_str_def ascii_esc)

lemma ascii_joins: "ascii si \<Longrightarrow> (\<And>x. x \<in> set xs \<Longrightarrow> ascii (f x)) \<Longrightarrow> ascii (joins si (map f xs))"
proof (induction xs)
  case (Cons x xs)
  then show ?case by (cases xs) auto
qed simp

lemma ascii_str_int: "ascii (str_int i)"
  by (simp add: str_int_def ascii_digits str_nat_digits)

lemma ascii_dumps: "ascii si \<Longrightarrow> ascii sk \<Longrightarrow> wf_json j \<Longrightarrow> ascii (dumps si sk j)"
proof (induction j)
  case (JList vs)
  then show ?case by (auto simp: list_all_iff intro!: ascii_joins)
next
  case (JObj kvs)
  have "ascii (dump_members si sk kv)" if "kv \<in> set kvs" for kv
  proof -
    obtain k v where kv: "kv = (k, v)" by (cases kv)
    then have "wf_json v" using JObj.prems(3) that by (auto simp: list_all_iff)
    then show ?thesis using JObj.IH[OF that, of v] JObj.prems kv by (simp add: ascii_dump_str)
  qed
  then show ?case using JObj.prems(1) by (auto intro!: ascii_joins)
qed (auto simp: ascii_str_int ascii_dump_str literal_def float_word_def intro: ascii_number)

lemma loads_bytes_dumps:
  assumes "wf_json j" "seps si sk" "ascii si" "ascii sk"
  shows "loads_bytes (dumps si sk j) = Json j"
  using assms by (simp add: loads_bytes_def utf8_ascii[OF ascii_dumps] loads_dumps)

section \<open>sort\_keys\<close>

lemma insert_member_mset: "mset (insert_member m ns) = add_mset m (mset ns)"
  by (induction ns) auto

lemma sort_members_mset: "mset (foldr insert_member ms []) = mset ms"
  by (induction ms) (simp_all add: insert_member_mset)

lemma sort_members_set: "set (foldr insert_member ms []) = set ms"
  using sort_members_mset[of ms] by (metis set_mset_mset)

lemma sort_members_keys:
  "distinct (map fst (foldr insert_member ms [])) \<longleftrightarrow> distinct (map fst ms)"
proof -
  have "mset (map fst (foldr insert_member ms [])) = mset (map fst ms)"
    unfolding mset_map sort_members_mset ..
  then show ?thesis by (metis mset_eq_imp_distinct_iff)
qed

lemma fst_sort_member [simp]: "fst (sort_member m) = fst m" "fst \<circ> sort_member = fst"
proof -
  show "fst (sort_member m) = fst m" for m by (cases m) simp
  then show "fst \<circ> sort_member = fst" by (simp add: fun_eq_iff)
qed

lemma sort_json_wf: "wf_json j \<Longrightarrow> wf_json (sort_json j)"
proof (induction j)
  case (JObj kvs)
  have "wf_member (sort_member kv)" if "kv \<in> set kvs" for kv
  proof -
    obtain k v where kv: "kv = (k, v)" by (cases kv)
    then show ?thesis using JObj.IH[OF that, of v] JObj.prems that by (auto simp: list_all_iff)
  qed
  then show ?case
    using JObj.prems by (simp add: list_all_iff sort_members_set sort_members_keys)
qed (auto simp: list_all_iff)

lemma map_of_eqI_mset:
  assumes "mset xs = mset ys" "distinct (map fst ys)"
  shows "map_of xs = map_of ys"
proof
  fix k
  have "distinct (map fst xs)" using assms by (metis mset_eq_imp_distinct_iff mset_map)
  moreover have "set xs = set ys" using assms(1) by (metis set_mset_mset)
  ultimately show "map_of xs k = map_of ys k"
    using assms(2) map_of_eq_None_iff[of xs k] map_of_eq_None_iff[of ys k]
    by (cases "map_of ys k") auto
qed

text \<open>Look-ups in an object with sorted keys find the sorted value of the same member.\<close>

lemma sort_json_get:
  assumes "distinct (map fst kvs)"
  shows "\<exists>kvs'. sort_json (JObj kvs) = JObj kvs' \<and> map_of kvs' k = map_option sort_json (map_of kvs k)"
proof -
  let ?ms = "map sort_member kvs" and ?kvs' = "foldr insert_member (map sort_member kvs) []"
  have "mset ?kvs' = mset ?ms" "distinct (map fst ?ms)"
    using assms by (simp_all add: sort_members_mset)
  then have "map_of ?kvs' = map_of ?ms"
    using map_of_eqI_mset by blast
  moreover have "map_of ?ms k = map_option sort_json (map_of kvs k)"
    by (induction kvs) (auto split: prod.splits)
  ultimately show ?thesis by auto
qed

end
