(* ===== verification/Daemon_Client.thy ===== *)
theory Daemon_Client
  imports Json_Wire Daemon_Rpc
begin

text \<open>
  The RPC client of the web workers, \<open>daemon_client.py\<close>: \<open>_call\<close> with its exceptions, and the
  methods that wrap it. The socket is a parameter: \<open>exchange\<close> connects, sends the bytes of one
  request, and gives what \<open>recv\<close> then delivers, or raises. The second half joins the client to
  the server of \<open>Daemon_Rpc\<close>: over a link that delivers the bytes of both sides, in whatever
  chunks, a call of the client is a run of the daemon's handler.
\<close>

section \<open>Exceptions\<close>

text \<open>\<open>DaemonTimeout\<close> and \<open>DaemonUnavailable\<close> are subclasses of \<open>DaemonError\<close>.\<close>

fun is_DaemonError :: "exc \<Rightarrow> bool" where
  "is_DaemonError (DaemonError _) = True"
| "is_DaemonError (DaemonTimeout _) = True"
| "is_DaemonError (DaemonUnavailable _) = True"
| "is_DaemonError _ = False"

section \<open>The call\<close>

text \<open>\<open>repr_of\<close> is the text of \<open>str(x)\<close> for a list or an object, \<open>unix_time\<close> is \<open>int(time.time())\<close>.\<close>

record 'w client =
  socket_path :: string
  rpc_timeout :: int
  exchange :: "string \<Rightarrow> 'w \<Rightarrow> (exc + event list) \<times> 'w"
  unix_time :: "'w \<Rightarrow> int"
  repr_of :: "json \<Rightarrow> string"

definition request_json :: "string \<Rightarrow> json \<Rightarrow> int \<Rightarrow> json" where
  "request_json method params ts =
     JObj [(''method'', JStr method), (''params'', or_empty params), (''ts'', JInt ts)]"

definition request_text :: "string \<Rightarrow> json \<Rightarrow> int \<Rightarrow> string" where
  "request_text method params ts = dumps '','' '':'' (sort_json (request_json method params ts))"

definition short_answer :: exc where
  "short_answer = DaemonError ''short read from daemon''"

definition MAX_RESPONSE :: nat where
  "MAX_RESPONSE = 16 * 1024 * 1024"

definition recv_framed :: "event list \<Rightarrow> exc + string" where
  "recv_framed evs =
     (case recv_frame short_answer MAX_RESPONSE evs of
        (Inl e, _) \<Rightarrow> Inl e
      | (Inr (Too_large n), _) \<Rightarrow> Inl (DaemonError (''response too large: '' @ str_nat n @ '' bytes''))
      | (Inr (Payload p), _) \<Rightarrow> Inr p)"

definition socket_error :: "'w client \<Rightarrow> string \<Rightarrow> exc \<Rightarrow> exc" where
  "socket_error c method e =
     (case e of
        FileNotFoundError _ \<Rightarrow> DaemonUnavailable (''socket missing: '' @ socket_path c)
      | ConnectionRefusedError _ \<Rightarrow> DaemonUnavailable ''daemon refused connection''
      | TimeoutError _ \<Rightarrow> DaemonTimeout (''RPC '' @ method @ '' timed out after '' @ str_int (rpc_timeout c) @ ''s'')
      | _ \<Rightarrow> DaemonError (''socket error: '' @ exc_str e))"

definition error_text :: "'w client \<Rightarrow> json \<Rightarrow> string" where
  "error_text c j = (case py_str j of Inr t \<Rightarrow> t | Inl _ \<Rightarrow> repr_of c j)"

text \<open>What \<open>_call\<close> does with the bytes of the response.\<close>

definition read_answer :: "'w client \<Rightarrow> string \<Rightarrow> exc + json" where
  "read_answer c resp =
     (case loads_bytes resp of
        Not_text \<Rightarrow> Inl (ValueError ''utf-8'')
      | Not_json e \<Rightarrow> Inl (DaemonError (''malformed response: '' @ exc_str e))
      | Json data \<Rightarrow>
          sum_bind (obj_get data ''ok'' JNull) (\<lambda>ok.
            if \<not> truthy ok
            then sum_bind (obj_get data ''error'' (JStr ''unknown daemon error''))
                   (\<lambda>e. Inl (DaemonError (error_text c e)))
            else obj_get data ''result'' JNull))"

definition rpc_call :: "'w client \<Rightarrow> string \<Rightarrow> json \<Rightarrow> ('w, json) act" where
  "rpc_call c method params w =
     (case frame (request_text method params (unix_time c w)) of
        Inl e \<Rightarrow> (Inl e, w)
      | Inr framed \<Rightarrow>
          and_then
            (except (and_then (exchange c framed w) (\<lambda>evs w. (recv_framed evs, w)))
               is_OSError (\<lambda>e w. (Inl (socket_error c method e), w)))
            (\<lambda>resp w. (read_answer c resp, w)))"

section \<open>The methods\<close>

definition wg_ensure_peer :: "'w client \<Rightarrow> int \<Rightarrow> owner \<Rightarrow> ('w, json) act" where
  "wg_ensure_peer c user_id ow =
     rpc_call c ''wg.ensure_peer''
       (JObj [(''user_id'', JInt user_id), (''owner_type'', JStr (fst ow)), (''owner_id'', JInt (snd ow))])"

definition wg_remove_peer :: "'w client \<Rightarrow> int \<Rightarrow> ('w, json) act" where
  "wg_remove_peer c user_id = rpc_call c ''wg.remove_peer'' (JObj [(''user_id'', JInt user_id)])"

definition wg_render_config :: "'w client \<Rightarrow> int \<Rightarrow> ('w, json) act" where
  "wg_render_config c user_id = rpc_call c ''wg.render_config'' (JObj [(''user_id'', JInt user_id)])"

definition opt_int :: "int option \<Rightarrow> json" where
  "opt_int n = (case n of None \<Rightarrow> JNull | Some i \<Rightarrow> JInt i)"

definition container_ensure_instance ::
  "'w client \<Rightarrow> owner \<Rightarrow> string \<Rightarrow> string \<Rightarrow> json \<Rightarrow> int option \<Rightarrow> bool \<Rightarrow> ('w, json) act" where
  "container_ensure_instance c ow chal build_path security ttl_seconds publish_ports =
     rpc_call c ''container.ensure_instance''
       (JObj [(''owner_type'', JStr (fst ow)), (''owner_id'', JInt (snd ow)),
              (''challenge_ref'', JStr chal), (''build_path'', JStr build_path),
              (''security'', or_empty security), (''ttl_seconds'', opt_int ttl_seconds),
              (''publish_ports'', JBool publish_ports)])"

definition container_release_instance :: "'w client \<Rightarrow> string \<Rightarrow> ('w, json) act" where
  "container_release_instance c cid =
     rpc_call c ''container.release_instance'' (JObj [(''container_id'', JStr cid)])"

definition container_reconcile :: "'w client \<Rightarrow> ('w, json) act" where
  "container_reconcile c = rpc_call c ''container.reconcile'' (JObj [])"

definition container_inspect :: "'w client \<Rightarrow> string \<Rightarrow> ('w, json) act" where
  "container_inspect c cid =
     rpc_call c ''container.inspect'' (JObj [(''container_id'', JStr cid)])"

definition rpc_kill_switch :: "'w client \<Rightarrow> ('w, json) act" where
  "rpc_kill_switch c = rpc_call c ''kill_switch'' (JObj [])"

definition rpc_ping :: "'w client \<Rightarrow> ('w, json) act" where
  "rpc_ping c = rpc_call c ''ping'' (JObj [])"

section \<open>What a call can raise\<close>

lemma socket_error_Daemon: "is_DaemonError (socket_error c method e)"
  by (cases e) (simp_all add: socket_error_def)

text \<open>
  A socket that only fails with \<open>OSError\<close>s, delivers UTF-8 and a JSON object makes a call return or
  raise a \<open>DaemonError\<close>, which is what every caller of the client catches.
\<close>

lemma read_answer_raises:
  assumes "read_answer c resp = Inl e" "loads_bytes resp \<noteq> Not_text" "\<And>j. loads_bytes resp = Json j \<Longrightarrow> \<exists>kvs. j = JObj kvs"
  shows "is_DaemonError e"
proof (cases "loads_bytes resp")
  case (Json j)
  then obtain kvs where "j = JObj kvs" using assms(3) by blast
  then show ?thesis using assms(1) Json by (auto simp: read_answer_def obj_get_def split: if_splits)
qed (use assms in \<open>auto simp: read_answer_def\<close>)

section \<open>The two ends\<close>

definition answer_bytes :: "served \<Rightarrow> string" where
  "answer_bytes a = (case a of Reply b \<Rightarrow> b | _ \<Rightarrow> [])"

lemma received:
  assumes "frame p = Inr b" "length p \<le> MAX_RESPONSE" "stream down" "bytes_of down = b"
  shows "recv_framed down = Inr p"
  using recv_frame_received[OF assms(1,2,3), of "[]" short_answer] assms(4) by (auto simp: recv_framed_def)

text \<open>
  The reply to a request, seen by the client: the result, or the text of the exception in a
  \<open>DaemonError\<close>; and both must fit a frame the client accepts.
\<close>

lemma answer_read:
  assumes "wf_json j" "length (dumps '','' '':'' j) \<le> MAX_RESPONSE" "frame (dumps '','' '':'' j) = Inr b"
    and "stream down" "bytes_of down = b"
  shows "sum_bind (recv_framed down) (read_answer c) =
    sum_bind (obj_get j ''ok'' JNull) (\<lambda>ok.
      if \<not> truthy ok
      then sum_bind (obj_get j ''error'' (JStr ''unknown daemon error'')) (\<lambda>e. Inl (DaemonError (error_text c e)))
      else obj_get j ''result'' JNull)"
proof -
  have "loads_bytes (dumps '','' '':'' j) = Json j"
    using assms(1) by (intro loads_bytes_dumps) (simp_all add: seps_def)
  then show ?thesis using received[OF assms(3,2,4,5)] by (simp add: read_answer_def)
qed

lemma frame_fits: "length p \<le> MAX_RESPONSE \<Longrightarrow> \<exists>b. frame p = Inr b"
  by (simp add: frame_def pack_be32_def MAX_RESPONSE_def)

definition fits :: "(string \<times> json) list \<Rightarrow> bool" where
  "fits kvs \<longleftrightarrow> wf_json (JObj kvs) \<and> length (dumps '','' '':'' (JObj kvs)) \<le> MAX_RESPONSE"

lemma fits_reply: "fits kvs \<Longrightarrow> \<exists>b. reply kvs = Inr b"
  using frame_fits by (auto simp: fits_def reply_def)

text \<open>
  The other way round: what the client takes for a result is what the daemon sent as one, because
  nothing else is a reply whose \<open>ok\<close> is true.
\<close>

lemma reply_received:
  assumes "reply kvs = Inr a" "stream down" "bytes_of down = a" "recv_framed down = Inr p"
  shows "p = dumps '','' '':'' (JObj kvs)"
proof (cases "length (dumps '','' '':'' (JObj kvs)) \<le> MAX_RESPONSE")
  case True
  then show ?thesis using received[OF _ True assms(2,3)] assms(1,4) by (simp add: reply_def)
next
  case False
  have "frame (dumps '','' '':'' (JObj kvs)) = Inr a" using assms(1) by (simp add: reply_def)
  moreover have "MAX_RESPONSE < length (dumps '','' '':'' (JObj kvs))" using False by simp
  moreover have "bytes_of down = a @ []" using assms(3) by simp
  ultimately obtain evs' where "recv_frame short_answer MAX_RESPONSE down =
      (Inr (Too_large (length (dumps '','' '':'' (JObj kvs)))), evs')"
    using recv_frame_refused assms(2) by blast
  then show ?thesis using assms(4) by (simp add: recv_framed_def)
qed

lemma nothing_received: "stream down \<Longrightarrow> bytes_of down = [] \<Longrightarrow> recv_framed down = Inr p \<Longrightarrow> False"
  using recv_exact_short[of down 4 short_answer] by (simp add: recv_framed_def recv_frame_def)

lemma reply_read:
  assumes "reply kvs = Inr a" "wf_json (JObj kvs)" "stream down" "bytes_of down = a" "recv_framed down = Inr p"
  shows "loads_bytes p = Json (JObj kvs)"
  unfolding reply_received[OF assms(1,3,4,5)] using assms(2) by (intro loads_bytes_dumps) (simp_all add: seps_def)

lemma error_read:
  assumes "fst (send_reply (error_reply msg) s) = a" "stream down" "bytes_of down = answer_bytes a"
    "recv_framed down = Inr p" "read_answer c p = Inr j"
  shows False
proof (cases "reply (error_reply msg)")
  case (Inl e)
  then show ?thesis
    using assms(1,3) nothing_received[OF assms(2) _ assms(4)]
    by (auto simp: send_reply_def closed_by_def answer_bytes_def split: if_splits)
next
  case (Inr b)
  then have "loads_bytes p = Json (JObj (error_reply msg))"
    using assms(1-4) by (intro reply_read) (auto simp: send_reply_def answer_bytes_def error_reply_def)
  then show ?thesis using assms(5) by (simp add: read_answer_def error_reply_def obj_get_def)
qed

lemma handler_read:
  assumes "run_handler handler params s = (a, s')" "stream down" "bytes_of down = answer_bytes a"
    "recv_framed down = Inr p" "read_answer c p = Inr j"
    and "\<And>x t. handler (or_empty params) s = (Inr x, t) \<Longrightarrow> wf_json x"
  shows "handler (or_empty params) s = (Inr j, s')"
proof (cases "handler (or_empty params) s")
  case (Pair r t)
  have no: "send_reply (error_reply msg) t \<noteq> (a, s')" for msg
    using error_read[of msg t a, OF _ assms(2-5)] by force
  obtain x b where x: "r = Inr x" "reply [(''ok'', JBool True), (''result'', x)] = Inr b" "a = Reply b" "s' = t"
    using assms(1) no Pair by (auto simp: run_handler_def split: sum.splits)
  then have "loads_bytes p = Json (JObj [(''ok'', JBool True), (''result'', x)])"
    using assms(2-4) assms(6)[of x t] Pair by (intro reply_read) (auto simp: answer_bytes_def)
  then show ?thesis using assms(5) x Pair by (simp add: read_answer_def obj_get_def)
qed

text \<open>
  Contract of a link between a client and the daemon: the bytes sent reach \<open>serve_one\<close> in some
  chunks, and the bytes of the reply come back in some chunks, none when there is no reply.
\<close>

locale daemon_link =
  fixes v :: "'w service" and uid :: int and c :: "'w daemon client"
  assumes served: "\<exists>evs down. stream evs \<and> bytes_of evs = b \<and> stream down \<and>
      bytes_of down = answer_bytes (fst (serve_one v uid evs s)) \<and>
      exchange c b s = (Inr down, snd (serve_one v uid evs s))"
begin

text \<open>What the daemon does with a request of the client, when its uid is allowed.\<close>

lemma request_served:
  assumes "authorized v uid = Inr True" "map_of (METHODS v) method = Some handler" "wf_json params"
    and "frame (request_text method params ts) = Inr b" "length (request_text method params ts) \<le> MAX_REQUEST"
    and "stream evs" "bytes_of evs = b"
  shows "serve_one v uid evs s = run_handler handler (sort_json (or_empty params)) s"
proof -
  have sorted: "sort_json (request_json method params ts) =
      JObj [(''method'', JStr method), (''params'', sort_json (or_empty params)), (''ts'', JInt ts)]"
    by (simp add: request_json_def)
  have wf: "wf_json (or_empty params)" using assms(3) by (simp add: or_empty_def)
  then have "loads_bytes (request_text method params ts) = Json (sort_json (request_json method params ts))"
    unfolding request_text_def
    by (intro loads_bytes_dumps sort_json_wf) (simp_all add: request_json_def seps_def)
  moreover obtain evs' where "recv_frame short_read MAX_REQUEST evs = (Inr (Payload (request_text method params ts)), evs')"
    using recv_frame_received[OF assms(4,5,6), of "[]" short_read] assms(7) by auto
  ultimately show ?thesis
    by (simp add: serve_one_def assms(1,2) dispatch_def sorted obj_get_def py_str_def)
qed

lemma call_answered:
  assumes ok: "authorized v uid = Inr True" "map_of (METHODS v) method = Some handler" "wf_json params"
    and len: "length (request_text method params (unix_time c s)) \<le> MAX_REQUEST"
    and run: "handler (or_empty (sort_json (or_empty params))) s = (r, s')"
    and fits: "fits (case r of Inl e \<Rightarrow> error_reply (exc_str e) | Inr j \<Rightarrow> [(''ok'', JBool True), (''result'', j)])"
  shows "rpc_call c method params s = (case r of Inl e \<Rightarrow> Inl (DaemonError (exc_str e)) | Inr j \<Rightarrow> Inr j, s')"
proof -
  let ?kvs = "case r of Inl e \<Rightarrow> error_reply (exc_str e) | Inr j \<Rightarrow> [(''ok'', JBool True), (''result'', j)]"
  obtain b where b: "frame (request_text method params (unix_time c s)) = Inr b"
    using frame_fits[of "request_text method params (unix_time c s)"] len
    by (auto simp: MAX_RESPONSE_def MAX_REQUEST_def)
  obtain evs down where link: "stream evs" "bytes_of evs = b" "stream down"
    "bytes_of down = answer_bytes (fst (serve_one v uid evs s))"
    "exchange c b s = (Inr down, snd (serve_one v uid evs s))"
    using served by blast
  obtain a where a: "reply ?kvs = Inr a" using fits_reply[OF fits] by blast
  have "run_handler handler (sort_json (or_empty params)) s = (Reply a, s')"
    using run a by (cases r) (simp_all add: run_handler_def send_reply_def)
  then have one: "serve_one v uid evs s = (Reply a, s')"
    using request_served[OF ok b len link(1,2)] by simp
  have "sum_bind (recv_framed down) (read_answer c) = (case r of Inl e \<Rightarrow> Inl (DaemonError (exc_str e)) | Inr j \<Rightarrow> Inr j)"
    using answer_read[of "JObj ?kvs" a down] fits a link(3,4) one
    by (cases r) (simp_all add: fits_def reply_def answer_bytes_def error_reply_def obj_get_def error_text_def py_str_def)
  moreover have "\<exists>p. recv_framed down = Inr p"
    using received[of "dumps '','' '':'' (JObj ?kvs)" a down] fits a link(3,4) one
    by (auto simp: fits_def reply_def answer_bytes_def)
  ultimately show ?thesis using b link(5) one by (auto simp: rpc_call_def)
qed

text \<open>A result of a call is a result of the handler, on the same state, whatever the sizes.\<close>

lemma refused_silent:
  assumes "stream down" "bytes_of down = answer_bytes (fst (serve_one v uid evs s))"
    and "recv_framed down = Inr p" "read_answer c p = Inr j" "stream evs" "bytes_of evs = b"
    and "frame q = Inr b" 
  shows "authorized v uid = Inr True \<and> length q \<le> MAX_REQUEST"
proof (rule ccontr)
  assume no: "\<not> ?thesis"
  have err: "fst (serve_one v uid evs s) \<noteq> fst (send_reply (error_reply msg) t)" for msg and t :: "'w daemon"
    using error_read[of msg t _ down p c j] assms(1-4) by auto
  have large: "\<exists>evs'. recv_frame short_read MAX_REQUEST evs = (Inr (Too_large (length q)), evs')" if "MAX_REQUEST < length q"
    using recv_frame_refused[OF assms(7) that assms(5), of "[]" short_read] assms(6) by auto
  consider (raise) e where "authorized v uid = Inl e" | (refuse) "authorized v uid = Inr False"
    | (long) "authorized v uid = Inr True" "MAX_REQUEST < length q"
    using no by (cases "authorized v uid") (auto, metis (full_types) linorder_le_less_linear)
  then show False
  proof cases
    case raise
    then show ?thesis using assms(2) nothing_received[OF assms(1) _ assms(3)] by (simp add: serve_one_def answer_bytes_def)
  next
    case refuse
    then show ?thesis using err[of "''unauthorized''" s] by (simp add: serve_one_def)
  next
    case long
    then show ?thesis using large err[of "''payload too large''" s] by (auto simp: serve_one_def)
  qed
qed

lemma call_result:
  assumes "map_of (METHODS v) method = Some handler" "wf_json params"
    and wf: "\<And>x t. handler (or_empty (sort_json (or_empty params))) s = (Inr x, t) \<Longrightarrow> wf_json x"
    and call: "rpc_call c method params s = (Inr j, s')"
  shows "handler (or_empty (sort_json (or_empty params))) s = (Inr j, s')"
proof -
  let ?q = "request_text method params (unix_time c s)"
  obtain b where b: "frame ?q = Inr b" using call by (auto simp: rpc_call_def split: sum.splits)
  obtain evs down where link: "stream evs" "bytes_of evs = b" "stream down"
    "bytes_of down = answer_bytes (fst (serve_one v uid evs s))"
    "exchange c b s = (Inr down, snd (serve_one v uid evs s))"
    using served by blast
  obtain p where p: "recv_framed down = Inr p" "read_answer c p = Inr j" "s' = snd (serve_one v uid evs s)"
    using call b link(5) by (cases "recv_framed down") (auto simp: rpc_call_def split: if_splits)
  note ok = refused_silent[OF link(3,4) p(1,2) link(1,2) b]
  then have one: "serve_one v uid evs s = run_handler handler (sort_json (or_empty params)) s"
    using request_served[OF _ assms(1,2) b _ link(1,2)] by blast
  then show ?thesis
    using p(3) link(4) by (intro handler_read[OF _ link(3) link(4) p(1,2) wf]) simp_all
qed

text \<open>Whatever a call gives, the daemon served at most one connection.\<close>

lemma call_state:
  "snd (rpc_call c method params s) = s \<or> (\<exists>evs. snd (rpc_call c method params s) = snd (serve_one v uid evs s))"
proof (cases "frame (request_text method params (unix_time c s))")
  case (Inr b)
  obtain evs down where link: "exchange c b s = (Inr down, snd (serve_one v uid evs s))" using served by blast
  then have "snd (rpc_call c method params s) = snd (serve_one v uid evs s)"
    using Inr by (cases "recv_framed down") (simp_all add: rpc_call_def)
  then show ?thesis by blast
qed (simp add: rpc_call_def)

text \<open>The peer of a user, asked for by a web worker: the daemon's \<open>ensure_peer\<close> on the same state.\<close>

lemma ensure_peer_call:
  assumes "authorized v uid = Inr True"
    and "length (request_text ''wg.ensure_peer''
      (JObj [(''user_id'', JInt u), (''owner_type'', JStr ty), (''owner_id'', JInt oid)]) (unix_time c s)) \<le> MAX_REQUEST"
    and "ensure_peer v (ty, oid) (user_name u) s = (r, s')"
    and "fits (case r of Inl e \<Rightarrow> error_reply (exc_str e) | Inr j \<Rightarrow> [(''ok'', JBool True), (''result'', j)])"
  shows "wg_ensure_peer c u (ty, oid) s =
    (case r of Inl e \<Rightarrow> Inl (DaemonError (exc_str e)) | Inr j \<Rightarrow> Inr j, s')"
  unfolding wg_ensure_peer_def fst_conv snd_conv
proof (rule call_answered[OF assms(1) _ _ assms(2) _ assms(4)])
  show "map_of (METHODS v) ''wg.ensure_peer'' = Some (handle_wg_ensure_peer v)" by (simp add: METHODS_def)
  show "handle_wg_ensure_peer v (or_empty (sort_json (or_empty
      (JObj [(''user_id'', JInt u), (''owner_type'', JStr ty), (''owner_id'', JInt oid)])))) s = (r, s')"
    using assms(3)
    by (simp add: or_empty_def handle_wg_ensure_peer_def int_param_def owner_param_def param_def text_param_def
        json_int_def pure_def)
qed simp

end

text \<open>A link that delivers every message in pieces of at most \<open>n + 1\<close> bytes.\<close>

fun pieces :: "nat \<Rightarrow> string \<Rightarrow> string list" where
  "pieces n [] = []"
| "pieces n (c # cs) = take (Suc n) (c # cs) # pieces n (drop n cs)"

definition delivered :: "nat \<Rightarrow> string \<Rightarrow> event list" where
  "delivered n b = map Chunk (pieces n b)"

lemma delivered_stream: "stream (delivered n b)" "bytes_of (delivered n b) = b"
proof -
  have "\<forall>p \<in> set (pieces n b). p \<noteq> []" by (induction n b rule: pieces.induct) auto
  then show "stream (delivered n b)" by (auto simp: delivered_def stream_def)
  have "concat (pieces n b) = b" by (induction n b rule: pieces.induct) auto
  then show "bytes_of (delivered n b) = b" by (simp add: bytes_of_def delivered_def comp_def)
qed

definition unix_link :: "nat \<Rightarrow> 'w service \<Rightarrow> int \<Rightarrow> 'w daemon client" where
  "unix_link n v uid =
     \<lparr>socket_path = ''/run/edo/edo.sock'', rpc_timeout = 180,
      exchange = (\<lambda>b s. case serve_one v uid (delivered n b) s of (a, s') \<Rightarrow> (Inr (delivered n (answer_bytes a)), s')),
      unix_time = (\<lambda>_. 1700000000), repr_of = dumps '', '' '': ''\<rparr>"

interpretation unix: daemon_link v uid "unix_link n v uid" for v uid n
proof
  fix b s
  show "\<exists>evs down. stream evs \<and> bytes_of evs = b \<and> stream down \<and>
      bytes_of down = answer_bytes (fst (serve_one v uid evs s)) \<and>
      exchange (unix_link n v uid) b s = (Inr down, snd (serve_one v uid evs s))"
    by (intro exI[of _ "delivered n b"] exI[of _ "delivered n (answer_bytes (fst (serve_one v uid (delivered n b) s)))"])
      (simp add: delivered_stream unix_link_def split: prod.split)
qed

end
