(* ===== verification/Rate_Limit.thy ===== *)
theory Rate_Limit
  imports Complex_Main Edo_Prelude
begin

text \<open>
  The sliding-window limit of the flag route, \<open>check_rate_limit\<close> of \<open>decorators.py\<close>. Times are
  rational numbers of seconds (the floats of \<open>time.monotonic()\<close>, with exact differences); the
  buckets are a map from keys to the times of the calls that were allowed, oldest first.
\<close>

type_synonym 'k buckets = "'k \<Rightarrow> rat list"

text \<open>\<open>int(x)\<close> truncates towards zero.\<close>

definition py_int :: "rat \<Rightarrow> int" where
  "py_int x = (if 0 \<le> x then floor x else ceiling x)"

definition check_rate_limit ::
  "'k \<Rightarrow> int \<Rightarrow> int \<Rightarrow> rat \<Rightarrow> 'k buckets \<Rightarrow> (exc + bool \<times> int) \<times> 'k buckets" where
  "check_rate_limit key limit window now buckets =
     (let bucket = dropWhile (\<lambda>t. t < now - of_int window) (buckets key) in
      if int (length bucket) \<ge> limit
      then (case bucket of
              [] \<Rightarrow> (Inl (IndexError ''deque index out of range''), buckets(key := bucket))
            | t # _ \<Rightarrow>
                (Inr (False, py_int (of_int window - (now - t)) + 1), buckets(key := bucket)))
      else (Inr (True, 0), buckets(key := bucket @ [now])))"

section \<open>Runs of calls\<close>

text \<open>The allowed times of a run of calls with one key, limit and window, and the buckets after it.\<close>

fun run_calls ::
  "'k \<Rightarrow> int \<Rightarrow> int \<Rightarrow> rat list \<Rightarrow> 'k buckets \<Rightarrow> rat list \<times> 'k buckets" where
  "run_calls key limit window [] b = ([], b)"
| "run_calls key limit window (now # rest) b =
     (case check_rate_limit key limit window now b of
        (r, b') \<Rightarrow>
          (case run_calls key limit window rest b' of
             (allowed, b'') \<Rightarrow> ((if r = Inr (True, 0) then now # allowed else allowed), b'')))"

text \<open>The allowed calls in the window that ends at \<open>now\<close>.\<close>

definition in_window :: "int \<Rightarrow> rat \<Rightarrow> rat list \<Rightarrow> rat list" where
  "in_window window now ts = filter (\<lambda>t. now - of_int window \<le> t \<and> t \<le> now) ts"

lemma prune_sorted:
  "sorted ts \<Longrightarrow> dropWhile (\<lambda>t. t < c) ts = filter (\<lambda>t. c \<le> t) (ts :: rat list)"
proof (induction ts)
  case (Cons t ts)
  then show ?case
    by (cases "t < c") (auto intro!: filter_True[symmetric] simp: not_less)
qed simp

lemma check_key_only:
  "check_rate_limit key limit window now b = (r, b') \<Longrightarrow> k \<noteq> key \<Longrightarrow> b' k = b k"
  by (auto simp: check_rate_limit_def Let_def split: if_splits list.splits)

lemma check_allowed:
  assumes "check_rate_limit key limit window now b = (Inr (True, x), b')"
  shows "x = 0" "int (length (dropWhile (\<lambda>t. t < now - of_int window) (b key))) < limit"
    "b' key = dropWhile (\<lambda>t. t < now - of_int window) (b key) @ [now]"
  using assms by (auto simp: check_rate_limit_def Let_def split: if_splits list.splits)

lemma check_refused:
  assumes "check_rate_limit key limit window now b = (r, b')" "r \<noteq> Inr (True, 0)"
  shows "b' key = dropWhile (\<lambda>t. t < now - of_int window) (b key)"
  using assms by (auto simp: check_rate_limit_def Let_def split: if_splits list.splits)

text \<open>
  What the bucket stands for after a run: of all the calls allowed so far, those that the last
  pruning kept.
\<close>

definition tracks :: "rat list \<Rightarrow> rat list \<Rightarrow> rat \<Rightarrow> bool" where
  "tracks past bucket low \<longleftrightarrow>
     sorted past \<and> bucket = filter (\<lambda>t. low \<le> t) past"

lemma tracks_prune:
  assumes "tracks past bucket low" "low \<le> c"
  shows "tracks past (dropWhile (\<lambda>t. t < c) bucket) c"
proof -
  have "dropWhile (\<lambda>t. t < c) bucket = filter (\<lambda>t. c \<le> t) bucket"
    using assms(1) by (intro prune_sorted) (simp add: tracks_def sorted_wrt_filter)
  also have "\<dots> = filter (\<lambda>t. c \<le> t) past"
    using assms by (auto simp: tracks_def intro: filter_cong)
  finally show ?thesis using assms(1) by (simp add: tracks_def)
qed

text \<open>
  Every allowed call is, with the calls allowed before it in its window, within the limit.
\<close>

fun windows_ok :: "int \<Rightarrow> int \<Rightarrow> rat list \<Rightarrow> rat list \<Rightarrow> bool" where
  "windows_ok limit window past [] = True"
| "windows_ok limit window past (t # ts) =
     (int (length (in_window window t (past @ [t]))) \<le> limit \<and> windows_ok limit window (past @ [t]) ts)"

lemma run_calls_ok:
  assumes "0 \<le> window"
  shows "sorted (past @ calls) \<Longrightarrow> tracks past (b key) low \<Longrightarrow> (\<forall>t \<in> set calls. low \<le> t - of_int window) \<Longrightarrow>
    run_calls key limit window calls b = (allowed, b') \<Longrightarrow> windows_ok limit window past allowed"
proof (induction calls arbitrary: past b low allowed)
  case (Cons now calls)
  let ?c = "now - of_int window"
  obtain r b1 where step: "check_rate_limit key limit window now b = (r, b1)"
    by (cases "check_rate_limit key limit window now b")
  obtain allowed1 where rest: "run_calls key limit window calls b1 = (allowed1, b')"
    using Cons.prems(4) step by (auto split: prod.splits)
  have pruned: "tracks past (dropWhile (\<lambda>t. t < ?c) (b key)) ?c"
    using Cons.prems(2,3) by (intro tracks_prune[of _ _ low]) auto
  have later: "\<forall>t \<in> set calls. ?c \<le> t - of_int window" using Cons.prems(1) by (auto simp: sorted_append)
  show ?case
  proof (cases "r = Inr (True, 0)")
    case True
    note allow = check_allowed[OF step[unfolded True]]
    have past: "sorted (past @ [now])" "\<forall>t \<in> set past. t \<le> now"
      using Cons.prems(1) by (auto simp: sorted_append)
    have "in_window window now (past @ [now]) = filter (\<lambda>t. ?c \<le> t) past @ [now]"
      using past(2) assms by (auto simp: in_window_def intro: filter_cong)
    moreover have "int (length (filter (\<lambda>t. ?c \<le> t) past)) < limit"
      using allow(2) pruned by (simp add: tracks_def)
    moreover have "tracks (past @ [now]) (b1 key) ?c"
      using pruned past(1) allow(3) assms by (simp add: tracks_def)
    then have "windows_ok limit window (past @ [now]) allowed1"
      by (rule Cons.IH[rotated]) (use Cons.prems(1) later rest in simp_all)
    ultimately show ?thesis using Cons.prems(4) step rest True by auto
  next
    case False
    have "tracks past (b1 key) ?c" using pruned check_refused[OF step False] by simp
    then have "windows_ok limit window past allowed1"
      by (rule Cons.IH[rotated]) (use Cons.prems(1) later rest in \<open>simp_all add: sorted_append\<close>)
    then show ?thesis using Cons.prems(4) step rest False by auto
  qed
qed simp

lemma run_calls_within:
  assumes "0 \<le> window" "sorted calls" "b key = []"
  shows "windows_ok limit window [] (fst (run_calls key limit window calls b))"
proof -
  obtain allowed b' where run: "run_calls key limit window calls b = (allowed, b')" by fastforce
  let ?low = "hd (calls @ [0]) - of_int window"
  have "\<forall>t \<in> set calls. ?low \<le> t - of_int window" using assms(2) by (cases calls) auto
  moreover have "tracks [] (b key) ?low" by (simp add: tracks_def assms(3))
  ultimately show ?thesis using run_calls_ok[OF assms(1) _ _ _ run, of "[]" ?low] assms(2) run by simp
qed

text \<open>The number returned with a refusal is a wait after which the oldest call has left the window.\<close>

lemma retry_enough:
  assumes "check_rate_limit key limit window now b = (Inr (False, retry), b')"
    and "sorted (b key)" "now' \<ge> now + of_int retry" "int (length (b' key)) \<le> limit"
  shows "\<exists>b''. check_rate_limit key limit window now' b' = (Inr (True, 0), b'')"
proof -
  let ?bk = "dropWhile (\<lambda>t. t < now - of_int window) (b key)"
  obtain t ts where bk: "?bk = t # ts"
    and retry: "retry = py_int (of_int window - (now - t)) + 1" and b': "b' key = t # ts"
    using assms(1) by (auto simp: check_rate_limit_def Let_def split: if_splits list.splits)
  have "\<not> t < now - of_int window" using bk by (metis (mono_tags) hd_dropWhile list.sel(1) list.simps(3))
  then have "0 \<le> of_int window - (now - t)" by simp
  then have "of_int window - (now - t) < of_int retry"
    using retry by (simp add: py_int_def) linarith
  then have old: "t < now' - of_int window" using assms(3) by simp
  have "length (dropWhile (\<lambda>t. t < now' - of_int window) (t # ts)) \<le> length ts"
    using old length_dropWhile_le[of _ ts] by simp
  then have "int (length (dropWhile (\<lambda>t. t < now' - of_int window) (b' key))) < limit"
    using assms(4) b' by simp
  then show ?thesis by (simp add: check_rate_limit_def Let_def)
qed

text \<open>A limit that is not positive and an empty bucket: the code reads \<open>bucket[0]\<close> of it.\<close>

lemma nonpositive_limit:
  "limit \<le> 0 \<Longrightarrow> b key = [] \<Longrightarrow>
   check_rate_limit key limit window now b = (Inl (IndexError ''deque index out of range''), b)"
  by (auto simp: check_rate_limit_def Let_def)

end
