(* ===== verification/Plugin_Db.thy ===== *)
theory Plugin_Db
  imports Daemon_Client Rate_Limit
begin

text \<open>
  The database of the CTFd plugin, \<open>models.py\<close> over CTFd's tables: one record per table that the
  plugin's code reads or writes, the UNIQUE constraints, the session with its commit and
  rollback, the settings table and the audit log. Times are microseconds, a column that may be NULL is an
  option. \<open>saved_db\<close> is what is committed, \<open>now_db\<close> what the session of the running request
  sees; a request that raises loses what it did not commit.
\<close>

section \<open>Tables\<close>

text \<open>CTFd's users, teams, flags, solves and fails, with the columns that the plugin uses.\<close>

record user_row =
  ur_id :: int
  ur_name :: string
  ur_team :: "int option"
  ur_banned :: bool
  ur_hidden :: bool

record team_row =
  tr_id :: int
  tr_name :: string

record flag_row =
  fl_id :: int
  fl_challenge :: int
  fl_type :: string
  fl_content :: string

record submission_row =
  su_user :: int
  su_team :: "int option"
  su_challenge :: int
  su_ip :: string
  su_provided :: string

text \<open>
  \<open>EdoChallenge\<close>: the code sets its columns by name, with values it coerced, so a row is its id
  and a list of columns. A column that is not in the list is NULL.
\<close>

record challenge_row =
  cg_id :: int
  cg_cols :: "(string \<times> json) list"

definition col :: "string \<Rightarrow> challenge_row \<Rightarrow> json" where
  "col k c = (case map_of (cg_cols c) k of None \<Rightarrow> JNull | Some v \<Rightarrow> v)"

definition challenge_defaults :: "(string \<times> json) list" where
  "challenge_defaults =
     [(''difficulty'', JStr ''medium''), (''scoring_mode'', JStr ''static''), (''initial_value'', JInt 500),
      (''minimum_value'', JInt 100), (''decay'', JInt 25), (''cpu_limit'', JFloat ''1.0''),
      (''memory_limit_mb'', JInt 512), (''pids_limit'', JInt 256), (''read_only_rootfs'', JBool False),
      (''access_mode'', JStr ''vpn'')]"

record flag_weight =
  fw_flag :: int
  fw_pct :: int

record flag_solve =
  fs_challenge :: int
  fs_flag :: int
  fs_owner :: owner

record edo_instance =
  ei_id :: int
  ei_challenge :: int
  ei_owner :: owner
  ei_container :: "string option"
  ei_name :: "string option"
  ei_ip :: "string option"
  ei_ports :: "string option"
  ei_published :: "string option"
  ei_status :: string
  ei_created :: int
  ei_expires :: int
  ei_reconciled :: "int option"
  ei_error :: "string option"

record edo_peer =
  ep_user :: int
  ep_owner :: owner
  ep_public :: string
  ep_private :: "string option"
  ep_ip :: string
  ep_revoked :: bool

record audit_row =
  au_id :: int
  au_ts :: int
  au_actor :: string
  au_event :: string
  au_challenge :: "int option"
  au_instance :: "int option"
  au_details :: "string option"

record site =
  st_users :: "user_row list"
  st_teams :: "team_row list"
  st_flags :: "flag_row list"
  st_solves :: "submission_row list"
  st_fails :: "submission_row list"
  st_challenges :: "challenge_row list"
  st_weights :: "flag_weight list"
  st_finds :: "flag_solve list"
  st_instances :: "edo_instance list"
  st_peers :: "edo_peer list"
  st_audit :: "audit_row list"
  st_settings :: "(string \<times> string option) list"
  st_next :: int

section \<open>Constraints\<close>

text \<open>
  The UNIQUE and NOT NULL constraints of the plugin's tables (several NULLs do not clash in a unique
  column), which every flush checks. Foreign keys are not checked: rows are made for rows just read.
\<close>

definition slot_of :: "edo_instance \<Rightarrow> int \<times> owner" where
  "slot_of i = (ei_challenge i, ei_owner i)"

definition find_of :: "flag_solve \<Rightarrow> owner \<times> int" where
  "find_of f = (fs_owner f, fs_flag f)"

definition instances_unique :: "site \<Rightarrow> bool" where
  "instances_unique d \<longleftrightarrow> distinct (map slot_of (st_instances d)) \<and>
     distinct (List.map_filter ei_container (st_instances d))"

definition peers_unique :: "site \<Rightarrow> bool" where
  "peers_unique d \<longleftrightarrow> distinct (map ep_user (st_peers d)) \<and> distinct (map ep_ip (st_peers d))"

text \<open>The columns of \<open>EdoChallenge\<close> that are not nullable.\<close>

definition NOT_NULL :: "string list" where
  "NOT_NULL = [''difficulty'', ''scoring_mode'', ''read_only_rootfs'', ''access_mode'']"

definition challenges_filled :: "site \<Rightarrow> bool" where
  "challenges_filled d \<longleftrightarrow> list_all (\<lambda>c. list_all (\<lambda>k. col k c \<noteq> JNull) NOT_NULL) (st_challenges d)"

definition constraints_ok :: "site \<Rightarrow> bool" where
  "constraints_ok d \<longleftrightarrow> instances_unique d \<and> peers_unique d \<and>
     distinct (map fw_flag (st_weights d)) \<and> distinct (map find_of (st_finds d)) \<and>
     distinct (map fst (st_settings d)) \<and> challenges_filled d"

section \<open>Sessions\<close>

text \<open>
  \<open>remote\<close> is the world that the RPC client acts on: the daemon and the machine it runs on. The
  buckets of the rate limiter belong to the worker process.
\<close>

type_synonym limit_key = "owner \<times> string \<times> int"

record 'w ctf =
  now_db :: site
  saved_db :: site
  remote :: 'w
  limits :: "limit_key buckets"

definition flush :: "('w ctf, unit) act" where
  "flush s = (if constraints_ok (now_db s) then Inr () else Inl (IntegrityError ''UNIQUE constraint failed''), s)"

definition commit :: "('w ctf, unit) act" where
  "commit s = and_then (flush s) (\<lambda>_ s. (Inr (), s\<lparr>saved_db := now_db s\<rparr>))"

definition rollback :: "'w ctf \<Rightarrow> 'w ctf" where
  "rollback s = s\<lparr>now_db := saved_db s\<rparr>"

definition edit :: "(site \<Rightarrow> site) \<Rightarrow> 'w ctf \<Rightarrow> 'w ctf" where
  "edit f s = s\<lparr>now_db := f (now_db s)\<rparr>"

text \<open>The end of a request or a job: the session is removed, whatever was not committed is lost.\<close>

definition in_session :: "('w ctf, 'a) act \<Rightarrow> ('w ctf, 'a) act" where
  "in_session f s = (case f s of (r, s') \<Rightarrow> (r, rollback s'))"

text \<open>A call of the daemon, on the remote world.\<close>

definition remotely :: "('w, 'a) act \<Rightarrow> ('w ctf, 'a) act" where
  "remotely f s = (case f (remote s) of (r, w) \<Rightarrow> (r, s\<lparr>remote := w\<rparr>))"

section \<open>The plugin's surroundings\<close>

text \<open>
  What the plugin gets from Python, CTFd and the machine: the client of the daemon, the clocks,
  CTFd's user mode, the comparison of CTFd's flag classes, \<open>int\<close> of a float literal, \<open>float\<close> of
  a value, \<open>isoformat\<close> and \<open>re.sub\<close> of file names, and the defaults of CTFd's own challenge columns.
\<close>

record 'w plugin =
  rpc :: "'w client"
  utcnow :: "'w \<Rightarrow> int"
  monotonic :: "'w \<Rightarrow> rat"
  teams_mode :: bool
  compare_flag :: "flag_row \<Rightarrow> string \<Rightarrow> bool"
  float_trunc :: "string \<Rightarrow> exc + int"
  to_float :: "json \<Rightarrow> exc + string"
  isoformat :: "int \<Rightarrow> string"
  core_defaults :: "(string \<times> json) list"

definition clock_now :: "'w plugin \<Rightarrow> 'w ctf \<Rightarrow> int" where
  "clock_now g s = utcnow g (remote s)"

text \<open>A request: who sent it, and what it carries; \<open>rq_json\<close> is what \<open>get_json\<close> gives or raises.\<close>

record request =
  rq_user :: "user_row option"
  rq_team :: "team_row option"
  rq_form :: "(string \<times> string) list"
  rq_json :: "exc + json"
  rq_ip :: string

datatype response = Answer int json | Download string json

definition ok_json :: "(string \<times> json) list \<Rightarrow> response" where
  "ok_json kvs = Answer 200 (JObj ((''success'', JBool True) # kvs))"

definition fail_json :: "int \<Rightarrow> string \<Rightarrow> (string \<times> json) list \<Rightarrow> response" where
  "fail_json code msg kvs = Answer code (JObj ([(''success'', JBool False), (''error'', JStr msg)] @ kvs))"

section \<open>Settings\<close>

definition setting_row :: "string \<Rightarrow> site \<Rightarrow> string option" where
  "setting_row k d = (case map_of (st_settings d) k of None \<Rightarrow> None | Some v \<Rightarrow> v)"

definition setting_int :: "string \<Rightarrow> int \<Rightarrow> site \<Rightarrow> int" where
  "setting_int k dflt d =
     (case setting_row k d of
        None \<Rightarrow> dflt
      | Some t \<Rightarrow> (case int_of_text t of Inr n \<Rightarrow> n | Inl _ \<Rightarrow> dflt))"

definition setting_text :: "string \<Rightarrow> string \<Rightarrow> site \<Rightarrow> string" where
  "setting_text k dflt d = (case setting_row k d of None \<Rightarrow> dflt | Some t \<Rightarrow> t)"

definition put_setting :: "string \<Rightarrow> string \<Rightarrow> site \<Rightarrow> site" where
  "put_setting k t d = d\<lparr>st_settings := AList.update k (Some t) (st_settings d)\<rparr>"

definition set_setting :: "'w plugin \<Rightarrow> string \<Rightarrow> json \<Rightarrow> ('w ctf, unit) act" where
  "set_setting g k v s = commit (edit (put_setting k (error_text (rpc g) v)) s)"

text \<open>The defaults of \<open>config.py\<close>, and \<open>_setting\<close> of \<open>api/user.py\<close>, which takes 0 and the empty text for unset.\<close>

definition DEFAULT_MAX_CONTAINERS_PER_OWNER :: int where
  "DEFAULT_MAX_CONTAINERS_PER_OWNER = 3"

definition DEFAULT_CONTAINER_TTL_SECONDS :: int where
  "DEFAULT_CONTAINER_TTL_SECONDS = 3600"

definition DEFAULT_EXTEND_SECONDS :: int where
  "DEFAULT_EXTEND_SECONDS = 1800"

definition DEFAULT_EXTEND_THRESHOLD_SECONDS :: int where
  "DEFAULT_EXTEND_THRESHOLD_SECONDS = 600"

definition DEFAULT_SUBMIT_RATE_LIMIT :: int where
  "DEFAULT_SUBMIT_RATE_LIMIT = 10"

definition DEFAULT_SUBMIT_RATE_WINDOW :: int where
  "DEFAULT_SUBMIT_RATE_WINDOW = 60"

definition DEFAULT_RECONCILE_INTERVAL_SECONDS :: int where
  "DEFAULT_RECONCILE_INTERVAL_SECONDS = 60"

definition DEFAULT_TTL_CHECK_INTERVAL_SECONDS :: int where
  "DEFAULT_TTL_CHECK_INTERVAL_SECONDS = 15"

definition DEFAULT_VPN_SERVER_ENDPOINT :: string where
  "DEFAULT_VPN_SERVER_ENDPOINT = ''vpn.example.com:51820''"

definition DEFAULT_PUBLIC_IP :: string where
  "DEFAULT_PUBLIC_IP = ''203.0.113.1''"

definition DEFAULTS :: "(string \<times> string) list" where
  "DEFAULTS =
     [(''max_containers_per_owner'', str_int DEFAULT_MAX_CONTAINERS_PER_OWNER),
      (''container_ttl_seconds'', str_int DEFAULT_CONTAINER_TTL_SECONDS),
      (''extend_seconds'', str_int DEFAULT_EXTEND_SECONDS),
      (''extend_threshold_seconds'', str_int DEFAULT_EXTEND_THRESHOLD_SECONDS),
      (''submit_rate_limit'', str_int DEFAULT_SUBMIT_RATE_LIMIT),
      (''submit_rate_window'', str_int DEFAULT_SUBMIT_RATE_WINDOW),
      (''vpn_server_endpoint'', DEFAULT_VPN_SERVER_ENDPOINT),
      (''public_ip'', DEFAULT_PUBLIC_IP),
      (''reconcile_interval_seconds'', str_int DEFAULT_RECONCILE_INTERVAL_SECONDS),
      (''ttl_check_interval_seconds'', str_int DEFAULT_TTL_CHECK_INTERVAL_SECONDS)]"

definition setting_or :: "string \<Rightarrow> int \<Rightarrow> site \<Rightarrow> int" where
  "setting_or k dflt d = (let n = setting_int k dflt d in if n = 0 then dflt else n)"

definition setting_text_or :: "string \<Rightarrow> string \<Rightarrow> site \<Rightarrow> string" where
  "setting_text_or k dflt d = (let t = setting_text k dflt d in if t = [] then dflt else t)"

text \<open>\<open>_seed_defaults\<close> of \<open>__init__.py\<close>\<close>

fun seed_loop :: "(string \<times> string) list \<Rightarrow> site \<Rightarrow> site" where
  "seed_loop [] d = d"
| "seed_loop ((k, v) # kvs) d =
     seed_loop kvs (if map_of (st_settings d) k = None
       then d\<lparr>st_settings := st_settings d @ [(k, Some v)]\<rparr> else d)"

definition seed_defaults :: "('w ctf, unit) act" where
  "seed_defaults s = commit (edit (seed_loop DEFAULTS) s)"

section \<open>The audit log\<close>

definition audit_entry ::
  "int \<Rightarrow> string \<Rightarrow> string \<Rightarrow> edo_instance option \<Rightarrow> json \<Rightarrow> site \<Rightarrow> site" where
  "audit_entry now actor ev inst details d =
     d\<lparr>st_audit := st_audit d @
         [\<lparr>au_id = st_next d, au_ts = now, au_actor = actor, au_event = ev,
           au_challenge = map_option ei_challenge inst, au_instance = map_option ei_id inst,
           au_details = (if truthy details then Some (dumps '', '' '': '' details) else None)\<rparr>],
       st_next := st_next d + 1\<rparr>"

definition audit ::
  "'w plugin \<Rightarrow> string \<Rightarrow> string \<Rightarrow> edo_instance option \<Rightarrow> json \<Rightarrow> 'w ctf \<Rightarrow> 'w ctf" where
  "audit g actor ev inst details s = edit (audit_entry (clock_now g s) actor ev inst details) s"

section \<open>Rows of the instance table\<close>

definition instance_by_id :: "int \<Rightarrow> site \<Rightarrow> edo_instance option" where
  "instance_by_id k d = find (\<lambda>i. ei_id i = k) (st_instances d)"

definition delete_instance :: "edo_instance \<Rightarrow> site \<Rightarrow> site" where
  "delete_instance i d = d\<lparr>st_instances := filter (\<lambda>j. ei_id j \<noteq> ei_id i) (st_instances d)\<rparr>"

definition put_instance :: "edo_instance \<Rightarrow> site \<Rightarrow> site" where
  "put_instance i d = d\<lparr>st_instances := map (\<lambda>j. if ei_id j = ei_id i then i else j) (st_instances d)\<rparr>"

definition live_status :: "edo_instance \<Rightarrow> bool" where
  "live_status i \<longleftrightarrow> ei_status i = ''pending'' \<or> ei_status i = ''running''"

definition active_of :: "owner \<Rightarrow> site \<Rightarrow> edo_instance list" where
  "active_of ow d = filter (\<lambda>i. live_status i \<and> ei_owner i = ow) (st_instances d)"

definition challenge_by_id :: "int \<Rightarrow> site \<Rightarrow> challenge_row option" where
  "challenge_by_id k d = find (\<lambda>c. cg_id c = k) (st_challenges d)"

end
