(* ===== verification/Owner_Scope.thy ===== *)
theory Owner_Scope
  imports Plugin_Db
begin

text \<open>
  On whose behalf a request acts, \<open>owner.py\<close>: the user, or in team mode the team. Then the
  decorator \<open>owner_required\<close> of \<open>decorators.py\<close>, which hands the owner to the route.
\<close>

definition resolve_owner :: "'w plugin \<Rightarrow> request \<Rightarrow> owner option" where
  "resolve_owner g rq =
     (case rq_user rq of
        None \<Rightarrow> None
      | Some u \<Rightarrow>
          if teams_mode g
          then (case rq_team rq of None \<Rightarrow> None | Some t \<Rightarrow> Some (''team'', tr_id t))
          else Some (''user'', ur_id u))"

definition resolve_owner_for_user :: "'w plugin \<Rightarrow> user_row option \<Rightarrow> owner option" where
  "resolve_owner_for_user g user =
     (case user of
        None \<Rightarrow> None
      | Some u \<Rightarrow>
          if teams_mode g
          then (case ur_team u of None \<Rightarrow> None | Some t \<Rightarrow> if t = 0 then None else Some (''team'', t))
          else Some (''user'', ur_id u))"

definition current_user_id :: "request \<Rightarrow> int option" where
  "current_user_id rq = map_option ur_id (rq_user rq)"

definition owner_display_name :: "owner \<Rightarrow> site \<Rightarrow> string" where
  "owner_display_name ow d =
     (if fst ow = ''team''
      then (case find (\<lambda>t. tr_id t = snd ow) (st_teams d) of
              Some t \<Rightarrow> tr_name t | None \<Rightarrow> ''team#'' @ str_int (snd ow))
      else (case find (\<lambda>u. ur_id u = snd ow) (st_users d) of
              Some u \<Rightarrow> ur_name u | None \<Rightarrow> ''user#'' @ str_int (snd ow)))"

definition owner_required ::
  "'w plugin \<Rightarrow> request \<Rightarrow> (owner \<Rightarrow> ('w ctf, response) act) \<Rightarrow> ('w ctf, response) act" where
  "owner_required g rq fn s =
     (if rq_user rq = None then (Inr (fail_json 401 ''not_authenticated'' []), s)
      else (case resolve_owner g rq of
              None \<Rightarrow> (Inr (fail_json 400 ''team_required'' []), s)
            | Some ow \<Rightarrow> fn ow s))"

section \<open>Facts\<close>

text \<open>The two resolutions agree for the user of the request, when CTFd gives the team of the user.\<close>

lemma resolutions_agree:
  assumes "rq_user rq = Some u" "map_option tr_id (rq_team rq) = ur_team u" "ur_team u \<noteq> Some 0"
  shows "resolve_owner g rq = resolve_owner_for_user g (Some u)"
  using assms by (cases "rq_team rq"; cases "ur_team u") (auto simp: resolve_owner_def resolve_owner_for_user_def)

lemma owner_mode:
  "resolve_owner g rq = Some ow \<Longrightarrow> fst ow = (if teams_mode g then ''team'' else ''user'')"
  by (auto simp: resolve_owner_def split: option.splits if_splits)

lemma owner_required_cases:
  "owner_required g rq fn s =
     (case resolve_owner g rq of
        Some ow \<Rightarrow> fn ow s
      | None \<Rightarrow>
          (Inr (if rq_user rq = None then fail_json 401 ''not_authenticated'' [] else fail_json 400 ''team_required'' []), s))"
  by (cases "resolve_owner g rq") (auto simp: owner_required_def resolve_owner_def split: option.splits)

end
