(* ===== verification/Challenge_Type.thy ===== *)
theory Challenge_Type
  imports Owner_Scope "HOL-Library.Sublist"
begin

text \<open>
  The challenge type, \<open>challenge_type.py\<close>: the coercion of submitted fields, create, read, update
  and delete, the flags of a challenge and what an owner found of them, the native attempt and
  solve, the value of a challenge and the progress of an owner.
\<close>

section \<open>Coercion of fields\<close>

definition INT_FIELDS :: "string list" where
  "INT_FIELDS =
     [''value'', ''initial_value'', ''minimum_value'', ''decay'', ''memory_limit_mb'', ''pids_limit'',
      ''ttl_seconds'', ''max_attempts'', ''position'']"

definition FLOAT_FIELDS :: "string list" where
  "FLOAT_FIELDS = [''cpu_limit'']"

definition BOOL_FIELDS :: "string list" where
  "BOOL_FIELDS = [''read_only_rootfs'']"

fun is_conversion :: "exc \<Rightarrow> bool" where
  "is_conversion (TypeError _) = True"
| "is_conversion (ValueError _) = True"
| "is_conversion _ = False"

text \<open>\<open>try: return f(val)  except (TypeError, ValueError): return None\<close>\<close>

definition or_none :: "exc + json \<Rightarrow> exc + json" where
  "or_none r = (case r of Inl e \<Rightarrow> if is_conversion e then Inr JNull else Inl e | Inr j \<Rightarrow> Inr j)"

definition coerce_field :: "'w plugin \<Rightarrow> string \<Rightarrow> json \<Rightarrow> exc + json" where
  "coerce_field g key val =
     (if key \<in> set INT_FIELDS then
        (if val = JNull \<or> val = JStr [] then Inr JNull
         else or_none (sum_bind (json_int (float_trunc g) val) (\<lambda>i. Inr (JInt i))))
      else if key \<in> set FLOAT_FIELDS then
        (if val = JNull \<or> val = JStr [] then Inr JNull
         else or_none (sum_bind (to_float g val) (\<lambda>t. Inr (JFloat t))))
      else if key \<in> set BOOL_FIELDS then
        (case val of
           JBool b \<Rightarrow> Inr (JBool b)
         | _ \<Rightarrow> Inr (JBool (case py_str val of
                     Inr t \<Rightarrow> lower t \<in> {''true'', ''1'', ''on'', ''yes''} | Inl _ \<Rightarrow> False)))
      else Inr val)"

fun coerce_fields :: "'w plugin \<Rightarrow> string list \<Rightarrow> (string \<times> json) list \<Rightarrow> exc + (string \<times> json) list" where
  "coerce_fields g names [] = Inr []"
| "coerce_fields g names ((k, v) # kvs) =
     (if k \<in> set names
      then sum_bind (coerce_field g k v) (\<lambda>c. sum_bind (coerce_fields g names kvs) (\<lambda>cs. Inr ((k, c) # cs)))
      else coerce_fields g names kvs)"

section \<open>Create, read, update, delete\<close>

text \<open>\<open>request.form or request.get_json() or {}\<close>\<close>

definition form_json :: "request \<Rightarrow> json" where
  "form_json rq = JObj (map (\<lambda>(k, t). (k, JStr t)) (rq_form rq))"

definition request_data :: "request \<Rightarrow> exc + json" where
  "request_data rq =
     (if rq_form rq \<noteq> [] then Inr (form_json rq) else sum_bind (rq_json rq) (\<lambda>j. Inr (or_empty j)))"

definition CREATE_FIELDS :: "string list" where
  "CREATE_FIELDS =
     [''name'', ''description'', ''category'', ''value'', ''state'', ''attribution'',
      ''difficulty'', ''scoring_mode'', ''initial_value'', ''minimum_value'', ''decay'',
      ''build_path'', ''access_mode'', ''cpu_limit'', ''memory_limit_mb'', ''pids_limit'',
      ''read_only_rootfs'', ''ttl_seconds'']"

definition EDITABLE :: "string list" where
  "EDITABLE =
     [''name'', ''description'', ''category'', ''value'', ''state'', ''max_attempts'',
      ''attribution'', ''connection_info'', ''position'',
      ''difficulty'', ''scoring_mode'', ''initial_value'', ''minimum_value'', ''decay'',
      ''build_path'', ''access_mode'', ''cpu_limit'', ''memory_limit_mb'', ''pids_limit'',
      ''read_only_rootfs'', ''ttl_seconds'']"

text \<open>
  An INSERT takes the default of a column whose attribute was not set or was set to \<open>None\<close>; an
  UPDATE writes \<open>None\<close> as NULL.
\<close>

definition with_defaults :: "(string \<times> json) list \<Rightarrow> (string \<times> json) list \<Rightarrow> (string \<times> json) list" where
  "with_defaults dflts cols =
     filter (\<lambda>(k, v). v \<noteq> JNull) cols @
     filter (\<lambda>(k, v). k \<notin> fst ` set (filter (\<lambda>(k, v). v \<noteq> JNull) cols)) dflts"

definition create_challenge :: "'w plugin \<Rightarrow> request \<Rightarrow> ('w ctf, challenge_row) act" where
  "create_challenge g rq s =
     (case sum_bind (request_data rq) (\<lambda>data. sum_bind (obj_items data) (coerce_fields g CREATE_FIELDS)) of
        Inl e \<Rightarrow> (Inl e, s)
      | Inr cols \<Rightarrow>
          let c = \<lparr>cg_id = st_next (now_db s), cg_cols = with_defaults (challenge_defaults @ core_defaults g) cols\<rparr>
          in and_then
               (commit (edit (\<lambda>d. d\<lparr>st_challenges := st_challenges d @ [c], st_next := st_next d + 1\<rparr>) s))
               (\<lambda>_ s. (Inr c, s)))"

definition set_cols :: "(string \<times> json) list \<Rightarrow> challenge_row \<Rightarrow> challenge_row" where
  "set_cols kvs c = c\<lparr>cg_cols := foldl (\<lambda>cols (k, v). AList.update k v cols) (cg_cols c) kvs\<rparr>"

definition update_challenge :: "'w plugin \<Rightarrow> int \<Rightarrow> request \<Rightarrow> ('w ctf, unit) act" where
  "update_challenge g cid rq s =
     (case sum_bind (request_data rq) (\<lambda>data. sum_bind (obj_items data) (coerce_fields g EDITABLE)) of
        Inl e \<Rightarrow> (Inl e, s)
      | Inr kvs \<Rightarrow>
          commit (edit (\<lambda>d. d\<lparr>st_challenges :=
            map (\<lambda>c. if cg_id c = cid then set_cols kvs c else c) (st_challenges d)\<rparr>) s))"

text \<open>The rows that reference the challenge, directly or through its flags, go with it.\<close>

definition cascade_delete :: "int \<Rightarrow> site \<Rightarrow> site" where
  "cascade_delete cid d =
     (let gone = (\<lambda>f. \<exists>r \<in> set (st_flags d). fl_id r = f \<and> fl_challenge r = cid) in
      d\<lparr>st_challenges := filter (\<lambda>c. cg_id c \<noteq> cid) (st_challenges d),
        st_flags := filter (\<lambda>f. fl_challenge f \<noteq> cid) (st_flags d),
        st_weights := filter (\<lambda>w. \<not> gone (fw_flag w)) (st_weights d),
        st_finds := filter (\<lambda>f. fs_challenge f \<noteq> cid \<and> \<not> gone (fs_flag f)) (st_finds d),
        st_instances := filter (\<lambda>i. ei_challenge i \<noteq> cid) (st_instances d)\<rparr>)"

definition delete_challenge :: "int \<Rightarrow> ('w ctf, unit) act" where
  "delete_challenge cid s = commit (edit (cascade_delete cid) s)"

section \<open>The value of a challenge\<close>

text \<open>
  \<open>challenge.x or default\<close> of an integer column. \<open>round\<close> goes to the nearest integer, halves to the
  even one; \<open>fl\<close> is the rounding of a real to the nearest float, which every float operation does.
\<close>

definition int_or :: "string \<Rightarrow> int \<Rightarrow> challenge_row \<Rightarrow> int" where
  "int_or k dflt c = (case col k c of JInt i \<Rightarrow> if i = 0 then dflt else i | _ \<Rightarrow> dflt)"

definition round_even :: "rat \<Rightarrow> int" where
  "round_even r =
     (let f = floor r; d = r - of_int f
      in if d < 1/2 then f else if 1/2 < d then f + 1 else if even f then f else f + 1)"

definition dynamic_value :: "(rat \<Rightarrow> rat) \<Rightarrow> challenge_row \<Rightarrow> site \<Rightarrow> int" where
  "dynamic_value fl c d =
     (let solve_count = int (length (filter (\<lambda>r. su_challenge r = cg_id c) (st_solves d)));
          initial = int_or ''initial_value'' (int_or ''value'' 0 c) c;
          minimum = int_or ''minimum_value'' 0 c;
          decay = max 1 (int_or ''decay'' 1 c)
      in if solve_count \<ge> decay then minimum
         else round_even (fl (fl (of_int initial) -
                fl (fl (of_int (initial - minimum)) * fl (of_int solve_count / of_int decay)))))"

definition current_value :: "(rat \<Rightarrow> rat) \<Rightarrow> challenge_row \<Rightarrow> site \<Rightarrow> int" where
  "current_value fl c d =
     (if col ''scoring_mode'' c = JStr ''static'' then int_or ''value'' 0 c else dynamic_value fl c d)"

definition type_data :: json where
  "type_data =
     JObj [(''id'', JStr ''edo''), (''name'', JStr ''edo''),
       (''templates'', JObj [(''create'', JStr ''/plugins/edo_plugin/assets/create.html''),
                             (''update'', JStr ''/plugins/edo_plugin/assets/update.html''),
                             (''view'', JStr ''/plugins/edo_plugin/assets/view.html'')]),
       (''scripts'', JObj [(''create'', JStr ''/plugins/edo_plugin/assets/create.js''),
                           (''update'', JStr ''/plugins/edo_plugin/assets/update.js''),
                           (''view'', JStr ''/plugins/edo_plugin/assets/view.js'')])]"

definition read_challenge :: "(rat \<Rightarrow> rat) \<Rightarrow> int \<Rightarrow> site \<Rightarrow> exc + json" where
  "read_challenge fl cid d =
     (case challenge_by_id cid d of
        None \<Rightarrow> Inl (AttributeError ''id'')
      | Some c \<Rightarrow>
          Inr (JObj
            ([(''id'', JInt (cg_id c)), (''name'', col ''name'' c), (''value'', JInt (current_value fl c d))] @
             map (\<lambda>k. (k, col k c)) [''description'', ''category'', ''state'', ''max_attempts'', ''type''] @
             [(''type_data'', type_data)] @
             map (\<lambda>k. (k, col k c))
               [''difficulty'', ''scoring_mode'', ''initial_value'', ''minimum_value'', ''decay'', ''build_path'',
                ''access_mode'', ''cpu_limit'', ''memory_limit_mb'', ''pids_limit'', ''read_only_rootfs'',
                ''ttl_seconds''])))"

section \<open>Flags\<close>

definition flags_of :: "int \<Rightarrow> site \<Rightarrow> flag_row list" where
  "flags_of cid d = filter (\<lambda>f. fl_challenge f = cid) (st_flags d)"

definition first_matching_flag :: "'w plugin \<Rightarrow> int \<Rightarrow> string \<Rightarrow> site \<Rightarrow> flag_row option" where
  "first_matching_flag g cid sub d = find (\<lambda>f. compare_flag g f sub) (flags_of cid d)"

definition has_find :: "owner \<Rightarrow> int \<Rightarrow> site \<Rightarrow> bool" where
  "has_find ow fid d = list_ex (\<lambda>f. fs_owner f = ow \<and> fs_flag f = fid) (st_finds d)"

definition owner_of :: "user_row \<Rightarrow> team_row option \<Rightarrow> owner" where
  "owner_of user team = (case team of Some t \<Rightarrow> (''team'', tr_id t) | None \<Rightarrow> (''user'', ur_id user))"

definition add_find :: "int \<Rightarrow> owner \<Rightarrow> int \<Rightarrow> site \<Rightarrow> site" where
  "add_find cid ow fid d = d\<lparr>st_finds := st_finds d @ [\<lparr>fs_challenge = cid, fs_flag = fid, fs_owner = ow\<rparr>]\<rparr>"

definition record_flag_find ::
  "'w plugin \<Rightarrow> int \<Rightarrow> user_row \<Rightarrow> team_row option \<Rightarrow> string \<Rightarrow> ('w ctf, flag_row option) act" where
  "record_flag_find g cid user team sub s =
     (case first_matching_flag g cid sub (now_db s) of
        None \<Rightarrow> (Inr None, s)
      | Some f \<Rightarrow>
          if has_find (owner_of user team) (fl_id f) (now_db s) then (Inr (Some f), s)
          else and_then (commit (edit (add_find cid (owner_of user team) (fl_id f)) s)) (\<lambda>_ s. (Inr (Some f), s)))"

text \<open>CTFd's rows of an account: by the team, when there is one, and otherwise by the user.\<close>

definition account_rows :: "int \<Rightarrow> user_row \<Rightarrow> team_row option \<Rightarrow> submission_row list \<Rightarrow> submission_row list" where
  "account_rows cid user team rows =
     filter (\<lambda>r. su_challenge r = cid \<and>
       (case team of Some t \<Rightarrow> su_team r = Some (tr_id t) | None \<Rightarrow> su_user r = ur_id user)) rows"

definition submission :: "int \<Rightarrow> user_row \<Rightarrow> team_row option \<Rightarrow> string \<Rightarrow> string \<Rightarrow> submission_row" where
  "submission cid user team sub ip =
     \<lparr>su_user = ur_id user, su_team = map_option tr_id team, su_challenge = cid, su_ip = ip, su_provided = sub\<rparr>"

definition insert_solve ::
  "int \<Rightarrow> user_row \<Rightarrow> team_row option \<Rightarrow> string \<Rightarrow> string \<Rightarrow> ('w ctf, unit) act" where
  "insert_solve cid user team sub ip s =
     (if account_rows cid user team (st_solves (now_db s)) = []
      then commit (edit (\<lambda>d. d\<lparr>st_solves := st_solves d @ [submission cid user team sub ip]\<rparr>) s)
      else (Inr (), s))"

definition insert_fail ::
  "int \<Rightarrow> user_row \<Rightarrow> team_row option \<Rightarrow> string \<Rightarrow> string \<Rightarrow> ('w ctf, unit) act" where
  "insert_fail cid user team sub ip s =
     commit (edit (\<lambda>d. d\<lparr>st_fails := st_fails d @ [submission cid user team sub ip]\<rparr>) s)"

section \<open>Attempt, solve and fail\<close>

text \<open>\<open>(data.get("submission") or "").strip()\<close>; the dash of the last message is written as \<open>-\<close>.\<close>

definition submitted :: "json \<Rightarrow> exc + string" where
  "submitted data =
     sum_bind (obj_get data ''submission'' JNull) (\<lambda>v.
       if \<not> truthy v then Inr []
       else (case v of JStr t \<Rightarrow> Inr (strip t) | _ \<Rightarrow> Inl (AttributeError ''strip'')))"

definition finds_of :: "int \<Rightarrow> owner \<Rightarrow> site \<Rightarrow> flag_solve list" where
  "finds_of cid ow d = filter (\<lambda>f. fs_owner f = ow \<and> fs_challenge f = cid) (st_finds d)"

definition attempt :: "'w plugin \<Rightarrow> int \<Rightarrow> request \<Rightarrow> site \<Rightarrow> exc + bool \<times> string" where
  "attempt g cid rq d =
     (case resolve_owner g rq of
        None \<Rightarrow> Inr (False, ''Incorrect'')
      | Some ow \<Rightarrow>
          sum_bind (sum_bind (request_data rq) submitted) (\<lambda>sub.
            if sub = [] then Inr (False, ''Empty submission'')
            else (case first_matching_flag g cid sub d of
                    None \<Rightarrow> Inr (False, ''Incorrect'')
                  | Some f \<Rightarrow>
                      if has_find ow (fl_id f) d then Inr (False, ''Incorrect'')
                      else
                        let total = length (flags_of cid d); found = length (finds_of cid ow d)
                        in if found + 1 \<ge> total then Inr (True, ''Correct! All flags captured.'')
                           else Inr (False, ''Correct, but '' @ str_int (int total - int found - 1) @
                                  '' flag(s) remain - submit from the challenge panel.''))))"

definition solve_native ::
  "'w plugin \<Rightarrow> user_row \<Rightarrow> team_row option \<Rightarrow> int \<Rightarrow> request \<Rightarrow> ('w ctf, unit) act" where
  "solve_native g user team cid rq s =
     (case sum_bind (request_data rq) submitted of
        Inl e \<Rightarrow> (Inl e, s)
      | Inr sub \<Rightarrow>
          and_then (record_flag_find g cid user team sub s)
            (\<lambda>_ s. insert_solve cid user team sub (rq_ip rq) s))"

definition fail_native ::
  "user_row \<Rightarrow> team_row option \<Rightarrow> int \<Rightarrow> request \<Rightarrow> ('w ctf, unit) act" where
  "fail_native user team cid rq s =
     (case sum_bind (request_data rq) submitted of
        Inl e \<Rightarrow> (Inl e, s)
      | Inr sub \<Rightarrow> insert_fail cid user team sub (rq_ip rq) s)"

section \<open>Progress\<close>

text \<open>
  \<open>round(x, 1)\<close> of a float: the tenths nearest to it, halves to the even one, as a text with one
  digit after the point.
\<close>

definition tenths :: "(rat \<Rightarrow> rat) \<Rightarrow> int \<Rightarrow> int \<Rightarrow> int" where
  "tenths fl earned all_weights = round_even (10 * fl (of_int (100 * earned) / of_int all_weights))"

definition tenths_text :: "int \<Rightarrow> string" where
  "tenths_text n =
     (if n < 0 then ''-'' else []) @ str_nat (nat \<bar>n\<bar> div 10) @ ''.'' @ str_nat (nat \<bar>n\<bar> mod 10)"

record progress =
  flags_total :: nat
  flags_solved :: nat
  percent_tenths :: int

definition weight_of :: "site \<Rightarrow> flag_row list \<Rightarrow> int \<Rightarrow> int" where
  "weight_of d flags fid =
     (case find (\<lambda>w. fw_flag w = fid \<and> fw_flag w \<in> fl_id ` set flags) (st_weights d) of
        Some w \<Rightarrow> fw_pct w | None \<Rightarrow> 100)"

definition owner_progress :: "(rat \<Rightarrow> rat) \<Rightarrow> int \<Rightarrow> owner \<Rightarrow> site \<Rightarrow> progress" where
  "owner_progress fl cid ow d =
     (let flags = flags_of cid d;
          solved = remdups (map fs_flag (finds_of cid ow d));
          total = sum_list (map (\<lambda>f. weight_of d flags (fl_id f)) flags);
          total_weight = (if total = 0 then 100 else total);
          earned_weight = sum_list (map (weight_of d flags) solved)
      in \<lparr>flags_total = length flags, flags_solved = length solved,
          percent_tenths = tenths fl earned_weight total_weight\<rparr>)"

definition progress_json :: "progress \<Rightarrow> (string \<times> json) list" where
  "progress_json p =
     [(''flags_total'', JInt (int (flags_total p))), (''flags_solved'', JInt (int (flags_solved p))),
      (''percent_earned'', JFloat (tenths_text (percent_tenths p)))]"

end
