(* ===== verification/Participant_Api.thy ===== *)
theory Participant_Api
  imports Challenge_Type
begin

text \<open>
  The routes of the participants, \<open>api/user.py\<close>, each after its decorators: the dashboard, the
  life of an instance, the VPN configuration and the submission of flags. A route gives a
  response, or raises what Flask turns into a 500.
\<close>

section \<open>Instances as JSON\<close>

text \<open>\<open>int(delta.total_seconds())\<close> truncates.\<close>

definition whole_seconds :: "int \<Rightarrow> int" where
  "whole_seconds us = (if us < 0 then - ((- us) div 1000000) else us div 1000000)"

definition micros :: "int \<Rightarrow> int" where
  "micros secs = secs * 1000000"

definition serialize_instance :: "'w plugin \<Rightarrow> edo_instance \<Rightarrow> int \<Rightarrow> 'w ctf \<Rightarrow> json" where
  "serialize_instance g i extend_threshold s =
     (let remaining = whole_seconds (ei_expires i - clock_now g s);
          challenge = challenge_by_id (ei_challenge i) (now_db s)
      in JObj [(''id'', JInt (ei_id i)), (''challenge_id'', JInt (ei_challenge i)),
           (''category'', case challenge of None \<Rightarrow> JNull | Some c \<Rightarrow> col ''category'' c),
           (''access_mode'', case challenge of None \<Rightarrow> JStr ''vpn'' | Some c \<Rightarrow> col ''access_mode'' c),
           (''container_name'', opt_text (ei_name i)), (''assigned_ip'', opt_text (ei_ip i)),
           (''host_ports'', opt_text (ei_ports i)), (''published_ports'', opt_text (ei_published i)),
           (''status'', JStr (ei_status i)), (''expires_at'', JStr (isoformat g (ei_expires i))),
           (''remaining_seconds'', JInt (max remaining 0)),
           (''can_extend'', JBool (0 < remaining \<and> remaining \<le> extend_threshold))])"

definition extend_threshold :: "site \<Rightarrow> int" where
  "extend_threshold d = setting_or ''extend_threshold_seconds'' DEFAULT_EXTEND_THRESHOLD_SECONDS d"

definition max_containers :: "site \<Rightarrow> int" where
  "max_containers d = setting_or ''max_containers_per_owner'' DEFAULT_MAX_CONTAINERS_PER_OWNER d"

definition dashboard_data :: "'w plugin \<Rightarrow> owner \<Rightarrow> ('w ctf, response) act" where
  "dashboard_data g ow s =
     (let d = now_db s in
      (Inr (ok_json [(''max_containers'', JInt (max_containers d)),
              (''extend_threshold_seconds'', JInt (extend_threshold d)),
              (''public_ip'', JStr (setting_text_or ''public_ip'' DEFAULT_PUBLIC_IP d)),
              (''instances'', JList (map (\<lambda>i. serialize_instance g i (extend_threshold d) s) (active_of ow d)))]), s))"

definition challenge_progress :: "(rat \<Rightarrow> rat) \<Rightarrow> int \<Rightarrow> owner \<Rightarrow> ('w ctf, response) act" where
  "challenge_progress fl cid ow s = (Inr (ok_json (progress_json (owner_progress fl cid ow (now_db s)))), s)"

section \<open>Spawning\<close>

definition new_row :: "int \<Rightarrow> int \<Rightarrow> owner \<Rightarrow> int \<Rightarrow> int \<Rightarrow> edo_instance" where
  "new_row k cid ow created expires_us =
     \<lparr>ei_id = k, ei_challenge = cid, ei_owner = ow, ei_container = None, ei_name = None, ei_ip = None,
      ei_ports = None, ei_published = None, ei_status = ''pending'', ei_created = created,
      ei_expires = expires_us, ei_reconciled = None, ei_error = None\<rparr>"

text \<open>
  The row that reserves the slot of the owner, committed before the daemon is asked; when the
  commit fails, the answer names the row that is there.
\<close>

definition reserve :: "edo_instance \<Rightarrow> 'w ctf \<Rightarrow> (response + unit) \<times> 'w ctf" where
  "reserve i s =
     (case commit (edit (\<lambda>d. d\<lparr>st_instances := st_instances d @ [i], st_next := st_next d + 1\<rparr>) s) of
        (Inr _, s') \<Rightarrow> (Inr (), s')
      | (Inl _, s') \<Rightarrow>
          let s'' = rollback s' in
          (case find (\<lambda>j. slot_of j = slot_of i) (st_instances (now_db s'')) of
             Some j \<Rightarrow> (Inl (fail_json 409 ''already_running'' [(''instance_id'', JInt (ei_id j))]), s'')
           | None \<Rightarrow> (Inl (fail_json 409 ''race_conflict'' []), s'')))"

text \<open>\<open>float(challenge.cpu_limit or 1.0)\<close> and the rest of the argument \<open>security\<close>\<close>

definition security_of :: "'w plugin \<Rightarrow> challenge_row \<Rightarrow> exc + json" where
  "security_of g c =
     sum_bind (if truthy (col ''cpu_limit'' c) then to_float g (col ''cpu_limit'' c) else Inr ''1.0'') (\<lambda>cpu.
       Inr (JObj [(''cpus'', JFloat cpu),
                  (''memory'', JStr (str_int (int_or ''memory_limit_mb'' 512 c) @ ''m'')),
                  (''pids_limit'', JInt (int_or ''pids_limit'' 256 c)),
                  (''read_only_rootfs'', JBool (truthy (col ''read_only_rootfs'' c)))]))"

text \<open>
  A text column takes a text or NULL; the daemon sends nothing else, and what a driver makes of
  another value is not modelled (it is refused).
\<close>

definition text_column :: "json \<Rightarrow> exc + string option" where
  "text_column j = (case j of JStr t \<Rightarrow> Inr (Some t) | JNull \<Rightarrow> Inr None | _ \<Rightarrow> Inl (TypeError ''column value''))"

text \<open>The row of a spawned instance: what the daemon answered, \<open>json.dumps(result.get(k) or default)\<close>.\<close>

definition fill_row :: "json \<Rightarrow> edo_instance \<Rightarrow> exc + edo_instance" where
  "fill_row result i =
     sum_bind (sum_bind (obj_get result ''container_id'' JNull) text_column) (\<lambda>cid.
     sum_bind (sum_bind (obj_get result ''container_name'' JNull) text_column) (\<lambda>name.
     sum_bind (sum_bind (obj_get result ''assigned_ip'' JNull) text_column) (\<lambda>ip.
     sum_bind (obj_get result ''ports'' JNull) (\<lambda>ps.
     sum_bind (obj_get result ''published_ports'' JNull) (\<lambda>pub.
       Inr (i\<lparr>ei_container := cid, ei_name := name, ei_ip := ip,
              ei_ports := Some (dumps '', '' '': '' (if truthy ps then ps else JList [])),
              ei_published := Some (dumps '', '' '': '' (or_empty pub)), ei_status := ''running''\<rparr>))))))"

definition spawn_failed_answer :: "'w plugin \<Rightarrow> edo_instance \<Rightarrow> exc \<Rightarrow> ('w ctf, response) act" where
  "spawn_failed_answer g i e s =
     and_then (commit (edit (delete_instance i)
         (audit g ''user'' ''spawn_failed'' (Some i) (JObj [(''error'', JStr (exc_str e))]) s)))
       (\<lambda>_ s. (Inr (fail_json 502 ''daemon_error'' [(''detail'', JStr (exc_str e))]), s))"

definition spawn_done :: "'w plugin \<Rightarrow> edo_instance \<Rightarrow> json \<Rightarrow> ('w ctf, response) act" where
  "spawn_done g i result s =
     (case fill_row result i of
        Inl e \<Rightarrow> (Inl e, s)
      | Inr i' \<Rightarrow>
          and_then (commit (audit g ''user'' ''spawn'' (Some i') JNull (edit (put_instance i') s)))
            (\<lambda>_ s. (Inr (ok_json [(''instance'', serialize_instance g i' (extend_threshold (now_db s)) s)]), s)))"

text \<open>\<open>try: \<dots>  except DaemonError as e: answer\<close> around one call of the daemon\<close>

definition ask_daemon ::
  "('w, json) act \<Rightarrow> (exc \<Rightarrow> ('w ctf, 'a) act) \<Rightarrow> (json \<Rightarrow> ('w ctf, 'a) act) \<Rightarrow> ('w ctf, 'a) act" where
  "ask_daemon call failed next_step s =
     (case remotely call s of
        (Inr j, s') \<Rightarrow> next_step j s'
      | (Inl e, s') \<Rightarrow> if is_DaemonError e then failed e s' else (Inl e, s'))"

definition spawn_row :: "'w plugin \<Rightarrow> challenge_row \<Rightarrow> owner \<Rightarrow> int \<Rightarrow> edo_instance \<Rightarrow> ('w ctf, response) act" where
  "spawn_row g c ow ttl i s =
     (case reserve i s of
        (Inl r, s') \<Rightarrow> (Inr r, s')
      | (Inr _, s') \<Rightarrow>
          (case (security_of g c, col ''build_path'' c) of
             (Inr sec, JStr path) \<Rightarrow>
               ask_daemon
                 (container_ensure_instance (rpc g) ow (str_int (ei_challenge i)) path sec (Some ttl)
                    (col ''access_mode'' c = JStr ''public''))
                 (spawn_failed_answer g i) (spawn_done g i) s'
           | (Inl e, _) \<Rightarrow> (Inl e, s')
           | _ \<Rightarrow> (Inl (TypeError ''build_path''), s')))"

definition ttl_of :: "challenge_row \<Rightarrow> site \<Rightarrow> int" where
  "ttl_of c d = int_or ''ttl_seconds'' (setting_or ''container_ttl_seconds'' DEFAULT_CONTAINER_TTL_SECONDS d) c"

definition spawn_route :: "'w plugin \<Rightarrow> int \<Rightarrow> owner \<Rightarrow> ('w ctf, response) act" where
  "spawn_route g cid ow s =
     (case challenge_by_id cid (now_db s) of
        None \<Rightarrow> (Inr (fail_json 404 ''challenge_not_found'' []), s)
      | Some c \<Rightarrow>
          if \<not> truthy (col ''build_path'' c) then (Inr (fail_json 400 ''challenge_has_no_build_path'' []), s)
          else if int (length (active_of ow (now_db s))) \<ge> max_containers (now_db s)
          then (Inr (fail_json 429 ''owner_container_limit'' [(''limit'', JInt (max_containers (now_db s)))]), s)
          else
            let ttl = ttl_of c (now_db s); now = clock_now g s
            in spawn_row g c ow ttl (new_row (st_next (now_db s)) cid ow now (now + micros ttl)) s)"

section \<open>Tearing down and extending\<close>

definition owned_instance :: "int \<Rightarrow> owner \<Rightarrow> site \<Rightarrow> response + edo_instance" where
  "owned_instance k ow d =
     (case instance_by_id k d of
        None \<Rightarrow> Inl (fail_json 404 ''not_found'' [])
      | Some i \<Rightarrow> if ei_owner i \<noteq> ow then Inl (fail_json 403 ''forbidden'' []) else Inr i)"

text \<open>\<open>if inst.container_id: client.container_release_instance(\<dots>)\<close>\<close>

definition release_container :: "'w plugin \<Rightarrow> edo_instance \<Rightarrow> ('w, json) act" where
  "release_container g i w =
     (case ei_container i of
        None \<Rightarrow> (Inr JNull, w)
      | Some cid \<Rightarrow> if cid = [] then (Inr JNull, w) else container_release_instance (rpc g) cid w)"

definition forget_instance :: "'w plugin \<Rightarrow> string \<Rightarrow> string \<Rightarrow> edo_instance \<Rightarrow> ('w ctf, response) act" where
  "forget_instance g actor ev i s =
     and_then (commit (edit (delete_instance i) (audit g actor ev (Some i) JNull s)))
       (\<lambda>_ s. (Inr (ok_json []), s))"

definition teardown_route :: "'w plugin \<Rightarrow> int \<Rightarrow> owner \<Rightarrow> ('w ctf, response) act" where
  "teardown_route g k ow s =
     (case owned_instance k ow (now_db s) of
        Inl r \<Rightarrow> (Inr r, s)
      | Inr i \<Rightarrow>
          ask_daemon (release_container g i)
            (\<lambda>_. forget_instance g ''user'' ''teardown'' i) (\<lambda>_. forget_instance g ''user'' ''teardown'' i) s)"

definition extend_route :: "'w plugin \<Rightarrow> int \<Rightarrow> owner \<Rightarrow> ('w ctf, response) act" where
  "extend_route g k ow s =
     (case owned_instance k ow (now_db s) of
        Inl r \<Rightarrow> (Inr r, s)
      | Inr i \<Rightarrow>
          let threshold = extend_threshold (now_db s);
              extend_by = setting_or ''extend_seconds'' DEFAULT_EXTEND_SECONDS (now_db s);
              remaining = ei_expires i - clock_now g s
          in if remaining > micros threshold
             then (Inr (fail_json 400 ''not_yet_extendable''
                     [(''remaining_seconds'', JInt (whole_seconds remaining)),
                      (''threshold_seconds'', JInt threshold)]), s)
             else
               let i' = i\<lparr>ei_expires := ei_expires i + micros extend_by\<rparr>
               in and_then
                    (commit (audit g ''user'' ''extend'' (Some i') (JObj [(''added_seconds'', JInt extend_by)])
                       (edit (put_instance i') s)))
                    (\<lambda>_ s. (Inr (ok_json [(''expires_at'', JStr (isoformat g (ei_expires i')))]), s)))"

section \<open>The VPN configuration\<close>

definition live_peer_of :: "int \<Rightarrow> site \<Rightarrow> edo_peer option" where
  "live_peer_of uid d = find (\<lambda>p. ep_user p = uid \<and> \<not> ep_revoked p) (st_peers d)"

text \<open>The row for the peer that the daemon answered with: \<open>peer["public_key"]\<close> and so on.\<close>

definition peer_row :: "int \<Rightarrow> owner \<Rightarrow> json \<Rightarrow> exc + edo_peer" where
  "peer_row uid ow j =
     sum_bind (sum_bind (param j ''public_key'') text_param) (\<lambda>pub.
     sum_bind (sum_bind (obj_get j ''private_key'' JNull) text_column) (\<lambda>priv.
     sum_bind (sum_bind (param j ''assigned_ip'') text_param) (\<lambda>ip.
       Inr \<lparr>ep_user = uid, ep_owner = ow, ep_public = pub, ep_private = priv, ep_ip = ip, ep_revoked = False\<rparr>)))"

definition add_peer_row :: "edo_peer \<Rightarrow> site \<Rightarrow> site" where
  "add_peer_row p d = d\<lparr>st_peers := st_peers d @ [p]\<rparr>"

definition daemon_failed :: "exc \<Rightarrow> ('w ctf, response) act" where
  "daemon_failed e s = (Inr (fail_json 502 ''daemon_error'' [(''detail'', JStr (exc_str e))]), s)"

text \<open>\<open>re.sub(r"[^A-Za-z0-9_.-]", "_", username) or f"user-{user_id}"\<close>\<close>

definition file_char :: "char \<Rightarrow> bool" where
  "file_char c \<longleftrightarrow> (let n = (of_char c :: nat) in
     is_digit c \<or> (65 \<le> n \<and> n \<le> 90) \<or> (97 \<le> n \<and> n \<le> 122) \<or> c \<in> set ''_.-'')"

definition safe_name :: "string \<Rightarrow> int \<Rightarrow> string" where
  "safe_name who uid =
     (let t = map (\<lambda>c. if file_char c then c else CHR ''_'') who
      in if t = [] then ''user-'' @ str_int uid else t)"

definition send_config :: "'w plugin \<Rightarrow> int \<Rightarrow> ('w ctf, response) act" where
  "send_config g uid s =
     ask_daemon (wg_render_config (rpc g) uid) daemon_failed
       (\<lambda>blob s.
          case find (\<lambda>u. ur_id u = uid) (st_users (now_db s)) of
            None \<Rightarrow> (Inl (AttributeError ''name''), s)
          | Some u \<Rightarrow> (Inr (Download (safe_name (ur_name u) uid @ ''.conf'') blob), s)) s"

definition download_config :: "'w plugin \<Rightarrow> int \<Rightarrow> owner \<Rightarrow> ('w ctf, response) act" where
  "download_config g uid ow s =
     (case live_peer_of uid (now_db s) of
        Some _ \<Rightarrow> send_config g uid s
      | None \<Rightarrow>
          ask_daemon (wg_ensure_peer (rpc g) uid ow) daemon_failed
            (\<lambda>j s. case peer_row uid ow j of
                     Inl e \<Rightarrow> (Inl e, s)
                   | Inr p \<Rightarrow> and_then (commit (edit (add_peer_row p) s)) (\<lambda>_ s. send_config g uid s)) s)"

section \<open>Submitting a flag\<close>

text \<open>\<open>request.get_json(silent=True) or request.form or {}\<close>\<close>

definition silent_data :: "request \<Rightarrow> json" where
  "silent_data rq =
     (case rq_json rq of
        Inr j \<Rightarrow> if truthy j then j else form_json rq
      | Inl _ \<Rightarrow> form_json rq)"

definition correct_json :: "bool \<Rightarrow> (string \<times> json) list \<Rightarrow> string \<Rightarrow> progress \<Rightarrow> response" where
  "correct_json all_found extra msg p =
     ok_json ([(''correct'', JBool True)] @ extra @ [(''complete'', JBool all_found), (''message'', JStr msg)] @
              progress_json p)"

definition complete_of :: "progress \<Rightarrow> bool" where
  "complete_of p \<longleftrightarrow> flags_solved p \<ge> flags_total p"

text \<open>
  A submission that is a flag the owner had not found: it is recorded, and when the set is complete
  CTFd's own row is inserted.
\<close>

definition finish_find ::
  "(rat \<Rightarrow> rat) \<Rightarrow> int \<Rightarrow> owner \<Rightarrow> user_row \<Rightarrow> team_row option \<Rightarrow> string \<Rightarrow> string \<Rightarrow> ('w ctf, response) act" where
  "finish_find fl cid ow user team sub ip s =
     (let p = owner_progress fl cid ow (now_db s) in
      if complete_of p
      then and_then (insert_solve cid user team sub ip s)
             (\<lambda>_ s. (Inr (correct_json True [] ''Correct! Challenge complete.'' p), s))
      else (Inr (correct_json False []
              (''Correct! '' @ str_int (int (flags_total p) - int (flags_solved p)) @ '' flag(s) remaining.'') p), s))"

definition credit_flag ::
  "'w plugin \<Rightarrow> (rat \<Rightarrow> rat) \<Rightarrow> int \<Rightarrow> owner \<Rightarrow> user_row \<Rightarrow> team_row option \<Rightarrow> string \<Rightarrow> string
   \<Rightarrow> ('w ctf, response) act" where
  "credit_flag g fl cid ow user team sub ip s =
     and_then (record_flag_find g cid user team sub s) (\<lambda>_ s. finish_find fl cid ow user team sub ip s)"

definition judge_flag ::
  "'w plugin \<Rightarrow> (rat \<Rightarrow> rat) \<Rightarrow> int \<Rightarrow> owner \<Rightarrow> user_row \<Rightarrow> team_row option \<Rightarrow> string \<Rightarrow> string
   \<Rightarrow> ('w ctf, response) act" where
  "judge_flag g fl cid ow user team sub ip s =
     (case first_matching_flag g cid sub (now_db s) of
        None \<Rightarrow>
          and_then (insert_fail cid user team sub ip s)
            (\<lambda>_ s. (Inr (ok_json [(''correct'', JBool False), (''message'', JStr ''Incorrect'')]), s))
      | Some f \<Rightarrow>
          if has_find ow (fl_id f) (now_db s)
          then let p = owner_progress fl cid ow (now_db s) in
               (Inr (correct_json (complete_of p) [(''already_found'', JBool True)]
                       ''You already found this flag.'' p), s)
          else credit_flag g fl cid ow user team sub ip s)"

definition attempts_left :: "challenge_row \<Rightarrow> user_row \<Rightarrow> team_row option \<Rightarrow> owner \<Rightarrow> site \<Rightarrow> bool" where
  "attempts_left c user team ow d =
     (let limit = int_or ''max_attempts'' 0 c;
          fails = filter (\<lambda>r. su_challenge r = cg_id c \<and>
            (if team = None then su_user r = snd ow else su_team r = Some (snd ow))) (st_fails d)
      in limit = 0 \<or> int (length fails) < limit)"

definition submit_checked ::
  "'w plugin \<Rightarrow> (rat \<Rightarrow> rat) \<Rightarrow> challenge_row \<Rightarrow> owner \<Rightarrow> request \<Rightarrow> ('w ctf, response) act" where
  "submit_checked g fl c ow rq s =
     (case find (\<lambda>u. Some (ur_id u) = current_user_id rq) (st_users (now_db s)) of
        None \<Rightarrow> (Inl (AttributeError ''id''), s)
      | Some user \<Rightarrow>
          let team = (if fst ow = ''team'' then find (\<lambda>t. tr_id t = snd ow) (st_teams (now_db s)) else None)
          in if \<not> attempts_left c user team ow (now_db s)
             then (Inr (fail_json 403 ''attempts_exhausted'' []), s)
             else (case submitted (silent_data rq) of
                     Inl e \<Rightarrow> (Inl e, s)
                   | Inr sub \<Rightarrow>
                       if sub = [] then (Inr (fail_json 400 ''empty_submission'' []), s)
                       else judge_flag g fl (cg_id c) ow user team sub (rq_ip rq) s))"

definition submit_route ::
  "'w plugin \<Rightarrow> (rat \<Rightarrow> rat) \<Rightarrow> int \<Rightarrow> request \<Rightarrow> owner \<Rightarrow> ('w ctf, response) act" where
  "submit_route g fl cid rq ow s =
     (case challenge_by_id cid (now_db s) of
        None \<Rightarrow> (Inr (fail_json 404 ''challenge_not_found'' []), s)
      | Some c \<Rightarrow>
          let limit = setting_or ''submit_rate_limit'' DEFAULT_SUBMIT_RATE_LIMIT (now_db s);
              window = setting_or ''submit_rate_window'' DEFAULT_SUBMIT_RATE_WINDOW (now_db s)
          in (case check_rate_limit (ow, ''submit'', cid) limit window (monotonic g (remote s)) (limits s) of
                (r, b) \<Rightarrow>
                  let s' = s\<lparr>limits := b\<rparr> in
                  (case r of
                     Inl e \<Rightarrow> (Inl e, s')
                   | Inr (allowed, retry_after) \<Rightarrow>
                       if \<not> allowed
                       then (Inr (fail_json 429 ''rate_limited'' [(''retry_after'', JInt retry_after)]), s')
                       else submit_checked g fl c ow rq s')))"

end
