(* ===== verification/Admin_Api.thy ===== *)
theory Admin_Api
  imports Participant_Api
begin

text \<open>
  The routes of the administrators, \<open>api/admin.py\<close>: settings, weights of flags, progress of owners
  and its reset, instances and the kill switch, peers, the audit log and the health check.
  CTFd's caches, which the reset clears, are not part of the state.
\<close>

section \<open>Settings\<close>

definition settings_page :: "site \<Rightarrow> (string \<times> string) list" where
  "settings_page d = map (\<lambda>(k, v). (k, setting_text k v d)) DEFAULTS"

definition ALLOWED_SETTINGS :: "string list" where
  "ALLOWED_SETTINGS =
     [''max_containers_per_owner'', ''container_ttl_seconds'', ''extend_seconds'', ''extend_threshold_seconds'',
      ''submit_rate_limit'', ''submit_rate_window'', ''vpn_server_endpoint'', ''public_ip'',
      ''reconcile_interval_seconds'', ''ttl_check_interval_seconds'']"

fun save_loop :: "'w plugin \<Rightarrow> (string \<times> json) list \<Rightarrow> ('w ctf, unit) act" where
  "save_loop g [] s = (Inr (), s)"
| "save_loop g ((k, v) # kvs) s =
     (if k \<in> set ALLOWED_SETTINGS then and_then (set_setting g k v s) (\<lambda>_ s. save_loop g kvs s)
      else save_loop g kvs s)"

definition settings_save :: "'w plugin \<Rightarrow> request \<Rightarrow> ('w ctf, response) act" where
  "settings_save g rq s =
     (case sum_bind (rq_json rq) (\<lambda>j. obj_items (or_empty j)) of
        Inl e \<Rightarrow> (Inl e, s)
      | Inr kvs \<Rightarrow> and_then (save_loop g kvs s) (\<lambda>_ s. (Inr (ok_json []), s)))"

section \<open>Weights of flags\<close>

definition list_flag_weights :: "int \<Rightarrow> site \<Rightarrow> response" where
  "list_flag_weights cid d =
     (let flags = flags_of cid d in
      ok_json [(''flags'', JList (map (\<lambda>f. JObj
        [(''id'', JInt (fl_id f)), (''type'', JStr (fl_type f)), (''content'', JStr (fl_content f)),
         (''weight_pct'', JInt (weight_of d flags (fl_id f)))]) flags))])"

definition flag_by_id :: "int \<Rightarrow> site \<Rightarrow> flag_row option" where
  "flag_by_id fid d = find (\<lambda>f. fl_id f = fid) (st_flags d)"

definition put_weight :: "int \<Rightarrow> int \<Rightarrow> site \<Rightarrow> site" where
  "put_weight fid pct d =
     (if list_ex (\<lambda>w. fw_flag w = fid) (st_weights d)
      then d\<lparr>st_weights := map (\<lambda>w. if fw_flag w = fid then w\<lparr>fw_pct := pct\<rparr> else w) (st_weights d)\<rparr>
      else d\<lparr>st_weights := st_weights d @ [\<lparr>fw_flag = fid, fw_pct = pct\<rparr>]\<rparr>)"

definition weights_sum_to_100 :: "int \<Rightarrow> site \<Rightarrow> bool" where
  "weights_sum_to_100 cid d =
     (let ids = map fl_id (flags_of cid d);
          rows = filter (\<lambda>w. fw_flag w \<in> set ids) (st_weights d);
          unset = int (length ids) - int (length rows)
      in ids = [] \<or> sum_list (map fw_pct rows) + 100 * unset = 100)"

definition set_flag_weight :: "'w plugin \<Rightarrow> int \<Rightarrow> request \<Rightarrow> ('w ctf, response) act" where
  "set_flag_weight g fid rq s =
     (case flag_by_id fid (now_db s) of
        None \<Rightarrow> (Inr (fail_json 404 ''flag_not_found'' []), s)
      | Some f \<Rightarrow>
          (case sum_bind (rq_json rq) (\<lambda>j. obj_get (or_empty j) ''weight_pct'' JNull) of
             Inl e \<Rightarrow> (Inl e, s)
           | Inr JNull \<Rightarrow> (Inr (fail_json 400 ''weight_pct must be 0-100'' []), s)
           | Inr v \<Rightarrow>
               (case json_int (float_trunc g) v of
                  Inl e \<Rightarrow> (Inl e, s)
                | Inr pct \<Rightarrow>
                    if \<not> (0 \<le> pct \<and> pct \<le> 100) then (Inr (fail_json 400 ''weight_pct must be 0-100'' []), s)
                    else
                      and_then (commit (edit (put_weight fid pct) s)) (\<lambda>_ s.
                        (Inr (ok_json (if weights_sum_to_100 (fl_challenge f) (now_db s) then []
                                else [(''warning'', JStr ''weights do not sum to 100'')])), s)))))"

section \<open>Progress of the owners\<close>

definition owner_less_eq :: "owner \<Rightarrow> owner \<Rightarrow> bool" where
  "owner_less_eq a b \<longleftrightarrow>
     (if fst a = fst b then snd a \<le> snd b else str_less_eq (fst a) (fst b))"

fun insert_owner :: "owner \<times> nat \<Rightarrow> (owner \<times> nat) list \<Rightarrow> (owner \<times> nat) list" where
  "insert_owner x [] = [x]"
| "insert_owner x (y # ys) = (if owner_less_eq (fst x) (fst y) then x # y # ys else y # insert_owner x ys)"

fun count_owners :: "flag_solve list \<Rightarrow> (owner \<times> nat) list \<Rightarrow> (owner \<times> nat) list" where
  "count_owners [] acc = acc"
| "count_owners (f # fs) acc =
     count_owners fs
       (AList.update (fs_owner f) (case map_of acc (fs_owner f) of None \<Rightarrow> 1 | Some n \<Rightarrow> n + 1) acc)"

definition list_owner_progress :: "int \<Rightarrow> site \<Rightarrow> response" where
  "list_owner_progress cid d =
     (let total = length (flags_of cid d);
          by_owner = count_owners (filter (\<lambda>f. fs_challenge f = cid) (st_finds d)) []
      in ok_json [(''owners'', JList (map (\<lambda>(ow, n). JObj
           [(''owner_type'', JStr (fst ow)), (''owner_id'', JInt (snd ow)),
            (''owner_name'', JStr (owner_display_name ow d)),
            (''flags_solved'', JInt (int n)), (''flags_total'', JInt (int total))])
           (foldr insert_owner by_owner [])))])"

definition reset_progress :: "int \<Rightarrow> owner \<Rightarrow> site \<Rightarrow> site" where
  "reset_progress cid ow d =
     d\<lparr>st_finds := filter (\<lambda>f. \<not> (fs_challenge f = cid \<and> fs_owner f = ow)) (st_finds d),
       st_solves := filter (\<lambda>r. \<not> (su_challenge r = cid \<and>
          (if fst ow = ''team'' then su_team r = Some (snd ow) else su_user r = snd ow))) (st_solves d)\<rparr>"

text \<open>An entry of the audit log that belongs to no instance; \<open>cid\<close> is its challenge, if any.\<close>

definition audit_note :: "'w plugin \<Rightarrow> string \<Rightarrow> int option \<Rightarrow> json \<Rightarrow> 'w ctf \<Rightarrow> 'w ctf" where
  "audit_note g ev cid details s =
     edit (\<lambda>d. d\<lparr>st_audit := st_audit d @
        [\<lparr>au_id = st_next d, au_ts = clock_now g s, au_actor = ''admin'', au_event = ev,
          au_challenge = cid, au_instance = None, au_details = Some (dumps '', '' '': '' details)\<rparr>],
      st_next := st_next d + 1\<rparr>) s"

definition reset_owner_progress :: "'w plugin \<Rightarrow> int \<Rightarrow> owner \<Rightarrow> ('w ctf, response) act" where
  "reset_owner_progress g cid ow s =
     (if fst ow \<noteq> ''user'' \<and> fst ow \<noteq> ''team'' then (Inr (fail_json 400 ''invalid_owner_type'' []), s)
      else
        and_then
          (commit (audit_note g ''reset_owner_progress'' (Some cid)
             (JObj [(''owner_type'', JStr (fst ow)), (''owner_id'', JInt (snd ow))])
             (edit (reset_progress cid ow) s)))
          (\<lambda>_ s. (Inr (ok_json []), s)))"

section \<open>Instances\<close>

definition admin_instance :: "'w plugin \<Rightarrow> site \<Rightarrow> edo_instance \<Rightarrow> json" where
  "admin_instance g d i =
     JObj [(''id'', JInt (ei_id i)), (''challenge_id'', JInt (ei_challenge i)),
       (''owner_type'', JStr (fst (ei_owner i))), (''owner_id'', JInt (snd (ei_owner i))),
       (''owner_name'', JStr (owner_display_name (ei_owner i) d)),
       (''container_id'', opt_text (ei_container i)), (''container_name'', opt_text (ei_name i)),
       (''assigned_ip'', opt_text (ei_ip i)), (''host_ports'', opt_text (ei_ports i)),
       (''published_ports'', opt_text (ei_published i)), (''status'', JStr (ei_status i)),
       (''created_at'', JStr (isoformat g (ei_created i))), (''expires_at'', JStr (isoformat g (ei_expires i))),
       (''error_message'', opt_text (ei_error i))]"

definition list_instances :: "'w plugin \<Rightarrow> site \<Rightarrow> response" where
  "list_instances g d =
     ok_json [(''instances'', JList (map (admin_instance g d)
        (take 500 (sort_key (\<lambda>i. - ei_created i) (st_instances d)))))]"

definition admin_failed :: "exc \<Rightarrow> ('w ctf, response) act" where
  "admin_failed e s = (Inr (fail_json 502 (exc_str e) []), s)"

definition force_teardown :: "'w plugin \<Rightarrow> int \<Rightarrow> ('w ctf, response) act" where
  "force_teardown g k s =
     (case instance_by_id k (now_db s) of
        None \<Rightarrow> (Inr (fail_json 404 ''not_found'' []), s)
      | Some i \<Rightarrow>
          ask_daemon (release_container g i) admin_failed (\<lambda>_. forget_instance g ''admin'' ''force_teardown'' i) s)"

text \<open>\<open>jsonify(success=True, **result)\<close> needs a mapping, without a second \<open>success\<close>.\<close>

definition spread :: "json \<Rightarrow> exc + response" where
  "spread result =
     (case result of
        JObj kvs \<Rightarrow>
          if ''success'' \<in> fst ` set kvs then Inl (TypeError ''multiple values for keyword argument'')
          else Inr (ok_json kvs)
      | _ \<Rightarrow> Inl (TypeError ''argument after ** must be a mapping''))"

definition kill_switch_route :: "'w plugin \<Rightarrow> ('w ctf, response) act" where
  "kill_switch_route g =
     ask_daemon (rpc_kill_switch (rpc g)) admin_failed
       (\<lambda>result s.
          and_then
            (commit (audit_note g ''kill_switch'' None result
               (edit (\<lambda>d. d\<lparr>st_instances := filter (\<lambda>i. \<not> live_status i) (st_instances d)\<rparr>) s)))
            (\<lambda>_ s. (spread result, s)))"

section \<open>Peers\<close>

record bulk_count =
  made :: int
  skipped :: int
  failed_users :: int

text \<open>
  The loop over the users; the query of every round flushes the rows that were added before it.
\<close>

fun bulk_loop :: "'w plugin \<Rightarrow> user_row list \<Rightarrow> bulk_count \<Rightarrow> ('w ctf, bulk_count) act" where
  "bulk_loop g [] n s = (Inr n, s)"
| "bulk_loop g (u # us) n s =
     and_then (flush s) (\<lambda>_ s.
       if live_peer_of (ur_id u) (now_db s) \<noteq> None then bulk_loop g us (n\<lparr>skipped := skipped n + 1\<rparr>) s
       else (case resolve_owner_for_user g (Some u) of
               None \<Rightarrow> bulk_loop g us (n\<lparr>skipped := skipped n + 1\<rparr>) s
             | Some ow \<Rightarrow>
                 ask_daemon (wg_ensure_peer (rpc g) (ur_id u) ow)
                   (\<lambda>_ s. bulk_loop g us (n\<lparr>failed_users := failed_users n + 1\<rparr>) s)
                   (\<lambda>j s. case peer_row (ur_id u) ow j of
                            Inl e \<Rightarrow> (Inl e, s)
                          | Inr p \<Rightarrow> bulk_loop g us (n\<lparr>made := made n + 1\<rparr>) (edit (add_peer_row p) s)) s))"

definition wg_bulk_generate :: "'w plugin \<Rightarrow> ('w ctf, response) act" where
  "wg_bulk_generate g s =
     and_then
       (bulk_loop g (filter (\<lambda>u. \<not> ur_banned u \<and> \<not> ur_hidden u) (st_users (now_db s)))
          \<lparr>made = 0, skipped = 0, failed_users = 0\<rparr> s)
       (\<lambda>n s. and_then (commit s) (\<lambda>_ s.
          (Inr (ok_json [(''created'', JInt (made n)), (''skipped'', JInt (skipped n)),
                         (''failed'', JInt (failed_users n))]), s)))"

definition revoke_row :: "int \<Rightarrow> site \<Rightarrow> site" where
  "revoke_row uid d =
     d\<lparr>st_peers := map (\<lambda>p. if ep_user p = uid \<and> \<not> ep_revoked p then p\<lparr>ep_revoked := True\<rparr> else p) (st_peers d)\<rparr>"

definition wg_revoke_peer :: "'w plugin \<Rightarrow> int \<Rightarrow> ('w ctf, response) act" where
  "wg_revoke_peer g uid s =
     (case live_peer_of uid (now_db s) of
        None \<Rightarrow> (Inr (fail_json 404 ''not_found'' []), s)
      | Some _ \<Rightarrow>
          ask_daemon (wg_remove_peer (rpc g) uid) admin_failed
            (\<lambda>_ s. and_then (commit (edit (revoke_row uid) s)) (\<lambda>_ s. (Inr (ok_json []), s))) s)"

section \<open>Audit log and health\<close>

definition audit_json :: "'w plugin \<Rightarrow> audit_row \<Rightarrow> json" where
  "audit_json g r =
     JObj [(''id'', JInt (au_id r)), (''ts'', JStr (isoformat g (au_ts r))), (''actor'', JStr (au_actor r)),
       (''event'', JStr (au_event r)), (''challenge_id'', opt_int (au_challenge r)),
       (''instance_id'', opt_int (au_instance r)), (''details'', opt_text (au_details r))]"

text \<open>The argument \<open>limit\<close> of the query string; a negative LIMIT is an error of the database.\<close>

definition audit_log :: "'w plugin \<Rightarrow> string option \<Rightarrow> site \<Rightarrow> exc + response" where
  "audit_log g arg d =
     sum_bind (case arg of None \<Rightarrow> Inr 100 | Some t \<Rightarrow> int_of_text t) (\<lambda>n.
       let limit = min n 1000 in
       if limit < 0 then Inl (ValueError ''LIMIT'')
       else Inr (ok_json [(''events'', JList (map (audit_json g)
              (take (nat limit) (sort_key (\<lambda>r. - au_ts r) (st_audit d)))))]))"

definition health :: "'w plugin \<Rightarrow> ('w ctf, response) act" where
  "health g =
     ask_daemon (rpc_ping (rpc g))
       (\<lambda>e s. (Inr (Answer 502 (JObj [(''success'', JBool False), (''daemon'', JStr ''down''), (''error'', JStr (exc_str e))])), s))
       (\<lambda>_ s. (Inr (ok_json [(''daemon'', JStr ''ok'')]), s))"

end
