(* ===== verification/Background_Jobs.thy ===== *)
theory Background_Jobs
  imports Admin_Api Lease
begin

text \<open>
  The jobs of \<open>scheduler.py\<close> behind the lease of \<open>Lease\<close>: the sweep of expired instances, the
  reconciliation with the daemon, and the wrapper that runs a job in a session of its own and logs
  whatever it raises. The leases are one more table, a map from lock names.
\<close>

section \<open>The sweep\<close>

definition expired_of :: "int \<Rightarrow> site \<Rightarrow> edo_instance list" where
  "expired_of now d = filter (\<lambda>i. ei_expires i \<le> now \<and> live_status i) (st_instances d)"

definition sweep_failed :: "'w plugin \<Rightarrow> edo_instance \<Rightarrow> exc \<Rightarrow> 'w ctf \<Rightarrow> 'w ctf" where
  "sweep_failed g i e s =
     audit g ''scheduler'' ''teardown_failed'' (Some i) (JObj [(''error'', JStr (exc_str e))])
       (edit (put_instance (i\<lparr>ei_status := ''error'', ei_error := Some (''teardown failed: '' @ exc_str e)\<rparr>)) s)"

definition sweep_one :: "'w plugin \<Rightarrow> edo_instance \<Rightarrow> ('w ctf, unit) act" where
  "sweep_one g i =
     ask_daemon (release_container g i)
       (\<lambda>e s. (Inr (), sweep_failed g i e s))
       (\<lambda>_ s. (Inr (), edit (delete_instance i) (audit g ''scheduler'' ''teardown_expired'' (Some i) JNull s)))"

fun sweep_loop :: "'w plugin \<Rightarrow> edo_instance list \<Rightarrow> ('w ctf, unit) act" where
  "sweep_loop g [] s = (Inr (), s)"
| "sweep_loop g (i # is) s = and_then (sweep_one g i s) (\<lambda>_ s. sweep_loop g is s)"

definition sweep_expired :: "'w plugin \<Rightarrow> ('w ctf, unit) act" where
  "sweep_expired g s =
     (let expired = expired_of (clock_now g s) (now_db s) in
      if expired = [] then (Inr (), s)
      else and_then (sweep_loop g expired s) (\<lambda>_ s. commit s))"

section \<open>Reconciliation\<close>

text \<open>
  \<open>{row["container_id"]: row for row in result.get("instances", [])}\<close>: a later row of a container
  replaces the value of an earlier one. Rows whose id is not a text are refused.
\<close>

fun live_rows :: "json list \<Rightarrow> (string \<times> json) list \<Rightarrow> exc + (string \<times> json) list" where
  "live_rows [] acc = Inr acc"
| "live_rows (r # rs) acc =
     sum_bind (sum_bind (param r ''container_id'') text_param) (\<lambda>cid. live_rows rs (AList.update cid r acc))"

definition live_of :: "json \<Rightarrow> exc + (string \<times> json) list" where
  "live_of result =
     sum_bind (obj_get result ''instances'' (JList [])) (\<lambda>v.
       case v of JList rs \<Rightarrow> live_rows rs [] | _ \<Rightarrow> Inl (TypeError ''not iterable''))"

definition in_docker :: "edo_instance \<Rightarrow> string option" where
  "in_docker i = (case ei_container i of None \<Rightarrow> None | Some cid \<Rightarrow> if cid = [] then None else Some cid)"

text \<open>One tracked row, whose container is known.\<close>

definition reconcile_known ::
  "'w plugin \<Rightarrow> (string \<times> json) list \<Rightarrow> edo_instance \<Rightarrow> string \<Rightarrow> ('w ctf, unit) act" where
  "reconcile_known g live i cid s =
     (let i' = i\<lparr>ei_reconciled := Some (clock_now g s)\<rparr>; s' = edit (put_instance i') s in
      case map_of live cid of
        None \<Rightarrow>
          (Inr (), edit (delete_instance i')
             (audit g ''reconciler'' ''orphan_detected'' (Some i') (JObj [(''container_id'', JStr cid)]) s'))
      | Some entry \<Rightarrow>
          (case obj_get entry ''status'' JNull of
             Inl e \<Rightarrow> (Inl e, s')
           | Inr st \<Rightarrow>
               if st = JStr ''running'' \<or> st = JStr ''created'' then (Inr (), s')
               else (Inr (), audit g ''reconciler'' ''container_stopped'' (Some i') (JObj [(''daemon_status'', st)])
                       (edit (put_instance (i'\<lparr>ei_status := ''stopped''\<rparr>)) s'))))"

fun reconcile_rows :: "'w plugin \<Rightarrow> (string \<times> json) list \<Rightarrow> edo_instance list \<Rightarrow> ('w ctf, unit) act" where
  "reconcile_rows g live [] s = (Inr (), s)"
| "reconcile_rows g live (i # is) s =
     (case in_docker i of
        None \<Rightarrow> reconcile_rows g live is s
      | Some cid \<Rightarrow> and_then (reconcile_known g live i cid s) (\<lambda>_ s. reconcile_rows g live is s))"

text \<open>Live containers that no row tracks are only noted in the audit log.\<close>

fun note_untracked :: "'w plugin \<Rightarrow> string list \<Rightarrow> (string \<times> json) list \<Rightarrow> ('w ctf, unit) act" where
  "note_untracked g tracked [] s = (Inr (), s)"
| "note_untracked g tracked ((cid, entry) # rows) s =
     (if cid \<in> set tracked then note_untracked g tracked rows s
      else (case obj_get entry ''challenge_ref'' JNull of
              Inl e \<Rightarrow> (Inl e, s)
            | Inr ref \<Rightarrow>
                note_untracked g tracked rows
                  (if truthy ref
                   then audit g ''reconciler'' ''untracked_container'' None
                          (JObj [(''container_id'', JStr cid), (''raw'', entry)]) s
                   else s)))"

definition reconcile_with :: "'w plugin \<Rightarrow> (string \<times> json) list \<Rightarrow> ('w ctf, unit) act" where
  "reconcile_with g live s =
     (let tracked = filter live_status (st_instances (now_db s)) in
      and_then (reconcile_rows g live tracked s) (\<lambda>_ s.
      and_then (note_untracked g (List.map_filter in_docker tracked) live s) (\<lambda>_ s. commit s)))"

definition reconcile_job :: "'w plugin \<Rightarrow> ('w ctf, unit) act" where
  "reconcile_job g =
     ask_daemon (container_reconcile (rpc g)) (\<lambda>_ s. (Inr (), s))
       (\<lambda>result s. case live_of result of Inl e \<Rightarrow> (Inl e, s) | Inr live \<Rightarrow> reconcile_with g live s)"

section \<open>Running a job\<close>

text \<open>
  The state of a worker's database with the leases. \<open>_run_with_app\<close>: the job runs when the lease
  is won, an exception of it is logged, and the session is removed in every case.
\<close>

record 'w site_state =
  site_of :: "'w ctf"
  leases :: "string \<Rightarrow> lease option"

definition run_job ::
  "'w plugin \<Rightarrow> string \<Rightarrow> string \<Rightarrow> int \<Rightarrow> ('w ctf, unit) act \<Rightarrow> 'w site_state \<Rightarrow> 'w site_state" where
  "run_job g worker lock_name lease_seconds job s =
     (case try_acquire_lease worker lock_name lease_seconds (clock_now g (site_of s)) (leases s) of
        (False, _) \<Rightarrow> s\<lparr>site_of := rollback (site_of s)\<rparr>
      | (True, table) \<Rightarrow> s\<lparr>site_of := snd (in_session job (site_of s)), leases := table\<rparr>)"

text \<open>The two jobs of \<open>start_scheduler\<close>, with the lease three times the interval of the settings.\<close>

definition SWEEP_LOCK :: string where
  "SWEEP_LOCK = ''edo.ttl_sweep''"

definition RECONCILE_LOCK :: string where
  "RECONCILE_LOCK = ''edo.reconcile''"

definition ttl_interval :: "site \<Rightarrow> int" where
  "ttl_interval d = setting_or ''ttl_check_interval_seconds'' DEFAULT_TTL_CHECK_INTERVAL_SECONDS d"

definition recon_interval :: "site \<Rightarrow> int" where
  "recon_interval d = setting_or ''reconcile_interval_seconds'' DEFAULT_RECONCILE_INTERVAL_SECONDS d"

definition sweep_tick :: "'w plugin \<Rightarrow> string \<Rightarrow> int \<Rightarrow> 'w site_state \<Rightarrow> 'w site_state" where
  "sweep_tick g worker interval = run_job g worker SWEEP_LOCK (interval * 3) (sweep_expired g)"

definition reconcile_tick :: "'w plugin \<Rightarrow> string \<Rightarrow> int \<Rightarrow> 'w site_state \<Rightarrow> 'w site_state" where
  "reconcile_tick g worker interval = run_job g worker RECONCILE_LOCK (interval * 3) (reconcile_job g)"


section \<open>Start-up of a worker\<close>

text \<open>
  \<open>start_scheduler\<close>, \<open>stop_scheduler\<close> and \<open>load\<close>: the scheduler of a process is started once, with the
  intervals that the settings hold at that moment. On the model \<open>load\<close> seeds the settings and starts
  it; what it does to the tables before, and what it registers, is in \<open>Plugin_Boot\<close>.
\<close>

record schedule =
  sweep_every :: int
  reconcile_every :: int

definition start_scheduler :: "schedule option \<Rightarrow> site \<Rightarrow> schedule option" where
  "start_scheduler running d =
     (case running of
        Some sch \<Rightarrow> Some sch
      | None \<Rightarrow> Some \<lparr>sweep_every = ttl_interval d, reconcile_every = recon_interval d\<rparr>)"

definition stop_scheduler :: "schedule option \<Rightarrow> schedule option" where
  "stop_scheduler running = None"

definition load_plugin :: "schedule option \<Rightarrow> ('w ctf, schedule option) act" where
  "load_plugin running s = and_then (seed_defaults s) (\<lambda>_ s. (Inr (start_scheduler running (now_db s)), s))"

end
