(* ===== verification/Plugin_Laws.thy ===== *)
theory Plugin_Laws
  imports Background_Jobs
begin

text \<open>
  What every route and every job of the plugin keeps. \<open>kept P R r\<close>: the property \<open>P\<close> of the database
  holds of the session and of what is committed after \<open>r\<close>, whether it answered or raised, and what
  is committed satisfies the constraints; the rules
  in \<open>site_keeps\<close> derive it statement by statement. The locale \<open>site_edits\<close> lists the edits that the
  code makes, and \<open>site_law\<close> adds what the calls of the daemon keep; a property that these keep is
  kept by every route, every job and every run.
\<close>

section \<open>Statements that keep a property\<close>

definition sound :: "(site \<Rightarrow> bool) \<Rightarrow> ('w \<Rightarrow> bool) \<Rightarrow> 'w ctf \<Rightarrow> bool" where
  "sound P R s \<longleftrightarrow> P (now_db s) \<and> P (saved_db s) \<and> constraints_ok (saved_db s) \<and> R (remote s)"

definition kept :: "(site \<Rightarrow> bool) \<Rightarrow> ('w \<Rightarrow> bool) \<Rightarrow> 'a \<times> 'w ctf \<Rightarrow> bool" where
  "kept P R r \<longleftrightarrow> sound P R (snd r)"

named_theorems site_keeps \<open>rules for \<open>kept\<close>\<close>

lemma kept_ret [site_keeps]: "sound P R s \<Longrightarrow> kept P R (r, s)"
  by (simp add: kept_def)

lemma kept_and_then [site_keeps]:
  "kept P R r \<Longrightarrow> (\<And>x s. sound P R s \<Longrightarrow> kept P R (f x s)) \<Longrightarrow> kept P R (and_then r f)"
  by (cases r; cases "fst r") (auto simp: kept_def)

lemma kept_if [site_keeps]: "(b \<Longrightarrow> kept P R x) \<Longrightarrow> (\<not> b \<Longrightarrow> kept P R y) \<Longrightarrow> kept P R (if b then x else y)"
  by simp

lemma kept_option [site_keeps]:
  "(x = None \<Longrightarrow> kept P R a) \<Longrightarrow> (\<And>y. x = Some y \<Longrightarrow> kept P R (b y)) \<Longrightarrow>
   kept P R (case x of None \<Rightarrow> a | Some y \<Rightarrow> b y)"
  by (cases x) simp_all

lemma kept_sum [site_keeps]:
  "(\<And>e. x = Inl e \<Longrightarrow> kept P R (a e)) \<Longrightarrow> (\<And>y. x = Inr y \<Longrightarrow> kept P R (b y)) \<Longrightarrow>
   kept P R (case x of Inl e \<Rightarrow> a e | Inr y \<Rightarrow> b y)"
  by (cases x) simp_all

lemma kept_let [site_keeps]: "(\<And>x. x = t \<Longrightarrow> kept P R (f x)) \<Longrightarrow> kept P R (Let t f)"
  by simp

lemma kept_flush [site_keeps]: "sound P R s \<Longrightarrow> kept P R (flush s)"
  by (simp add: kept_def flush_def)

lemma kept_commit [site_keeps]: "sound P R s \<Longrightarrow> kept P R (commit s)"
  by (simp add: kept_def commit_def flush_def sound_def)

lemma kept_ask [site_keeps]:
  "sound P R s \<Longrightarrow> (\<And>w. R w \<Longrightarrow> R (snd (call w))) \<Longrightarrow> (\<And>e s. sound P R s \<Longrightarrow> kept P R (failed e s)) \<Longrightarrow> (\<And>j s. sound P R s \<Longrightarrow> kept P R (next_step j s)) \<Longrightarrow>
   kept P R (ask_daemon call failed next_step s)"
  by (fastforce simp: ask_daemon_def remotely_def kept_def sound_def split: prod.splits sum.splits)

lemma sound_edit: "P (f (now_db s)) \<Longrightarrow> sound P R s \<Longrightarrow> sound P R (edit f s)"
  by (simp add: sound_def edit_def)

lemma sound_rollback: "sound P R s \<Longrightarrow> sound P R (rollback s)"
  by (simp add: sound_def rollback_def)

lemma sound_limits: "sound P R s \<Longrightarrow> sound P R (s\<lparr>limits := b\<rparr>)"
  by (simp add: sound_def)

lemma soundD: "sound P R s \<Longrightarrow> P (now_db s)"
  by (simp add: sound_def)

lemma kept_session: "kept P R (f s) \<Longrightarrow> sound P R (snd (in_session f s))"
  by (cases "f s") (simp add: kept_def in_session_def sound_rollback)

section \<open>The edits of the code\<close>

text \<open>
  The contract of a property of the database: each edit that a route or a job makes keeps it, under
  what the code has checked when it makes the edit.
\<close>

locale site_edits =
  fixes P :: "site \<Rightarrow> bool"
  assumes settings: "P d \<Longrightarrow> P (put_setting k t d)"
    and seeded: "P d \<Longrightarrow> P (d\<lparr>st_settings := st_settings d @ [(k, Some v)]\<rparr>)"
    and audited: "P d \<Longrightarrow> P (d\<lparr>st_audit := as, st_next := st_next d + 1\<rparr>)"
    and created: "P d \<Longrightarrow> cg_id c = st_next d \<Longrightarrow>
      P (d\<lparr>st_challenges := st_challenges d @ [c], st_next := st_next d + 1\<rparr>)"
    and updated: "P d \<Longrightarrow> map cg_id cs = map cg_id (st_challenges d) \<Longrightarrow> P (d\<lparr>st_challenges := cs\<rparr>)"
    and cascaded: "P d \<Longrightarrow> P (cascade_delete cid d)"
    and found: "P d \<Longrightarrow> f \<in> set (flags_of cid d) \<Longrightarrow> \<not> has_find ow (fl_id f) d \<Longrightarrow> P (add_find cid ow (fl_id f) d)"
    and solved: "P d \<Longrightarrow> P (d\<lparr>st_solves := rs\<rparr>)"
    and failed: "P d \<Longrightarrow> P (d\<lparr>st_fails := rs\<rparr>)"
    and reserved: "P d \<Longrightarrow> P (d\<lparr>st_instances := st_instances d @ [new_row (st_next d) cid ow n x], st_next := st_next d + 1\<rparr>)"
    and deleted: "P d \<Longrightarrow> P (d\<lparr>st_instances := filter q (st_instances d)\<rparr>)"
    and replaced: "P d \<Longrightarrow> P (put_instance i d)"
    and peer_rows: "P d \<Longrightarrow> P (d\<lparr>st_peers := ps\<rparr>)"
    and weighted: "P d \<Longrightarrow> 0 \<le> n \<Longrightarrow> n \<le> 100 \<Longrightarrow> P (put_weight fid n d)"
    and reset: "P d \<Longrightarrow> P (reset_progress cid ow d)"

text \<open>
  With a property \<open>R\<close> of the world outside that every call of the daemon keeps, it is a property of
  the whole state.
\<close>

locale site_law = site_edits P for P +
  fixes R :: "'w \<Rightarrow> bool" and g :: "'w plugin"
  assumes called: "R w \<Longrightarrow> R (snd (rpc_call (rpc g) method params w))"
begin

lemma calls_kept:
  "R w \<Longrightarrow> R (snd (wg_ensure_peer (rpc g) u ow w))" "R w \<Longrightarrow> R (snd (wg_remove_peer (rpc g) u w))"
  "R w \<Longrightarrow> R (snd (wg_render_config (rpc g) u w))" "R w \<Longrightarrow> R (snd (rpc_kill_switch (rpc g) w))"
  "R w \<Longrightarrow> R (snd (container_ensure_instance (rpc g) ow c path sec ttl pub w))"
  "R w \<Longrightarrow> R (snd (container_reconcile (rpc g) w))" "R w \<Longrightarrow> R (snd (release_container g i w))"
  by (simp_all add: wg_ensure_peer_def wg_remove_peer_def wg_render_config_def rpc_kill_switch_def release_container_def
      container_ensure_instance_def container_reconcile_def container_release_instance_def called split: option.split)

lemma audit_kept: "sound P R s \<Longrightarrow> sound P R (audit g actor ev inst details s)"
  unfolding audit_def by (rule sound_edit) (simp_all add: audit_entry_def audited soundD)

lemma audit_note_kept: "sound P R s \<Longrightarrow> sound P R (audit_note g ev cid details s)"
  unfolding audit_note_def by (rule sound_edit) (simp_all add: audited soundD)

lemma delete_kept: "sound P R s \<Longrightarrow> sound P R (edit (delete_instance i) s)"
  by (rule sound_edit) (simp_all add: delete_instance_def deleted soundD)

lemma put_kept: "sound P R s \<Longrightarrow> sound P R (edit (put_instance i) s)"
  by (rule sound_edit) (simp_all add: replaced soundD)

lemma peer_kept: "sound P R s \<Longrightarrow> sound P R (edit (add_peer_row p) s)"
  by (rule sound_edit) (simp_all add: add_peer_row_def peer_rows soundD)

lemmas edits_kept = calls_kept audit_kept audit_note_kept delete_kept put_kept peer_kept sound_limits

section \<open>Participants\<close>

lemma forget_kept: "sound P R s \<Longrightarrow> kept P R (forget_instance g actor ev i s)"
  unfolding forget_instance_def by (intro site_keeps edits_kept)

lemma teardown_kept: "sound P R s \<Longrightarrow> kept P R (teardown_route g k ow s)"
  unfolding teardown_route_def by (intro site_keeps edits_kept forget_kept)

lemma extend_kept: "sound P R s \<Longrightarrow> kept P R (extend_route g k ow s)"
  unfolding extend_route_def by (intro site_keeps edits_kept)

lemma config_kept: "sound P R s \<Longrightarrow> kept P R (download_config g uid ow s)"
proof -
  have send: "sound P R s \<Longrightarrow> kept P R (send_config g uid s)" for s
    unfolding send_config_def daemon_failed_def by (intro site_keeps edits_kept)
  show "sound P R s \<Longrightarrow> kept P R (download_config g uid ow s)"
    unfolding download_config_def daemon_failed_def by (intro site_keeps edits_kept send)
qed

lemma reserve_kept:
  assumes "sound P R s" "i = new_row (st_next (now_db s)) cid ow c x"
  shows "kept P R (reserve i s)"
proof -
  have "sound P R (edit (\<lambda>d. d\<lparr>st_instances := st_instances d @ [i], st_next := st_next d + 1\<rparr>) s)"
    using assms by (intro sound_edit) (simp_all add: reserved soundD)
  then have "kept P R (commit (edit (\<lambda>d. d\<lparr>st_instances := st_instances d @ [i], st_next := st_next d + 1\<rparr>) s))"
    by (rule kept_commit)
  then show ?thesis
    by (auto simp: reserve_def kept_def sound_rollback Let_def split: prod.splits sum.splits option.splits)
qed

lemma spawn_kept: "sound P R s \<Longrightarrow> kept P R (spawn_route g cid ow s)"
proof -
  assume s: "sound P R s"
  have fin: "sound P R s \<Longrightarrow> kept P R (spawn_done g i result s)" for i result s
    unfolding spawn_done_def by (intro site_keeps edits_kept)
  have bad: "sound P R s \<Longrightarrow> kept P R (spawn_failed_answer g i e s)" for i e s
    unfolding spawn_failed_answer_def by (intro site_keeps edits_kept)
  have "kept P R (spawn_row g c ow ttl (new_row (st_next (now_db s)) cid ow n x) s)" for c ttl n x
  proof -
    obtain r s' where r: "reserve (new_row (st_next (now_db s)) cid ow n x) s = (r, s')" by fastforce
    then have "sound P R s'" using reserve_kept[OF s refl, of cid ow n x] by (simp add: kept_def)
    then show ?thesis
      unfolding spawn_row_def r
      by (auto simp: kept_ret split: sum.splits json.splits intro!: kept_ask fin bad calls_kept)
  qed
  then show ?thesis unfolding spawn_route_def by (intro site_keeps s)
qed

lemma solve_kept: "sound P R s \<Longrightarrow> kept P R (insert_solve cid user team sub ip s)"
  unfolding insert_solve_def by (intro site_keeps sound_edit) (simp_all add: solved soundD)

lemma fail_kept: "sound P R s \<Longrightarrow> kept P R (insert_fail cid user team sub ip s)"
  unfolding insert_fail_def by (intro site_keeps sound_edit) (simp_all add: failed soundD)

lemma find_kept: "sound P R s \<Longrightarrow> kept P R (record_flag_find g cid user team sub s)"
  unfolding record_flag_find_def
  by (intro site_keeps sound_edit found) (auto simp: first_matching_flag_def soundD dest: find_Some_in)

lemma submit_kept: "sound P R s \<Longrightarrow> kept P R (submit_route g fl cid rq ow s)"
proof -
  assume s: "sound P R s"
  have judge: "sound P R s \<Longrightarrow> kept P R (judge_flag g fl c ow user team sub ip s)" for c user team sub ip s
    unfolding judge_flag_def credit_flag_def finish_find_def
    by (intro site_keeps find_kept solve_kept fail_kept)
  have checked: "sound P R s \<Longrightarrow> kept P R (submit_checked g fl c ow rq s)" for c s
    unfolding submit_checked_def by (intro site_keeps judge)
  show ?thesis
    unfolding submit_route_def
    by (auto simp: kept_ret s Let_def split: option.splits prod.splits sum.splits intro!: checked sound_limits kept_ret)
qed

lemma solve_native_kept: "sound P R s \<Longrightarrow> kept P R (solve_native g user team cid rq s)"
  unfolding solve_native_def by (intro site_keeps find_kept solve_kept)

lemma fail_native_kept: "sound P R s \<Longrightarrow> kept P R (fail_native user team cid rq s)"
  unfolding fail_native_def by (intro site_keeps fail_kept)

lemma challenge_kept:
  "sound P R s \<Longrightarrow> kept P R (create_challenge g rq s)"
  "sound P R s \<Longrightarrow> kept P R (update_challenge g cid rq s)"
  "sound P R s \<Longrightarrow> kept P R (delete_challenge cid s)"
  unfolding create_challenge_def update_challenge_def delete_challenge_def
  by (intro site_keeps sound_edit; simp add: created cascaded soundD set_cols_def updated comp_def if_distrib cong: if_cong)+

section \<open>Administrators\<close>

lemma settings_kept: "sound P R s \<Longrightarrow> kept P R (settings_save g rq s)"
proof -
  have loop: "sound P R s \<Longrightarrow> kept P R (save_loop g kvs s)" for kvs s
  proof (induction kvs arbitrary: s)
    case (Cons kv kvs)
    obtain k v where "kv = (k, v)" by (cases kv)
    then show ?case
      using Cons by (auto simp: set_setting_def settings soundD intro!: site_keeps sound_edit)
  qed (simp add: kept_ret)
  show "sound P R s \<Longrightarrow> kept P R (settings_save g rq s)"
    unfolding settings_save_def by (intro site_keeps loop)
qed

lemma seed_kept: "sound P R s \<Longrightarrow> kept P R (seed_defaults s)"
proof -
  have "P d \<Longrightarrow> P (seed_loop kvs d)" for kvs d
    by (induction kvs d rule: seed_loop.induct) (simp_all add: seeded)
  then show "sound P R s \<Longrightarrow> kept P R (seed_defaults s)"
    unfolding seed_defaults_def by (intro site_keeps sound_edit) (simp_all add: soundD)
qed

lemma load_kept: "sound P R s \<Longrightarrow> kept P R (load_plugin running s)"
  unfolding load_plugin_def by (intro site_keeps seed_kept)

lemma weight_kept: "sound P R s \<Longrightarrow> kept P R (set_flag_weight g fid rq s)"
  unfolding set_flag_weight_def
  by (auto simp: kept_ret weighted soundD split: option.splits sum.splits json.splits intro!: kept_and_then kept_commit sound_edit)

lemma reset_kept: "sound P R s \<Longrightarrow> kept P R (reset_owner_progress g cid ow s)"
  unfolding reset_owner_progress_def by (intro site_keeps edits_kept sound_edit) (simp_all add: reset soundD)

lemma force_kept: "sound P R s \<Longrightarrow> kept P R (force_teardown g k s)"
  unfolding force_teardown_def admin_failed_def by (intro site_keeps edits_kept forget_kept)

lemma kill_kept: "sound P R s \<Longrightarrow> kept P R (kill_switch_route g s)"
  unfolding kill_switch_route_def admin_failed_def
  by (intro site_keeps edits_kept sound_edit) (simp_all add: deleted soundD)

lemma bulk_kept: "sound P R s \<Longrightarrow> kept P R (wg_bulk_generate g s)"
proof -
  have loop: "sound P R s \<Longrightarrow> kept P R (bulk_loop g us n s)" for us n s
  proof (induction us arbitrary: n s)
    case (Cons u us)
    then show ?case unfolding bulk_loop.simps by (intro site_keeps edits_kept Cons.IH)
  qed (simp add: kept_ret)
  show "sound P R s \<Longrightarrow> kept P R (wg_bulk_generate g s)"
    unfolding wg_bulk_generate_def by (intro site_keeps loop)
qed

lemma revoke_kept: "sound P R s \<Longrightarrow> kept P R (wg_revoke_peer g uid s)"
  unfolding wg_revoke_peer_def admin_failed_def
  by (intro site_keeps calls_kept sound_edit) (simp_all add: revoke_row_def peer_rows soundD)

section \<open>Jobs\<close>

lemma sweep_kept: "sound P R s \<Longrightarrow> kept P R (sweep_expired g s)"
proof -
  have one: "sound P R s \<Longrightarrow> kept P R (sweep_one g i s)" for i s
    unfolding sweep_one_def sweep_failed_def by (intro site_keeps edits_kept)
  have loop: "sound P R s \<Longrightarrow> kept P R (sweep_loop g is s)" for "is" s
    by (induction "is" arbitrary: s) (auto intro!: site_keeps one)
  show "sound P R s \<Longrightarrow> kept P R (sweep_expired g s)"
    unfolding sweep_expired_def by (intro site_keeps loop)
qed

lemma reconcile_kept: "sound P R s \<Longrightarrow> kept P R (reconcile_job g s)"
proof -
  have known: "sound P R s \<Longrightarrow> kept P R (reconcile_known g live i cid s)" for live i cid s
    unfolding reconcile_known_def Let_def by (intro site_keeps edits_kept)
  have rows: "sound P R s \<Longrightarrow> kept P R (reconcile_rows g live is s)" for live "is" s
  proof (induction "is" arbitrary: s)
    case (Cons i "is")
    then show ?case unfolding reconcile_rows.simps by (intro site_keeps known Cons.IH)
  qed (simp add: kept_ret)
  have untracked: "sound P R s \<Longrightarrow> kept P R (note_untracked g tracked live s)" for tracked live s
  proof (induction live arbitrary: s)
    case (Cons e live)
    then show ?case by (cases e) (auto simp: kept_ret audit_kept split: sum.split)
  qed (simp add: kept_ret)
  show "sound P R s \<Longrightarrow> kept P R (reconcile_job g s)"
    unfolding reconcile_job_def reconcile_with_def by (intro site_keeps calls_kept rows untracked)
qed

end

end
