(* ===== verification/Plugin_System.thy ===== *)
theory Plugin_System
  imports Plugin_Laws
begin

text \<open>
  The plugin as a whole: the routes and jobs as actions on the state of a site, in any order, with
  what CTFd does to its own tables in between. The invariant of its records is an interpretation
  of \<open>site_law\<close>; rule induction carries it over every run.
\<close>

section \<open>The invariant\<close>

definition ids_ok :: "site \<Rightarrow> bool" where
  "ids_ok d \<longleftrightarrow> distinct (map ei_id (st_instances d)) \<and> (\<forall>i \<in> set (st_instances d). ei_id i < st_next d)"

definition weights_ok :: "site \<Rightarrow> bool" where
  "weights_ok d \<longleftrightarrow> (\<forall>w \<in> set (st_weights d). 0 \<le> fw_pct w \<and> fw_pct w \<le> 100)"

definition finds_ok :: "site \<Rightarrow> bool" where
  "finds_ok d \<longleftrightarrow> distinct (map fl_id (st_flags d)) \<and>
     (\<forall>f \<in> set (st_finds d). \<exists>r \<in> set (st_flags d). fl_id r = fs_flag f \<and> fl_challenge r = fs_challenge f)"

definition records_ok :: "site \<Rightarrow> bool" where
  "records_ok d \<longleftrightarrow> ids_ok d \<and> weights_ok d \<and> finds_ok d"

lemma ids_ok_alt:
  "ids_ok d \<longleftrightarrow> distinct (map ei_id (st_instances d)) \<and> (\<forall>k \<in> set (map ei_id (st_instances d)). k < st_next d)"
  by (simp add: ids_ok_def)

lemma ids_put: "ids_ok d \<Longrightarrow> ids_ok (put_instance i d)"
proof -
  have "map ei_id (st_instances (put_instance i d)) = map ei_id (st_instances d)"
    by (simp add: put_instance_def comp_def if_distrib cong: if_cong)
  moreover have "st_next (put_instance i d) = st_next d" by (simp add: put_instance_def)
  ultimately show "ids_ok d \<Longrightarrow> ids_ok (put_instance i d)" unfolding ids_ok_alt by metis
qed

lemma weights_put: "weights_ok d \<Longrightarrow> 0 \<le> n \<Longrightarrow> n \<le> 100 \<Longrightarrow> weights_ok (put_weight fid n d)"
  by (auto simp: weights_ok_def put_weight_def)

interpretation records: site_edits records_ok
proof
  fix d :: site and as c cs cid f ow rs n x q i ps fid k t
  assume d: "records_ok d"
  show "records_ok (put_setting k t d)" "records_ok (d\<lparr>st_settings := st_settings d @ [(k, Some t)]\<rparr>)"
    "records_ok (d\<lparr>st_audit := as, st_next := st_next d + 1\<rparr>)" "records_ok (d\<lparr>st_challenges := cs\<rparr>)"
    "records_ok (d\<lparr>st_challenges := st_challenges d @ [c], st_next := st_next d + 1\<rparr>)"
    "records_ok (d\<lparr>st_solves := rs\<rparr>)" "records_ok (d\<lparr>st_fails := rs\<rparr>)" "records_ok (d\<lparr>st_peers := ps\<rparr>)"
    using d by (force simp: records_ok_def ids_ok_def weights_ok_def finds_ok_def put_setting_def)+
  show "records_ok (cascade_delete cid d)"
    using d unfolding records_ok_def ids_ok_def weights_ok_def finds_ok_def cascade_delete_def Let_def
    by (auto simp: map_filter_distinct) metis
  show "f \<in> set (flags_of cid d) \<Longrightarrow> records_ok (add_find cid ow (fl_id f) d)"
    using d by (auto simp: records_ok_def ids_ok_def weights_ok_def finds_ok_def add_find_def flags_of_def)
  show "records_ok (d\<lparr>st_instances := st_instances d @ [new_row (st_next d) cid ow n x], st_next := st_next d + 1\<rparr>)"
    using d by (force simp: records_ok_def ids_ok_def weights_ok_def finds_ok_def new_row_def)
  show "records_ok (d\<lparr>st_instances := filter q (st_instances d)\<rparr>)"
    using d by (auto simp: records_ok_def ids_ok_def weights_ok_def finds_ok_def map_filter_distinct)
  show "records_ok (put_instance i d)"
    using d ids_put[of d i] by (auto simp: records_ok_def weights_ok_def finds_ok_def put_instance_def)
  show "0 \<le> n \<Longrightarrow> n \<le> 100 \<Longrightarrow> records_ok (put_weight fid n d)"
    using d weights_put[of d n fid] by (auto simp: records_ok_def ids_ok_def finds_ok_def put_weight_def)
  show "records_ok (reset_progress cid ow d)"
    using d by (auto simp: records_ok_def ids_ok_def weights_ok_def finds_ok_def reset_progress_def)
qed

text \<open>Nothing is asked of the world outside.\<close>

interpretation anywhere: site_law records_ok "\<lambda>_. True" g for g :: "'w plugin"
  by unfold_locales simp

section \<open>Actions\<close>

text \<open>
  A request of a participant passes \<open>owner_required\<close>; those of the administrators and the native
  endpoints are CTFd's to guard.
\<close>

datatype action =
    Spawn request int
  | Teardown request int
  | Extend request int
  | Get_config request
  | Submit request int
  | Native_solve request user_row int
  | Native_fail request user_row int
  | Create_challenge request
  | Update_challenge request int
  | Delete_challenge int
  | Save_settings request
  | Set_weight request int
  | Reset_progress int owner
  | Force_teardown int
  | Kill_switch
  | Bulk_generate
  | Revoke_peer int

text \<open>What the action does to the database, as a request in a session of its own.\<close>

fun perform :: "'w plugin \<Rightarrow> (rat \<Rightarrow> rat) \<Rightarrow> action \<Rightarrow> 'w ctf \<Rightarrow> 'w ctf" where
  "perform g fl (Spawn rq cid) s = snd (in_session (owner_required g rq (spawn_route g cid)) s)"
| "perform g fl (Teardown rq k) s = snd (in_session (owner_required g rq (teardown_route g k)) s)"
| "perform g fl (Extend rq k) s = snd (in_session (owner_required g rq (extend_route g k)) s)"
| "perform g fl (Get_config rq) s =
     (case current_user_id rq of
        None \<Rightarrow> s
      | Some uid \<Rightarrow> snd (in_session (owner_required g rq (download_config g uid)) s))"
| "perform g fl (Submit rq cid) s = snd (in_session (owner_required g rq (submit_route g fl cid rq)) s)"
| "perform g fl (Native_solve rq user cid) s = snd (in_session (solve_native g user (rq_team rq) cid rq) s)"
| "perform g fl (Native_fail rq user cid) s = snd (in_session (fail_native user (rq_team rq) cid rq) s)"
| "perform g fl (Create_challenge rq) s = snd (in_session (create_challenge g rq) s)"
| "perform g fl (Update_challenge rq cid) s = snd (in_session (update_challenge g cid rq) s)"
| "perform g fl (Delete_challenge cid) s = snd (in_session (delete_challenge cid) s)"
| "perform g fl (Save_settings rq) s = snd (in_session (settings_save g rq) s)"
| "perform g fl (Set_weight rq fid) s = snd (in_session (set_flag_weight g fid rq) s)"
| "perform g fl (Reset_progress cid ow) s = snd (in_session (reset_owner_progress g cid ow) s)"
| "perform g fl (Force_teardown k) s = snd (in_session (force_teardown g k) s)"
| "perform g fl Kill_switch s = snd (in_session (kill_switch_route g) s)"
| "perform g fl Bulk_generate s = snd (in_session (wg_bulk_generate g) s)"
| "perform g fl (Revoke_peer uid) s = snd (in_session (wg_revoke_peer g uid) s)"

text \<open>
  A step of the site: a worker that starts, a request, a tick of a job, or an edit by CTFd and its
  users of CTFd's own tables, which keeps the invariant of the flags and takes with it, by the
  cascades of the foreign keys, rows of the plugin that belong to a deleted user or flag. The
  world outside (time, the daemon, the machine) may change at any moment, as \<open>drift\<close> allows.
\<close>

definition core_edit :: "site \<Rightarrow> site \<Rightarrow> bool" where
  "core_edit d d' \<longleftrightarrow>
     (\<exists>qw qf qp. d' = d\<lparr>st_users := st_users d', st_teams := st_teams d', st_flags := st_flags d', st_solves := st_solves d',
            st_fails := st_fails d', st_weights := filter qw (st_weights d), st_finds := filter qf (st_finds d),
            st_peers := filter qp (st_peers d)\<rparr>) \<and> (finds_ok d \<longrightarrow> finds_ok d')"

inductive site_step ::
  "'w plugin \<Rightarrow> (rat \<Rightarrow> rat) \<Rightarrow> ('w \<Rightarrow> 'w \<Rightarrow> bool) \<Rightarrow> 'w site_state \<Rightarrow> 'w site_state \<Rightarrow> bool"
  for g :: "'w plugin" and fl :: "rat \<Rightarrow> rat" and drift :: "'w \<Rightarrow> 'w \<Rightarrow> bool" where
  started: "site_step g fl drift s (s\<lparr>site_of := snd (in_session (load_plugin running) (site_of s))\<rparr>)"
| request: "site_step g fl drift s (s\<lparr>site_of := perform g fl a (site_of s)\<rparr>)"
| sweep: "site_step g fl drift s (sweep_tick g worker n s)"
| reconcile: "site_step g fl drift s (reconcile_tick g worker n s)"
| elsewhere: "core_edit (saved_db (site_of s)) d \<Longrightarrow>
     site_step g fl drift s (s\<lparr>site_of := (site_of s)\<lparr>now_db := d, saved_db := d\<rparr>\<rparr>)"
| outside: "drift (remote (site_of s)) w \<Longrightarrow> site_step g fl drift s (s\<lparr>site_of := (site_of s)\<lparr>remote := w\<rparr>\<rparr>)"

inductive_cases site_step_cases: "site_step g fl drift s s'"

definition site_runs ::
  "'w plugin \<Rightarrow> (rat \<Rightarrow> rat) \<Rightarrow> ('w \<Rightarrow> 'w \<Rightarrow> bool) \<Rightarrow> 'w site_state \<Rightarrow> 'w site_state \<Rightarrow> bool" where
  "site_runs g fl drift = (site_step g fl drift)\<^sup>*\<^sup>*"

section \<open>What every action keeps\<close>

context site_law
begin

lemma owner_required_kept:
  "sound P R s \<Longrightarrow> (\<And>ow s. sound P R s \<Longrightarrow> kept P R (fn ow s)) \<Longrightarrow> kept P R (owner_required g rq fn s)"
  unfolding owner_required_cases by (intro site_keeps)

lemma perform_kept: "sound P R s \<Longrightarrow> sound P R (perform g fl a s)"
  by (cases a)
    (auto split: option.split
      intro!: kept_session owner_required_kept spawn_kept teardown_kept extend_kept config_kept submit_kept
        solve_native_kept fail_native_kept challenge_kept settings_kept weight_kept reset_kept force_kept kill_kept
        bulk_kept revoke_kept)

lemma job_kept:
  assumes "\<And>s. sound P R s \<Longrightarrow> kept P R (job s)" "sound P R (site_of s)"
  shows "sound P R (site_of (run_job g worker name n job s))"
  using kept_session[of P R job, OF assms(1)[OF assms(2)]] sound_rollback[OF assms(2)]
  by (auto simp: run_job_def split: prod.splits bool.splits)

lemma step_kept:
  assumes "site_step g fl drift s s'" "sound P R (site_of s)"
    and "\<And>d. core_edit (saved_db (site_of s)) d \<Longrightarrow> P (saved_db (site_of s)) \<Longrightarrow> P d \<and> constraints_ok d"
    and "\<And>w w'. drift w w' \<Longrightarrow> R w \<Longrightarrow> R w'"
  shows "sound P R (site_of s')"
  using assms(1)
proof cases
  case (started running)
  then show ?thesis using kept_session[of P R "load_plugin running", OF load_kept[OF assms(2)]] by simp
next
  case (request a)
  then show ?thesis by (simp add: perform_kept assms(2))
next
  case (sweep worker n)
  then show ?thesis by (simp add: sweep_tick_def job_kept sweep_kept assms(2))
next
  case (reconcile worker n)
  then show ?thesis by (simp add: reconcile_tick_def job_kept reconcile_kept assms(2))
qed (use assms(2-4) in \<open>auto simp: sound_def\<close>)

end

lemma core_edit_tables:
  assumes "core_edit d d'"
  shows "st_instances d' = st_instances d" "set (st_weights d') \<subseteq> set (st_weights d)" "st_next d' = st_next d"
    "constraints_ok d \<Longrightarrow> constraints_ok d'"
proof -
  obtain qw qf qp where eq: "d' = d\<lparr>st_users := st_users d', st_teams := st_teams d', st_flags := st_flags d', st_solves := st_solves d',
      st_fails := st_fails d', st_weights := filter qw (st_weights d), st_finds := filter qf (st_finds d),
      st_peers := filter qp (st_peers d)\<rparr>"
    using assms by (auto simp: core_edit_def)
  show "st_instances d' = st_instances d" "st_next d' = st_next d" by (subst eq, simp)+
  have "st_weights d' = filter qw (st_weights d)" by (subst eq) simp
  then show "set (st_weights d') \<subseteq> set (st_weights d)" by auto
  show "constraints_ok d'" if "constraints_ok d"
    using that
    by (subst eq) (simp add: constraints_ok_def instances_unique_def peers_unique_def challenges_filled_def map_filter_distinct)
qed

lemma core_edit_records: "core_edit d d' \<Longrightarrow> records_ok d \<Longrightarrow> records_ok d'"
  using core_edit_tables[of d d'] by (auto simp: records_ok_def ids_ok_def weights_ok_def core_edit_def)

text \<open>Between the requests the session holds what is committed, and that satisfies the constraints.\<close>

definition settled :: "'w ctf \<Rightarrow> bool" where
  "settled s \<longleftrightarrow> now_db s = saved_db s \<and> constraints_ok (saved_db s) \<and> records_ok (saved_db s)"

lemma settled_iff: "settled s \<longleftrightarrow> now_db s = saved_db s \<and> sound records_ok (\<lambda>_. True) s"
  by (auto simp: settled_def sound_def)

lemma session_ends: "now_db (snd (in_session f s)) = saved_db (snd (in_session f s))"
  by (cases "f s") (simp add: in_session_def rollback_def)

lemma perform_ends: "now_db s = saved_db s \<Longrightarrow> now_db (perform g fl a s) = saved_db (perform g fl a s)"
  by (cases a) (simp_all add: session_ends split: option.split)

lemma job_ends: "now_db (site_of (run_job g w name n job s)) = saved_db (site_of (run_job g w name n job s))"
  using session_ends[of job "site_of s"] by (auto simp: run_job_def rollback_def split: prod.split bool.split)

lemma settled_step:
  assumes "site_step g fl drift s s'" "settled (site_of s)"
  shows "settled (site_of s')"
proof -
  have "sound records_ok (\<lambda>_. True) (site_of s')"
    using assms(2) core_edit_records core_edit_tables(4)
    by (intro anywhere.step_kept[OF assms(1)]) (auto simp: settled_iff sound_def)
  moreover have "now_db (site_of s') = saved_db (site_of s')"
    using assms by cases (simp_all add: session_ends perform_ends job_ends sweep_tick_def reconcile_tick_def settled_def)
  ultimately show ?thesis by (simp add: settled_iff)
qed

lemma settled_runs: "site_runs g fl drift s s' \<Longrightarrow> settled (site_of s) \<Longrightarrow> settled (site_of s')"
  unfolding site_runs_def by (induction rule: rtranclp_induct) (simp_all add: settled_step)

end
