(* ===== verification/Scoring_Laws.thy ===== *)
theory Scoring_Laws
  imports Plugin_System Daemon_Calculus
begin

text \<open>
  Flags, progress and points: what an owner has found, when a challenge counts as complete, when
  the row that CTFd's scoreboard reads is inserted, and the values and percentages shown.
\<close>

section \<open>Rounding\<close>

text \<open>
  What the code relies on of float arithmetic: the rounding of a real to a float is monotone and
  leaves the integers up to \<open>2\<^sup>53\<close> alone.
\<close>

definition float_rounding :: "(rat \<Rightarrow> rat) \<Rightarrow> bool" where
  "float_rounding fl \<longleftrightarrow> (\<forall>x y. x \<le> y \<longrightarrow> fl x \<le> fl y) \<and> (\<forall>n::int. \<bar>n\<bar> \<le> 9007199254740992 \<longrightarrow> fl (of_int n) = of_int n)"

lemma float_mono: "float_rounding fl \<Longrightarrow> x \<le> y \<Longrightarrow> fl x \<le> fl y"
  by (simp add: float_rounding_def)

lemma float_int: "float_rounding fl \<Longrightarrow> \<bar>n\<bar> \<le> 9007199254740992 \<Longrightarrow> fl (of_int n) = of_int n"
  by (simp add: float_rounding_def)

lemma float_between:
  assumes "float_rounding fl" "of_int a \<le> x" "x \<le> of_int b" "\<bar>a\<bar> \<le> 9007199254740992" "\<bar>b\<bar> \<le> 9007199254740992"
  shows "of_int a \<le> fl x \<and> fl x \<le> of_int b"
  using float_mono[OF assms(1,2)] float_mono[OF assms(1,3)] float_int[OF assms(1,4)] float_int[OF assms(1,5)] by simp

lemma round_even_int [simp]: "round_even (of_int n) = n"
  by (simp add: round_even_def Let_def)

lemma round_even_near: "floor r \<le> round_even r \<and> round_even r \<le> floor r + 1"
  by (simp add: round_even_def Let_def)

lemma round_even_mono: "r \<le> s \<Longrightarrow> round_even r \<le> round_even s"
proof (cases "floor r = floor s")
  case True
  assume "r \<le> s"
  then show ?thesis using True by (auto simp: round_even_def Let_def)
next
  case False
  assume "r \<le> s"
  then have "floor r \<le> floor s" by (rule floor_mono)
  then have "floor r + 1 \<le> floor s" using False by linarith
  then show ?thesis using round_even_near[of r] round_even_near[of s] by linarith
qed

lemma round_even_between: "of_int a \<le> x \<Longrightarrow> x \<le> of_int b \<Longrightarrow> a \<le> round_even x \<and> round_even x \<le> b"
  using round_even_mono[of "of_int a" x] round_even_mono[of x "of_int b"] by simp

section \<open>The dynamic value\<close>

definition solve_count :: "int \<Rightarrow> site \<Rightarrow> int" where
  "solve_count cid d = int (length (filter (\<lambda>r. su_challenge r = cid) (st_solves d)))"

text \<open>The decay as a function of the number of solves.\<close>

definition decayed :: "(rat \<Rightarrow> rat) \<Rightarrow> int \<Rightarrow> int \<Rightarrow> int \<Rightarrow> int \<Rightarrow> int" where
  "decayed fl initial lowest dec n =
     (if n \<ge> dec then lowest
      else round_even (fl (fl (of_int initial) - fl (fl (of_int (initial - lowest)) * fl (of_int n / of_int dec)))))"

lemma dynamic_value_eq:
  "dynamic_value fl c d =
     decayed fl (int_or ''initial_value'' (int_or ''value'' 0 c) c) (int_or ''minimum_value'' 0 c)
       (max 1 (int_or ''decay'' 1 c)) (solve_count (cg_id c) d)"
  by (simp add: dynamic_value_def decayed_def solve_count_def Let_def)

lemma decayed_inner:
  assumes fl: "float_rounding fl" and range: "0 \<le> lowest" "lowest \<le> initial" "initial \<le> 9007199254740992" "1 \<le> dec"
  shows "n < dec \<Longrightarrow> decayed fl initial lowest dec n =
     round_even (fl (of_int initial - fl (of_int (initial - lowest) * fl (of_int n / of_int dec))))"
  using float_int[OF fl, of initial] float_int[OF fl, of "initial - lowest"] range by (simp add: decayed_def del: of_int_diff)

lemma decayed_bounds:
  assumes fl: "float_rounding fl" and range: "0 \<le> lowest" "lowest \<le> initial" "initial \<le> 9007199254740992" "1 \<le> dec"
    and n: "0 \<le> n"
  shows "lowest \<le> decayed fl initial lowest dec n \<and> decayed fl initial lowest dec n \<le> initial"
proof (cases "n \<ge> dec")
  case False
  let ?q = "fl (of_int n / of_int dec)" and ?x = "of_int (initial - lowest) :: rat"
  have "of_int 0 \<le> (of_int n / of_int dec :: rat)" "(of_int n / of_int dec :: rat) \<le> of_int 1"
    using n range False by simp_all
  then have q: "0 \<le> ?q \<and> ?q \<le> 1" using float_between[OF fl, of 0 _ 1] by simp
  have "?x * ?q \<le> ?x * 1" using q range by (intro mult_left_mono) simp_all
  then have "of_int 0 \<le> ?x * ?q \<and> ?x * ?q \<le> ?x" using q range by simp
  then have "of_int 0 \<le> fl (?x * ?q) \<and> fl (?x * ?q) \<le> ?x"
    using float_between[OF fl, of 0 "?x * ?q" "initial - lowest"] range by simp
  then have "of_int lowest \<le> of_int initial - fl (?x * ?q)" "of_int initial - fl (?x * ?q) \<le> (of_int initial :: rat)" by simp_all
  then have "of_int lowest \<le> fl (of_int initial - fl (?x * ?q)) \<and> fl (of_int initial - fl (?x * ?q)) \<le> of_int initial"
    using range by (intro float_between[OF fl]) simp_all
  then have "lowest \<le> round_even (fl (of_int initial - fl (?x * ?q))) \<and> round_even (fl (of_int initial - fl (?x * ?q))) \<le> initial"
    by (intro round_even_between) blast+
  then show ?thesis using decayed_inner[OF fl range, of n] False by simp
qed (use range in \<open>simp add: decayed_def\<close>)

lemma decayed_falls:
  assumes fl: "float_rounding fl" and range: "0 \<le> lowest" "lowest \<le> initial" "initial \<le> 9007199254740992" "1 \<le> dec"
    and n: "0 \<le> n" "n \<le> m"
  shows "decayed fl initial lowest dec m \<le> decayed fl initial lowest dec n"
proof (cases "m \<ge> dec")
  case True
  then show ?thesis using decayed_bounds[OF fl range n(1)] by (simp add: decayed_def)
next
  case False
  let ?x = "of_int (initial - lowest) :: rat"
  have "(of_int n / of_int dec :: rat) \<le> of_int m / of_int dec" using n range by (intro divide_right_mono) simp_all
  then have "fl (of_int n / of_int dec) \<le> fl (of_int m / of_int dec)" by (rule float_mono[OF fl])
  then have "?x * fl (of_int n / of_int dec) \<le> ?x * fl (of_int m / of_int dec)"
    using range by (intro mult_left_mono) simp_all
  then have "fl (?x * fl (of_int n / of_int dec)) \<le> fl (?x * fl (of_int m / of_int dec))" by (rule float_mono[OF fl])
  then have "fl (of_int initial - fl (?x * fl (of_int m / of_int dec))) \<le> fl (of_int initial - fl (?x * fl (of_int n / of_int dec)))"
    by (intro float_mono[OF fl]) simp
  then have "round_even (fl (of_int initial - fl (?x * fl (of_int m / of_int dec))))
      \<le> round_even (fl (of_int initial - fl (?x * fl (of_int n / of_int dec))))" by (rule round_even_mono)
  then show ?thesis using False n by (simp only: decayed_inner[OF fl range] not_le order.strict_trans1)
qed

section \<open>What an owner has found\<close>

lemma has_find_iff: "has_find ow fid d \<longleftrightarrow> (\<exists>f \<in> set (st_finds d). fs_owner f = ow \<and> fs_flag f = fid)"
  by (auto simp: has_find_def list_ex_iff)

lemma flag_unique: "finds_ok d \<Longrightarrow> f \<in> set (st_flags d) \<Longrightarrow> r \<in> set (st_flags d) \<Longrightarrow> fl_id f = fl_id r \<Longrightarrow> f = r"
  by (rule distinct_map_inj[of fl_id "st_flags d"]) (simp_all add: finds_ok_def)

lemma found_flags:
  assumes "finds_ok d"
  shows "fs_flag ` set (finds_of cid ow d) = fl_id ` {f \<in> set (flags_of cid d). has_find ow (fl_id f) d}"
proof (intro set_eqI iffI)
  fix fid assume "fid \<in> fs_flag ` set (finds_of cid ow d)"
  then obtain x where x: "x \<in> set (st_finds d)" "fs_owner x = ow" "fs_challenge x = cid" "fid = fs_flag x"
    by (auto simp: finds_of_def)
  then obtain r where "r \<in> set (st_flags d)" "fl_id r = fid" "fl_challenge r = cid"
    using assms by (auto simp: finds_ok_def)
  then show "fid \<in> fl_id ` {f \<in> set (flags_of cid d). has_find ow (fl_id f) d}"
    using x by (force simp: flags_of_def has_find_iff)
next
  fix fid assume "fid \<in> fl_id ` {f \<in> set (flags_of cid d). has_find ow (fl_id f) d}"
  then obtain f x where f: "f \<in> set (st_flags d)" "fl_challenge f = cid" "fid = fl_id f"
    and x: "x \<in> set (st_finds d)" "fs_owner x = ow" "fs_flag x = fid"
    by (auto simp: flags_of_def has_find_iff)
  obtain r where "r \<in> set (st_flags d)" "fl_id r = fs_flag x" "fl_challenge r = fs_challenge x"
    using assms x(1) by (auto simp: finds_ok_def)
  then have "f = r" using flag_unique[OF assms f(1)] f x by auto
  then have "fs_challenge x = cid" using \<open>fl_challenge r = fs_challenge x\<close> f by simp
  then show "fid \<in> fs_flag ` set (finds_of cid ow d)" using x by (auto simp: finds_of_def)
qed

lemma flags_distinct: "finds_ok d \<Longrightarrow> distinct (map fl_id (flags_of cid d))"
  by (simp add: finds_ok_def flags_of_def map_filter_distinct)

lemma solved_count:
  assumes "finds_ok d"
  shows "card (fs_flag ` set (finds_of cid ow d)) = length (filter (\<lambda>f. has_find ow (fl_id f) d) (flags_of cid d))"
proof -
  have "fs_flag ` set (finds_of cid ow d) = set (map fl_id (filter (\<lambda>f. has_find ow (fl_id f) d) (flags_of cid d)))"
    using found_flags[OF assms] by auto
  moreover have "distinct (map fl_id (filter (\<lambda>f. has_find ow (fl_id f) d) (flags_of cid d)))"
    by (rule map_filter_distinct[OF flags_distinct[OF assms]])
  ultimately show ?thesis using distinct_card by (metis length_map)
qed

lemma filter_all: "length (filter P xs) \<ge> length xs \<longleftrightarrow> (\<forall>x \<in> set xs. P x)"
  by (induction xs) (auto simp: le_Suc_eq dest: order_trans[OF _ length_filter_le])

text \<open>A challenge is complete for an owner exactly when every flag of it has been found.\<close>

lemma complete_iff:
  assumes "finds_ok d"
  shows "complete_of (owner_progress fl cid ow d) \<longleftrightarrow> (\<forall>f \<in> set (flags_of cid d). has_find ow (fl_id f) d)"
proof -
  have "length (remdups (map fs_flag (finds_of cid ow d))) = length (filter (\<lambda>f. has_find ow (fl_id f) d) (flags_of cid d))"
    using solved_count[OF assms, of cid ow] by (simp add: length_remdups_card_conv)
  then show ?thesis
    by (simp add: complete_of_def owner_progress_def Let_def filter_all)
qed

section \<open>Points\<close>

text \<open>The rows of CTFd's table of solves that belong to an owner.\<close>

definition solved_rows :: "int \<Rightarrow> owner \<Rightarrow> submission_row list \<Rightarrow> submission_row list" where
  "solved_rows cid ow rs =
     filter (\<lambda>r. su_challenge r = cid \<and> (if fst ow = ''team'' then su_team r = Some (snd ow) else su_user r = snd ow)) rs"

lemma account_rows_eq: "account_rows cid user team rs = solved_rows cid (owner_of user team) rs"
  by (cases team) (simp_all add: account_rows_def solved_rows_def owner_of_def)

text \<open>
  What a submission may do to the table of solves: nothing, or one row for an owner that had none
  and has found every flag.
\<close>

definition awarded :: "int \<Rightarrow> owner \<Rightarrow> site \<Rightarrow> site \<Rightarrow> bool" where
  "awarded cid ow d d' \<longleftrightarrow>
     st_solves d' = st_solves d \<or>
     (solved_rows cid ow (st_solves d) = [] \<and> length (solved_rows cid ow (st_solves d')) = 1 \<and>
      (\<exists>row. st_solves d' = st_solves d @ [row]) \<and> (\<forall>f \<in> set (flags_of cid d'). has_find ow (fl_id f) d'))"

lemma awarded_refl: "st_solves d' = st_solves d \<Longrightarrow> awarded cid ow d d'"
  by (simp add: awarded_def)

lemma outcome_commit:
  "outcome Q E (commit s) =
     (if constraints_ok (now_db s) then Q () (s\<lparr>saved_db := now_db s\<rparr>)
      else E (IntegrityError ''UNIQUE constraint failed'') s)"
  by (simp add: commit_def flush_def)

lemma edit_sel [simp]: "now_db (edit f s) = f (now_db s)" "saved_db (edit f s) = saved_db s" "remote (edit f s) = remote s"
  by (simp_all add: edit_def)

lemma add_find_sel [simp]:
  "st_solves (add_find cid ow fid d) = st_solves d" "flags_of c (add_find cid ow fid d) = flags_of c d"
  "has_find o' f (add_find cid ow fid d) \<longleftrightarrow> has_find o' f d \<or> o' = ow \<and> f = fid"
  by (auto simp: add_find_def flags_of_def has_find_def)

lemma finds_ok_add: "finds_ok d \<Longrightarrow> f \<in> set (flags_of cid d) \<Longrightarrow> finds_ok (add_find cid ow (fl_id f) d)"
  by (auto simp: finds_ok_def add_find_def flags_of_def)

lemma solve_awarded:
  assumes "st_solves (saved_db s) = st_solves d" "now_db s = saved_db s" "ow = owner_of user team"
    and "\<forall>f \<in> set (flags_of cid (now_db s)). has_find ow (fl_id f) (now_db s)"
  shows "outcome (\<lambda>_ s'. awarded cid ow d (saved_db s')) (\<lambda>_ s'. awarded cid ow d (saved_db s'))
    (insert_solve cid user team sub ip s)"
proof -
  let ?row = "submission cid user team sub ip"
  have "solved_rows cid ow [?row] = [?row]"
    unfolding assms(3) by (cases team) (simp_all add: solved_rows_def owner_of_def submission_def)
  moreover have "solved_rows cid ow (rs @ [?row]) = solved_rows cid ow rs @ solved_rows cid ow [?row]" for rs
    by (simp add: solved_rows_def)
  moreover have "flags_of cid (now_db s\<lparr>st_solves := rs\<rparr>) = flags_of cid (now_db s)"
    "has_find ow f (now_db s\<lparr>st_solves := rs\<rparr>) = has_find ow f (now_db s)" for rs f
    by (simp_all add: flags_of_def has_find_def)
  ultimately show ?thesis
    using assms by (auto simp: insert_solve_def outcome_commit account_rows_eq awarded_def)
qed

lemma credit_awarded:
  assumes "finds_ok d" "now_db s = d" "saved_db s = d" "ow = owner_of user team"
  shows "outcome (\<lambda>_ s'. awarded cid ow d (saved_db s')) (\<lambda>_ s'. awarded cid ow d (saved_db s'))
    (credit_flag g fl cid ow user team sub ip s)"
proof -
  have rest: "outcome (\<lambda>_ s'. awarded cid ow d (saved_db s')) (\<lambda>_ s'. awarded cid ow d (saved_db s'))
      (finish_find fl cid ow user team sub ip s)"
    if "finds_ok (now_db s)" "now_db s = saved_db s" "st_solves (saved_db s) = st_solves d" for s
    using solve_awarded[OF that(3,2) assms(4)] that complete_iff[OF that(1)]
    by (auto simp: finish_find_def Let_def awarded_refl)
  show ?thesis
  proof (cases "first_matching_flag g cid sub d")
    case None
    then show ?thesis using rest[of s] assms by (simp add: credit_flag_def record_flag_find_def)
  next
    case (Some f)
    then have f: "f \<in> set (flags_of cid d)" by (auto simp: first_matching_flag_def dest: find_Some_in)
    let ?s' = "edit (add_find cid ow (fl_id f)) s\<lparr>saved_db := add_find cid ow (fl_id f) d\<rparr>"
    show ?thesis
      using Some assms(2-4) rest[of s] rest[of ?s'] assms(1) finds_ok_add[OF assms(1) f, of ow]
      by (simp add: credit_flag_def record_flag_find_def outcome_commit awarded_refl)
  qed
qed

text \<open>The request's team is a row of CTFd's table.\<close>

definition team_known :: "owner \<Rightarrow> site \<Rightarrow> bool" where
  "team_known ow d \<longleftrightarrow> (fst ow = ''team'' \<longrightarrow> (\<exists>t \<in> set (st_teams d). tr_id t = snd ow))"

lemma acting_owner:
  assumes "resolve_owner g rq = Some ow" "team_known ow d"
    and "find (\<lambda>u. Some (ur_id u) = current_user_id rq) (st_users d) = Some user"
  shows "owner_of user (if fst ow = ''team'' then find (\<lambda>t. tr_id t = snd ow) (st_teams d) else None) = ow"
proof (cases "fst ow = ''team''")
  case True
  then obtain t where t: "find (\<lambda>t. tr_id t = snd ow) (st_teams d) = Some t"
    using assms(2) by (cases "find (\<lambda>t. tr_id t = snd ow) (st_teams d)") (auto simp: team_known_def find_None_iff)
  then show ?thesis using True find_Some_in[OF t] by (cases ow) (simp add: owner_of_def)
next
  case False
  then show ?thesis
    using assms(1) find_Some_in[OF assms(3)]
    by (auto simp: resolve_owner_def owner_of_def current_user_id_def split: option.splits if_splits)
qed

lemma submit_awarded:
  assumes "finds_ok d" "now_db s = d" "saved_db s = d" "resolve_owner g rq = Some ow" "team_known ow d"
  shows "outcome (\<lambda>_ s'. awarded cid ow d (saved_db s')) (\<lambda>_ s'. awarded cid ow d (saved_db s'))
    (submit_route g fl cid rq ow s)"
proof -
  have judge: "outcome (\<lambda>_ s'. awarded cid ow d (saved_db s')) (\<lambda>_ s'. awarded cid ow d (saved_db s'))
      (judge_flag g fl cid ow user team sub ip s)"
    if "now_db s = d" "saved_db s = d" "owner_of user team = ow" for s user team sub ip
    using credit_awarded[OF assms(1) that(1,2) that(3)[symmetric]] that
    by (auto simp: judge_flag_def insert_fail_def outcome_commit awarded_refl Let_def split: option.split)
  have "outcome (\<lambda>_ s'. awarded cid ow d (saved_db s')) (\<lambda>_ s'. awarded cid ow d (saved_db s')) (submit_checked g fl c ow rq s)"
    if "now_db s = d" "saved_db s = d" "cg_id c = cid" for s c
    using that judge[OF that(1,2)] acting_owner[OF assms(4,5)]
    by (auto simp: submit_checked_def Let_def awarded_refl split: option.split sum.split)
  moreover have "challenge_by_id cid d = Some c \<Longrightarrow> cg_id c = cid" for c
    by (auto simp: challenge_by_id_def dest: find_Some_in)
  ultimately show ?thesis
    using assms(2,3) by (auto simp: submit_route_def Let_def awarded_refl split: option.split prod.split sum.split)
qed

section \<open>The native attempt\<close>

lemma finds_distinct:
  "constraints_ok d \<Longrightarrow> distinct (map fs_flag (finds_of cid ow d))"
proof -
  assume "constraints_ok d"
  then have "distinct (map find_of (finds_of cid ow d))"
    by (simp add: constraints_ok_def finds_of_def map_filter_distinct)
  then show ?thesis
    by (auto simp: distinct_map finds_of_def find_of_def inj_on_def)
qed

lemma found_length:
  assumes "finds_ok d" "constraints_ok d"
  shows "length (finds_of cid ow d) = length (filter (\<lambda>f. has_find ow (fl_id f) d) (flags_of cid d))"
  using solved_count[OF assms(1), of cid ow] distinct_card[OF finds_distinct[OF assms(2), of cid ow]] by simp

lemma filter_one_more:
  "distinct xs \<Longrightarrow> x \<in> set xs \<Longrightarrow> \<not> P x \<Longrightarrow> length (filter (\<lambda>y. P y \<or> y = x) xs) = Suc (length (filter P xs))"
proof (induction xs)
  case (Cons y ys)
  show ?case
  proof (cases "y = x")
    case True
    then have "filter (\<lambda>y. P y \<or> y = x) ys = filter P ys"
      using Cons.prems by (intro filter_cong) auto
    then show ?thesis using True Cons.prems by simp
  qed (use Cons in auto)
qed simp

lemma attempt_completes:
  assumes "finds_ok d" "constraints_ok d" "f \<in> set (flags_of cid d)" "\<not> has_find ow (fl_id f) d"
  shows "length (finds_of cid ow d) + 1 \<ge> length (flags_of cid d) \<longleftrightarrow>
    complete_of (owner_progress fl cid ow (add_find cid ow (fl_id f) d))"
proof -
  let ?fs = "flags_of cid d" and ?P = "\<lambda>x. has_find ow (fl_id x) d"
  have same: "fl_id x = fl_id f \<longleftrightarrow> x = f" if "x \<in> set ?fs" for x
    using that assms(3) flag_unique[OF assms(1), of x f] by (auto simp: flags_of_def)
  have "distinct ?fs" using flags_distinct[OF assms(1), of cid] by (simp add: distinct_map)
  then have "length (filter (\<lambda>x. ?P x \<or> x = f) ?fs) = Suc (length (filter ?P ?fs))"
    using filter_one_more[of ?fs f ?P] assms(3,4) by blast
  then have "length (finds_of cid ow d) + 1 \<ge> length ?fs \<longleftrightarrow> (\<forall>x \<in> set ?fs. ?P x \<or> x = f)"
    using filter_all[of ?fs "\<lambda>x. ?P x \<or> x = f"] by (simp add: found_length[OF assms(1,2)])
  then show ?thesis
    using complete_iff[OF finds_ok_add[OF assms(1,3)], of fl cid ow ow] same by auto
qed

section \<open>Percentages\<close>

lemma weight_range: "weights_ok d \<Longrightarrow> 0 \<le> weight_of d flags fid \<and> weight_of d flags fid \<le> 100"
  by (auto simp: weight_of_def weights_ok_def split: option.split dest!: find_Some_in)

lemma sum_list_map_sum: "distinct xs \<Longrightarrow> sum_list (map h xs) = sum h (set xs)" for h :: "'a \<Rightarrow> int"
  by (simp add: sum_list_distinct_conv_sum_set)

lemma progress_bounds:
  assumes fl: "float_rounding fl" and ok: "finds_ok d" "weights_ok d"
  shows "0 \<le> percent_tenths (owner_progress fl cid ow d) \<and> percent_tenths (owner_progress fl cid ow d) \<le> 1000 \<and>
    flags_solved (owner_progress fl cid ow d) \<le> flags_total (owner_progress fl cid ow d)"
proof -
  let ?fs = "flags_of cid d" and ?ids = "fs_flag ` set (finds_of cid ow d)"
  let ?w = "weight_of d ?fs"
  define all_w where "all_w = (\<Sum>k\<in>fl_id ` set ?fs. ?w k)"
  define got where "got = (\<Sum>k\<in>?ids. ?w k)"
  have sub: "?ids \<subseteq> fl_id ` set ?fs" using found_flags[OF ok(1)] by auto
  have w: "0 \<le> ?w k" for k using weight_range[OF ok(2)] by blast
  have got: "0 \<le> got" "got \<le> all_w"
    unfolding got_def all_w_def using w sub by (auto intro!: sum_nonneg sum_mono2)
  have sums: "sum_list (map (\<lambda>f. ?w (fl_id f)) ?fs) = all_w"
    "sum_list (map ?w (remdups (map fs_flag (finds_of cid ow d)))) = got"
    using sum_list_map_sum[OF flags_distinct[OF ok(1)], of ?w cid] sum_list_map_sum[of "remdups (map fs_flag (finds_of cid ow d))" ?w]
    by (simp_all add: all_w_def got_def comp_def)
  define t where "t = (if all_w = 0 then 100 else all_w)"
  have t: "0 < t" "got \<le> t" using got by (auto simp: t_def)
  let ?x = "of_int (100 * got) / of_int t :: rat"
  have "of_int 0 \<le> ?x \<and> ?x \<le> of_int 100" using t got by (simp add: field_simps)
  then have "of_int 0 \<le> fl ?x \<and> fl ?x \<le> of_int 100" using float_between[OF fl, of 0 ?x 100] by simp
  then have "0 \<le> tenths fl got t \<and> tenths fl got t \<le> 1000"
    unfolding tenths_def using round_even_between[of 0 "10 * fl ?x" 1000] by simp
  moreover have "card ?ids \<le> length ?fs"
    unfolding solved_count[OF ok(1)] by (rule length_filter_le)
  moreover have "owner_progress fl cid ow d =
      \<lparr>flags_total = length ?fs, flags_solved = card ?ids, percent_tenths = tenths fl got t\<rparr>"
    unfolding owner_progress_def Let_def sums t_def by (simp add: length_remdups_card_conv)
  ultimately show ?thesis by simp
qed

section \<open>Weights\<close>

text \<open>The check of the sum agrees with the weights that \<open>list_flag_weights\<close> shows.\<close>

lemma weight_rows:
  assumes "constraints_ok d" "w \<in> set (st_weights d)" "fw_flag w \<in> fl_id ` set flags"
  shows "weight_of d flags (fw_flag w) = fw_pct w"
proof -
  have "distinct (map fw_flag (st_weights d))" using assms(1) by (simp add: constraints_ok_def)
  moreover obtain v where v: "find (\<lambda>x. fw_flag x = fw_flag w \<and> fw_flag x \<in> fl_id ` set flags) (st_weights d) = Some v"
    using assms(2,3) by (cases "find (\<lambda>x. fw_flag x = fw_flag w \<and> fw_flag x \<in> fl_id ` set flags) (st_weights d)")
      (auto simp: find_None_iff)
  ultimately have "v = w" using find_Some_in[OF v] assms(2) distinct_map_inj[of fw_flag "st_weights d" v w] by blast
  then show ?thesis using v by (simp add: weight_of_def)
qed

lemma weights_sum_iff:
  assumes "constraints_ok d" "finds_ok d"
  shows "weights_sum_to_100 cid d \<longleftrightarrow>
    flags_of cid d = [] \<or> sum_list (map (\<lambda>f. weight_of d (flags_of cid d) (fl_id f)) (flags_of cid d)) = 100"
proof -
  let ?fs = "flags_of cid d"
  let ?ids = "set (map fl_id ?fs)" and ?w = "weight_of d ?fs"
  define rows where "rows = filter (\<lambda>w. fw_flag w \<in> ?ids) (st_weights d)"
  have dist: "distinct (map fw_flag rows)" "distinct (map fl_id ?fs)"
    using assms(1) flags_distinct[OF assms(2)] by (simp_all add: rows_def constraints_ok_def map_filter_distinct)
  have sub: "fw_flag ` set rows \<subseteq> ?ids" by (auto simp: rows_def)
  have rows: "?w (fw_flag r) = fw_pct r" if "r \<in> set rows" for r
    using that weight_rows[OF assms(1), of r ?fs] by (simp add: rows_def)
  have unset: "?w k = 100" if "k \<in> ?ids - fw_flag ` set rows" for k
    using that by (force simp: weight_of_def rows_def split: option.split dest!: find_Some_in)
  have "sum_list (map (\<lambda>f. ?w (fl_id f)) ?fs) = (\<Sum>k\<in>?ids. ?w k)"
    using sum_list_map_sum[OF dist(2), of ?w] by (simp add: comp_def)
  also have "\<dots> = (\<Sum>k\<in>fw_flag ` set rows. ?w k) + (\<Sum>k\<in>?ids - fw_flag ` set rows. ?w k)"
    using sum.subset_diff[OF sub, of ?w] by simp
  also have "(\<Sum>k\<in>?ids - fw_flag ` set rows. ?w k) = 100 * int (card (?ids - fw_flag ` set rows))"
    using unset by simp
  also have "card (?ids - fw_flag ` set rows) = length ?fs - length rows"
    using sub dist distinct_card[OF dist(1)] distinct_card[OF dist(2)] by (simp add: card_Diff_subset)
  also have "(\<Sum>k\<in>fw_flag ` set rows. ?w k) = sum_list (map fw_pct rows)"
  proof -
    have "(\<Sum>k\<in>set (map fw_flag rows). ?w k) = sum_list (map ?w (map fw_flag rows))"
      by (rule sum_list_map_sum[OF dist(1), symmetric])
    also have "map ?w (map fw_flag rows) = map fw_pct rows" using rows by simp
    finally show ?thesis by simp
  qed
  finally have total: "sum_list (map (\<lambda>f. ?w (fl_id f)) ?fs) = sum_list (map fw_pct rows) + 100 * int (length ?fs - length rows)" .
  have "length rows \<le> length ?fs"
    using card_mono[OF _ sub] distinct_card[OF dist(1)] distinct_card[OF dist(2)] by simp
  then show ?thesis
    unfolding total by (auto simp: weights_sum_to_100_def Let_def rows_def of_nat_diff)
qed

end
