(* ===== verification/Instance_Laws.thy ===== *)
theory Instance_Laws
  imports Scoring_Laws
begin

text \<open>
  The table of instances of the plugin: what a spawn, a teardown, an extension, the sweep and the
  reconciliation do to it, and the rows of peers that a revocation leaves.
\<close>

section \<open>Rows\<close>

lemma audit_sel [simp]:
  "st_instances (now_db (audit g actor ev inst details s)) = st_instances (now_db s)"
  "saved_db (audit g actor ev inst details s) = saved_db s" "remote (audit g actor ev inst details s) = remote s"
  by (simp_all add: audit_def audit_entry_def)

lemma delete_sel [simp]:
  "st_instances (delete_instance i d) = filter (\<lambda>j. ei_id j \<noteq> ei_id i) (st_instances d)"
  by (simp add: delete_instance_def)

lemma put_sel [simp]:
  "st_instances (put_instance i d) = map (\<lambda>j. if ei_id j = ei_id i then i else j) (st_instances d)"
  by (simp add: put_instance_def)

lemma fresh_id: "ids_ok d \<Longrightarrow> ei_id i = st_next d \<Longrightarrow> j \<in> set (st_instances d) \<Longrightarrow> ei_id j \<noteq> ei_id i"
  by (auto simp: ids_ok_def)

text \<open>Taking back a fresh row, and filling it in.\<close>

lemma fresh_row:
  assumes "ids_ok d" "ei_id i = st_next d"
  shows "filter (\<lambda>j. ei_id j \<noteq> ei_id i) (st_instances d @ [i]) = st_instances d"
    "ei_id i' = ei_id i \<Longrightarrow> map (\<lambda>j. if ei_id j = ei_id i' then i' else j) (st_instances d @ [i]) = st_instances d @ [i']"
proof -
  show "filter (\<lambda>j. ei_id j \<noteq> ei_id i) (st_instances d @ [i]) = st_instances d"
    using fresh_id[OF assms] by (simp add: filter_eq_self)
  show "map (\<lambda>j. if ei_id j = ei_id i' then i' else j) (st_instances d @ [i]) = st_instances d @ [i']" if "ei_id i' = ei_id i"
    using fresh_id[OF assms] that by (auto intro: map_idI)
qed

lemma instance_by_id_unique:
  assumes "ids_ok d" "instance_by_id k d = Some i" "j \<in> set (st_instances d)" "ei_id j = k"
  shows "j = i"
proof (rule distinct_map_inj)
  show "distinct (map ei_id (st_instances d))" using assms(1) by (simp add: ids_ok_def)
  show "i \<in> set (st_instances d)" "ei_id j = ei_id i"
    using find_Some_in[OF assms(2)[unfolded instance_by_id_def]] assms(4) by simp_all
qed (fact assms(3))

section \<open>Calls of the daemon\<close>

lemma outcome_ask:
  assumes "\<And>e w. is_DaemonError e \<Longrightarrow> outcome Q E (failed e (s\<lparr>remote := w\<rparr>))"
    and "\<And>j w. outcome Q E (next_step j (s\<lparr>remote := w\<rparr>))" "\<And>e w. E e (s\<lparr>remote := w\<rparr>)"
  shows "outcome Q E (ask_daemon call failed next_step s)"
  using assms by (auto simp: ask_daemon_def remotely_def split: prod.split sum.split)

section \<open>Spawning\<close>

text \<open>The new row of a spawn, pending or filled in.\<close>

definition one_more :: "int \<Rightarrow> owner \<Rightarrow> string \<Rightarrow> site \<Rightarrow> site \<Rightarrow> bool" where
  "one_more cid ow st d d' \<longleftrightarrow>
     (\<exists>i. st_instances d' = st_instances d @ [i] \<and> ei_challenge i = cid \<and> ei_owner i = ow \<and> ei_status i = st)"

definition spawn_answer :: "int \<Rightarrow> owner \<Rightarrow> site \<Rightarrow> response \<Rightarrow> 'w ctf \<Rightarrow> bool" where
  "spawn_answer cid ow d r s' \<longleftrightarrow>
     (\<exists>code j. r = Answer code j \<and>
        (if code = 200 then one_more cid ow ''running'' d (saved_db s')
         else st_instances (saved_db s') = st_instances d))"

definition spawn_raise :: "int \<Rightarrow> owner \<Rightarrow> site \<Rightarrow> 'w ctf \<Rightarrow> bool" where
  "spawn_raise cid ow d s' \<longleftrightarrow>
     st_instances (saved_db s') = st_instances d \<or> one_more cid ow ''pending'' d (saved_db s')"

lemma fill_row_facts:
  "fill_row result i = Inr i' \<Longrightarrow> ei_id i' = ei_id i \<and> ei_challenge i' = ei_challenge i \<and> ei_owner i' = ei_owner i \<and>
     ei_status i' = ''running'' \<and> ei_expires i' = ei_expires i"
  by (auto simp: fill_row_def sum_bind_def split: sum.splits)

lemma spawn_row_outcome:
  fixes s :: "'w ctf"
  assumes ids: "ids_ok d" and s: "now_db s = d" "saved_db s = d" and i: "i = new_row (st_next d) cid ow n x"
  shows "outcome (spawn_answer cid ow d) (\<lambda>_. spawn_raise cid ow d) (spawn_row g c ow ttl i s)"
proof -
  let ?add = "\<lambda>d. d\<lparr>st_instances := st_instances d @ [i], st_next := st_next d + 1\<rparr>"
  have new: "ei_id i = st_next d" "ei_challenge i = cid" "ei_owner i = ow" "ei_status i = ''pending''"
    by (simp_all add: i new_row_def)
  show ?thesis
  proof (cases "constraints_ok (?add d)")
    case False
    then have "commit (edit ?add s) = (Inl (IntegrityError ''UNIQUE constraint failed''), edit ?add s)"
      using s by (simp add: commit_def flush_def)
    then show ?thesis using s
      by (auto simp: spawn_row_def reserve_def rollback_def Let_def spawn_answer_def fail_json_def split: option.split)
  next
    case True
    let ?s1 = "edit ?add s\<lparr>saved_db := ?add d\<rparr>"
    have res: "reserve i s = (Inr (), ?s1)" using True s by (simp add: reserve_def commit_def flush_def edit_def)
    have raise: "spawn_raise cid ow d s'" if "saved_db s' = ?add d" for s' :: "'w ctf"
      using that new by (simp add: spawn_raise_def one_more_def)
    have fin: "outcome (spawn_answer cid ow d) (\<lambda>_. spawn_raise cid ow d) (spawn_done g i result s')"
      if "now_db s' = ?add d" "saved_db s' = ?add d" for result s'
    proof (cases "fill_row result i")
      case (Inr i')
      note f = fill_row_facts[OF Inr]
      then have "st_instances (put_instance i' (?add d)) = st_instances d @ [i']"
        using fresh_row(2)[OF ids new(1), of i'] by simp
      then show ?thesis
        using Inr f that new raise[of s']
        by (auto simp: spawn_done_def outcome_commit spawn_answer_def ok_json_def one_more_def raise simp del: put_sel)
    qed (use that raise in \<open>simp add: spawn_done_def\<close>)
    have bad: "outcome (spawn_answer cid ow d) (\<lambda>_. spawn_raise cid ow d) (spawn_failed_answer g i e s')"
      if "now_db s' = ?add d" "saved_db s' = ?add d" for e s'
      using that fresh_row(1)[OF ids new(1)]
      by (auto simp: spawn_failed_answer_def outcome_commit spawn_answer_def fail_json_def raise)
    have "now_db ?s1 = ?add d" "saved_db ?s1 = ?add d" using s by (simp_all add: edit_def)
    then show ?thesis
      unfolding spawn_row_def res
      by (auto simp: raise split: sum.split json.split intro!: outcome_ask fin bad)
  qed
qed

lemma spawn_route_outcome:
  assumes "ids_ok d" "now_db s = d" "saved_db s = d"
  shows "outcome (\<lambda>r s'. spawn_answer cid ow d r s' \<and>
      (\<forall>j. r = Answer 200 j \<longrightarrow> int (length (active_of ow d)) < max_containers d))
    (\<lambda>_. spawn_raise cid ow d) (spawn_route g cid ow s)"
proof (cases "challenge_by_id cid d")
  case (Some c)
  show ?thesis
  proof (cases "truthy (col ''build_path'' c) \<and> int (length (active_of ow d)) < max_containers d")
    case True
    then show ?thesis
      using Some assms(2,3) spawn_row_outcome[OF assms refl]
      by (auto simp: spawn_route_def Let_def intro: outcome_mono)
  next
    case False
    then show ?thesis using Some assms
      by (auto simp: spawn_route_def spawn_answer_def fail_json_def not_less)
  qed
qed (use assms in \<open>auto simp: spawn_route_def spawn_answer_def fail_json_def\<close>)

text \<open>The slot was free before, because the table that is committed has it once.\<close>

lemma one_more_slot:
  "one_more cid ow st d d' \<Longrightarrow> constraints_ok d' \<Longrightarrow> j \<in> set (st_instances d) \<Longrightarrow> slot_of j \<noteq> (cid, ow)"
  by (force simp: one_more_def constraints_ok_def instances_unique_def slot_of_def)

lemma active_one_more:
  "one_more cid ow ''running'' d d' \<Longrightarrow> length (active_of ow d') = Suc (length (active_of ow d))"
  by (auto simp: one_more_def active_of_def live_status_def)

section \<open>Own rows only\<close>

definition others :: "owner \<Rightarrow> site \<Rightarrow> edo_instance list" where
  "others ow d = filter (\<lambda>j. ei_owner j \<noteq> ow) (st_instances d)"

lemma owned_instance_Inr:
  "owned_instance k ow d = Inr i \<Longrightarrow> instance_by_id k d = Some i \<and> ei_owner i = ow"
  by (auto simp: owned_instance_def split: option.splits if_splits)

lemma others_delete:
  assumes "ids_ok d" "instance_by_id k d = Some i" "ei_owner i = ow" "st_instances d' = st_instances d"
  shows "others ow (delete_instance i d') = others ow d"
proof -
  have "ei_id i = k" using assms(2) by (auto simp: instance_by_id_def dest: find_Some_in)
  then have "ei_id j \<noteq> ei_id i" if "j \<in> set (st_instances d)" "ei_owner j \<noteq> ow" for j
    using that instance_by_id_unique[OF assms(1,2), of j] assms(3) by auto
  then show ?thesis by (auto simp: others_def assms(4) intro: filter_cong)
qed

lemma others_put:
  assumes "ids_ok d" "instance_by_id k d = Some i" "ei_owner i = ow" "ei_id i' = ei_id i" "ei_owner i' = ow"
  shows "others ow (put_instance i' d) = others ow d"
proof -
  have k: "ei_id i = k" using assms(2) by (auto simp: instance_by_id_def dest: find_Some_in)
  then have "ei_owner j = ow" if "j \<in> set (st_instances d)" "ei_id j = ei_id i'" for j
    using that instance_by_id_unique[OF assms(1,2), of j] assms(3,4) by auto
  then have "filter (\<lambda>j. ei_owner j \<noteq> ow) (map (\<lambda>j. if ei_id j = ei_id i' then i' else j) xs) = filter (\<lambda>j. ei_owner j \<noteq> ow) xs"
    if "set xs \<subseteq> set (st_instances d)" for xs
    using that assms(5) by (induction xs) auto
  then show ?thesis by (simp add: others_def)
qed

lemma teardown_others:
  fixes s :: "'w ctf"
  assumes "ids_ok d" "now_db s = d" "saved_db s = d"
  shows "outcome (\<lambda>_ s'. others ow (saved_db s') = others ow d) (\<lambda>_ s'. others ow (saved_db s') = others ow d)
    (teardown_route g k ow s)"
proof (cases "owned_instance k ow d")
  case (Inr i)
  note i = owned_instance_Inr[OF Inr]
  have "outcome (\<lambda>_ s'. others ow (saved_db s') = others ow d) (\<lambda>_ s'. others ow (saved_db s') = others ow d)
      (forget_instance g actor ev i s')" if "now_db s' = d" "saved_db s' = d" for s' :: "'w ctf" and actor ev
    using that others_delete[OF assms(1) conjunct1[OF i] conjunct2[OF i]]
    by (simp add: forget_instance_def outcome_commit)
  then show ?thesis using Inr assms(2,3) by (auto simp: teardown_route_def intro!: outcome_ask)
qed (use assms in \<open>simp add: teardown_route_def\<close>)

lemma audit_others [simp]: "others ow (now_db (audit g actor ev inst details s)) = others ow (now_db s)"
  by (simp add: others_def)

lemma extend_others:
  assumes "ids_ok d" "now_db s = d" "saved_db s = d"
  shows "outcome (\<lambda>_ s'. others ow (saved_db s') = others ow d) (\<lambda>_ s'. others ow (saved_db s') = others ow d)
    (extend_route g k ow s)"
proof (cases "owned_instance k ow d")
  case (Inr i)
  note i = owned_instance_Inr[OF Inr]
  have "others ow (put_instance (i\<lparr>ei_expires := x\<rparr>) d) = others ow d" for x
    using others_put[OF assms(1) conjunct1[OF i] conjunct2[OF i]] i by simp
  then show ?thesis using Inr assms(2,3) by (simp add: extend_route_def Let_def outcome_commit)
qed (use assms in \<open>simp add: extend_route_def\<close>)

text \<open>The container of another owner is not released either: the answer is 403 and nothing happens.\<close>

lemma foreign_refused:
  "instance_by_id k (now_db s) = Some i \<Longrightarrow> ei_owner i \<noteq> ow \<Longrightarrow>
   teardown_route g k ow s = (Inr (fail_json 403 ''forbidden'' []), s) \<and>
   extend_route g k ow s = (Inr (fail_json 403 ''forbidden'' []), s)"
  by (simp add: teardown_route_def extend_route_def owned_instance_def)

end
