(* ===== verification/Job_Laws.thy ===== *)
theory Job_Laws
  imports Instance_Laws
begin

text \<open>
  What the two jobs leave in the table of instances: after the sweep no row is live and expired,
  after a reconciliation every live row with a container is one that the daemon reported as
  running. Then the rows of revoked peers, and the settings that a start-up leaves.
\<close>

section \<open>Loops over rows\<close>

text \<open>
  The rows of \<open>d'\<close> that come from processing the rows with the ids \<open>ks\<close> of \<open>d\<close>: a processed row
  is gone or satisfies \<open>Q\<close>, the others are as before, and no ids are new.
\<close>

definition processed :: "(edo_instance \<Rightarrow> bool) \<Rightarrow> int set \<Rightarrow> edo_instance list \<Rightarrow> edo_instance list \<Rightarrow> bool" where
  "processed Q ks xs ys \<longleftrightarrow>
     (\<forall>y \<in> set ys. if ei_id y \<in> ks then Q y else y \<in> set xs) \<and>
     (\<forall>x \<in> set xs. ei_id x \<notin> ks \<longrightarrow> x \<in> set ys)"

lemma processed_refl: "processed Q {} xs xs"
  by (simp add: processed_def)

lemma processed_delete:
  "processed Q ks xs ys \<Longrightarrow> processed Q (insert k ks) xs (filter (\<lambda>j. ei_id j \<noteq> k) ys)"
  by (auto simp: processed_def)

lemma processed_put:
  "processed Q ks xs (st_instances d) \<Longrightarrow> Q i \<Longrightarrow> ei_id i = k \<Longrightarrow>
   processed Q (insert k ks) xs (st_instances (put_instance i d))"
  by (auto simp: processed_def split: if_splits)

section \<open>The sweep\<close>

lemma sweep_loop_rows:
  fixes s :: "'w ctf"
  assumes "processed (\<lambda>i. ei_status i = ''error'') ks xs (st_instances (now_db s))"
  shows "outcome (\<lambda>_ s'. processed (\<lambda>i. ei_status i = ''error'') (ks \<union> ei_id ` set is) xs (st_instances (now_db s')))
    (\<lambda>_ _. True) (sweep_loop g is s)"
  using assms
proof (induction "is" arbitrary: ks s)
  case (Cons i "is")
  let ?P = "processed (\<lambda>i. ei_status i = ''error'') (insert (ei_id i) ks) xs"
  have one: "outcome (\<lambda>_ s'. ?P (st_instances (now_db s'))) (\<lambda>_ _. True) (sweep_one g i s)"
    unfolding sweep_one_def
  proof (rule outcome_ask)
    fix e w
    show "outcome (\<lambda>_ s'. ?P (st_instances (now_db s'))) (\<lambda>_ _. True) (Inr (), sweep_failed g i e (s\<lparr>remote := w\<rparr>))"
      using Cons.prems by (auto simp: sweep_failed_def simp del: put_sel intro!: processed_put)
  qed (use processed_delete[OF Cons.prems, of "ei_id i"] in simp_all)
  have "outcome (\<lambda>_ s'. processed (\<lambda>i. ei_status i = ''error'') (insert (ei_id i) ks \<union> ei_id ` set is) xs (st_instances (now_db s')))
      (\<lambda>_ _. True) (sweep_loop g is s')" if "?P (st_instances (now_db s'))" for s' :: "'w ctf"
    using Cons.IH[OF that] .
  then show ?case
    unfolding sweep_loop.simps outcome_and_then by (intro outcome_mono[OF one]) simp_all
qed simp

lemma sweep_clears:
  fixes s :: "'w ctf"
  assumes "now_db s = d" "saved_db s = d"
  shows "outcome (\<lambda>_ s'. expired_of (clock_now g s) (saved_db s') = [] \<and>
      (\<forall>i \<in> set (st_instances d). i \<notin> set (expired_of (clock_now g s) d) \<longrightarrow>
         ei_id i \<notin> ei_id ` set (expired_of (clock_now g s) d) \<longrightarrow> i \<in> set (st_instances (saved_db s'))))
    (\<lambda>_ _. True) (sweep_expired g s)"
proof (cases "expired_of (clock_now g s) d = []")
  case False
  let ?ex = "expired_of (clock_now g s) d" and ?now = "clock_now g s"
  have loop: "outcome (\<lambda>_ s'. processed (\<lambda>i. ei_status i = ''error'') (ei_id ` set ?ex) (st_instances d) (st_instances (now_db s')))
      (\<lambda>_ _. True) (sweep_loop g ?ex s)"
    using sweep_loop_rows[of "{}" "st_instances d" s ?ex g] processed_refl assms(1) by simp
  have fin: "expired_of ?now d' = [] \<and>
      (\<forall>i \<in> set (st_instances d). i \<notin> set ?ex \<longrightarrow> ei_id i \<notin> ei_id ` set ?ex \<longrightarrow> i \<in> set (st_instances d'))"
    if "processed (\<lambda>i. ei_status i = ''error'') (ei_id ` set ?ex) (st_instances d) (st_instances d')" for d'
  proof
    note rows = that
    show "\<forall>i \<in> set (st_instances d). i \<notin> set ?ex \<longrightarrow> ei_id i \<notin> ei_id ` set ?ex \<longrightarrow> i \<in> set (st_instances d')"
      using that by (auto simp: processed_def)
    have "\<not> (ei_expires y \<le> ?now \<and> live_status y)" if y: "y \<in> set (st_instances d')" for y
    proof (cases "ei_id y \<in> ei_id ` set ?ex")
      case True
      then have "ei_status y = ''error''" using rows y by (auto simp: processed_def)
      then show ?thesis by (simp add: live_status_def)
    next
      case out: False
      then have "y \<in> set (st_instances d)" using rows y by (auto simp: processed_def)
      then show ?thesis using out by (auto simp: expired_of_def)
    qed
    then show "expired_of ?now d' = []" by (simp add: expired_of_def filter_empty_conv)
  qed
  define R where "R d' \<longleftrightarrow> expired_of ?now d' = [] \<and>
      (\<forall>i \<in> set (st_instances d). i \<notin> set ?ex \<longrightarrow> ei_id i \<notin> ei_id ` set ?ex \<longrightarrow> i \<in> set (st_instances d'))" for d'
  have committed: "outcome (\<lambda>_ s'. R (saved_db s')) (\<lambda>_ _. True) (commit s')"
    if "processed (\<lambda>i. ei_status i = ''error'') (ei_id ` set ?ex) (st_instances d) (st_instances (now_db s'))"
    for s' :: "'w ctf"
    using fin[OF that] by (simp add: outcome_commit R_def)
  have "sweep_expired g s = and_then (sweep_loop g ?ex s) (\<lambda>_ s. commit s)"
    using False assms(1) by (simp add: sweep_expired_def)
  then show ?thesis
    unfolding R_def[symmetric] by (simp only: outcome_and_then) (rule outcome_mono[OF loop], erule committed, simp)
qed (use assms in \<open>simp add: sweep_expired_def Let_def\<close>)

section \<open>Reconciliation\<close>

text \<open>What a reconciliation wants of a row: if it is live and has a container, the daemon runs that.\<close>

definition agrees :: "(string \<times> json) list \<Rightarrow> edo_instance \<Rightarrow> bool" where
  "agrees live i \<longleftrightarrow>
     (live_status i \<longrightarrow> (\<forall>cid. in_docker i = Some cid \<longrightarrow>
        (\<exists>row. map_of live cid = Some row \<and>
           (obj_get row ''status'' JNull = Inr (JStr ''running'') \<or> obj_get row ''status'' JNull = Inr (JStr ''created'')))))"

lemma agrees_update [simp]: "agrees live (i\<lparr>ei_reconciled := t\<rparr>) = agrees live i"
  by (simp add: agrees_def live_status_def in_docker_def)

lemma known_rows:
  fixes s :: "'w ctf"
  assumes "processed (agrees live) ks xs (st_instances (now_db s))" "in_docker i = Some cid"
  shows "outcome (\<lambda>_ s'. processed (agrees live) (insert (ei_id i) ks) xs (st_instances (now_db s'))) (\<lambda>_ _. True)
    (reconcile_known g live i cid s)"
proof -
  let ?i = "i\<lparr>ei_reconciled := Some (clock_now g s)\<rparr>"
  let ?done = "\<lambda>s'. processed (agrees live) (insert (ei_id i) ks) xs (st_instances (now_db s'))"
  have put: "processed (agrees live) (insert (ei_id i) ks) xs (st_instances (put_instance j (put_instance ?i (now_db s))))"
    if "ei_id j = ei_id i" "agrees live j" for j
  proof -
    have "st_instances (put_instance j (put_instance ?i (now_db s))) = st_instances (put_instance j (now_db s))"
      using that(1) by (auto simp: comp_def)
    then show ?thesis using processed_put[OF assms(1) that(2,1)] by (simp only:)
  qed
  have "filter (\<lambda>j. ei_id j \<noteq> ei_id i) (st_instances (put_instance ?i (now_db s))) = filter (\<lambda>j. ei_id j \<noteq> ei_id i) (st_instances (now_db s))"
    by (simp add: filter_map comp_def) (rule map_idI, simp)
  then have del: "processed (agrees live) (insert (ei_id i) ks) xs
      (filter (\<lambda>j. ei_id j \<noteq> ei_id i) (st_instances (put_instance ?i (now_db s))))"
    using processed_delete[OF assms(1), of "ei_id i"] by simp
  show ?thesis
  proof (cases "map_of live cid")
    case None
    then show ?thesis using del by (simp add: reconcile_known_def Let_def del: put_sel)
  next
    case (Some row)
    show ?thesis
    proof (cases "obj_get row ''status'' JNull")
      case (Inr st)
      have ok: "st = JStr ''running'' \<or> st = JStr ''created'' \<Longrightarrow> agrees live ?i"
        unfolding agrees_update using Some Inr assms(2) by (auto simp: agrees_def)
      have stopped: "agrees live (?i\<lparr>ei_status := ''stopped''\<rparr>)" by (simp add: agrees_def live_status_def)
      have "st = JStr ''running'' \<or> st = JStr ''created'' \<Longrightarrow>
          processed (agrees live) (insert (ei_id i) ks) xs (st_instances (put_instance ?i (now_db s)))"
        using processed_put[OF assms(1) ok] by simp
      then show ?thesis
        using Some Inr put[OF _ stopped] by (simp add: reconcile_known_def Let_def del: put_sel)
    qed (use Some in \<open>simp add: reconcile_known_def Let_def\<close>)
  qed
qed

lemma reconcile_rows_agree:
  fixes s :: "'w ctf"
  assumes "processed (agrees live) ks xs (st_instances (now_db s))"
  shows "outcome (\<lambda>_ s'. processed (agrees live) (ks \<union> ei_id ` {i \<in> set is. in_docker i \<noteq> None}) xs (st_instances (now_db s')))
    (\<lambda>_ _. True) (reconcile_rows g live is s)"
  using assms
proof (induction "is" arbitrary: ks s)
  case (Cons i "is")
  show ?case
  proof (cases "in_docker i")
    case None
    then have "{j \<in> set (i # is). in_docker j \<noteq> None} = {j \<in> set is. in_docker j \<noteq> None}" by auto
    then show ?thesis using Cons None by simp
  next
    case (Some cid)
    then have "ks \<union> ei_id ` {j \<in> set (i # is). in_docker j \<noteq> None} = insert (ei_id i) ks \<union> ei_id ` {j \<in> set is. in_docker j \<noteq> None}"
      by auto
    then show ?thesis
      unfolding reconcile_rows.simps Some option.case outcome_and_then
      by (intro outcome_mono[OF known_rows[OF Cons.prems Some]]) (simp_all only: Cons.IH)
  qed
qed simp

lemma note_rows:
  "outcome (\<lambda>_ s'. st_instances (now_db s') = st_instances (now_db s)) (\<lambda>_ _. True) (note_untracked g tracked live s)"
  by (induction g tracked live s rule: note_untracked.induct) (auto split: sum.split)

lemma reconcile_agrees:
  fixes s :: "'w ctf"
  shows "outcome (\<lambda>_ s'. \<forall>i \<in> set (st_instances (saved_db s')). agrees live i) (\<lambda>_ _. True) (reconcile_with g live s)"
proof -
  let ?xs = "st_instances (now_db s)"
  let ?tracked = "filter live_status ?xs"
  let ?ks = "ei_id ` {i \<in> set ?tracked. in_docker i \<noteq> None}"
  have rows: "outcome (\<lambda>_ s'. processed (agrees live) ?ks ?xs (st_instances (now_db s'))) (\<lambda>_ _. True)
      (reconcile_rows g live ?tracked s)"
    using reconcile_rows_agree[of live "{}" ?xs s ?tracked g] processed_refl by simp
  have all: "\<forall>i \<in> set ys. agrees live i" if "processed (agrees live) ?ks ?xs ys" for ys
  proof
    fix i assume i: "i \<in> set ys"
    show "agrees live i"
    proof (cases "ei_id i \<in> ?ks")
      case False
      then have "i \<in> set ?xs" using that i by (auto simp: processed_def)
      then have "\<not> live_status i \<or> in_docker i = None" using False by auto
      then show ?thesis by (auto simp: agrees_def)
    qed (use that i in \<open>auto simp: processed_def\<close>)
  qed
  have fin: "outcome (\<lambda>_ s'. \<forall>i \<in> set (st_instances (saved_db s')). agrees live i) (\<lambda>_ _. True)
      (and_then (note_untracked g tracked live s') (\<lambda>_ s. commit s))"
    if "processed (agrees live) ?ks ?xs (st_instances (now_db s'))" for s' :: "'w ctf" and tracked
    unfolding outcome_and_then using all[OF that]
    by (intro outcome_mono[OF note_rows]) (simp_all add: outcome_commit)
  show ?thesis
    unfolding reconcile_with_def Let_def by (subst outcome_and_then) (rule outcome_mono[OF rows], erule fin, simp)
qed

section \<open>Revoked peers\<close>

text \<open>
  A revoked row stays in the table, where the user id is unique, so the row of a new peer for the
  same user cannot be committed.
\<close>

lemma revoked_blocks:
  assumes "p \<in> set (st_peers d)" "ep_user p = uid" "ep_user q = uid"
  shows "\<not> constraints_ok (add_peer_row q d)"
  using assms by (auto simp: constraints_ok_def peers_unique_def add_peer_row_def)

lemma revoked_download:
  fixes s :: "'w ctf"
  assumes "p \<in> set (st_peers (now_db s))" "ep_user p = uid" "live_peer_of uid (now_db s) = None"
  shows "outcome (\<lambda>r s'. (\<exists>e. r = fail_json 502 ''daemon_error'' [(''detail'', JStr e)]) \<and> saved_db s' = saved_db s)
    (\<lambda>_ s'. saved_db s' = saved_db s) (download_config g uid ow s)"
proof -
  have "ep_user q = uid" if "peer_row uid ow j = Inr q" for j q
    using that by (auto simp: peer_row_def sum_bind_def split: sum.splits)
  then have no: "\<not> constraints_ok (add_peer_row q (now_db s))" if "peer_row uid ow j = Inr q" for j q
    using that revoked_blocks[OF assms(1,2)] by blast
  show ?thesis
    using assms(3) no
    by (auto simp: download_config_def daemon_failed_def commit_def flush_def split: sum.split intro!: outcome_ask)
qed

section \<open>Start-up\<close>

text \<open>
  Loading the plugin never overrides a setting that is there, leaves every setting present, and does
  nothing when it is repeated, neither to the settings nor to the scheduler that runs.
\<close>

lemma seed_loop_settings:
  "\<exists>kvs'. seed_loop kvs d = d\<lparr>st_settings := st_settings d @ kvs'\<rparr> \<and> fst ` set kvs' \<subseteq> fst ` set kvs \<and>
     fst ` set kvs \<subseteq> fst ` set (st_settings d @ kvs') \<and>
     (distinct (map fst (st_settings d)) \<longrightarrow> distinct (map fst (st_settings d @ kvs')))"
proof (induction kvs d rule: seed_loop.induct)
  case (2 k v kvs d)
  show ?case
  proof (cases "map_of (st_settings d) k = None")
    case True
    then have new: "k \<notin> fst ` set (st_settings d)" by (simp add: map_of_eq_None_iff)
    obtain kvs' where step: "seed_loop kvs (d\<lparr>st_settings := st_settings d @ [(k, Some v)]\<rparr>) =
          d\<lparr>st_settings := (st_settings d @ [(k, Some v)]) @ kvs'\<rparr>"
      "fst ` set kvs' \<subseteq> fst ` set kvs" "fst ` set kvs \<subseteq> fst ` set ((st_settings d @ [(k, Some v)]) @ kvs')"
      "distinct (map fst (st_settings d @ [(k, Some v)])) \<longrightarrow> distinct (map fst ((st_settings d @ [(k, Some v)]) @ kvs'))"
      using 2 True by auto
    show ?thesis
      by (rule exI[of _ "(k, Some v) # kvs'"]) (use True step new in auto)
  next
    case False
    then have "k \<in> fst ` set (st_settings d)" by (simp add: map_of_eq_None_iff)
    then show ?thesis using 2 False by auto
  qed
qed (auto intro: exI[of _ "[]"])

lemma seed_loop_done: "fst ` set kvs \<subseteq> fst ` set (st_settings d) \<Longrightarrow> seed_loop kvs d = d"
proof (induction kvs d rule: seed_loop.induct)
  case (2 k v kvs d)
  then have "map_of (st_settings d) k \<noteq> None" by (simp add: map_of_eq_None_iff)
  then obtain t where "map_of (st_settings d) k = Some t" by blast
  then show ?case using 2 by simp
qed simp

lemma load_settings:
  assumes "constraints_ok (now_db s)"
  shows "\<exists>kvs s'. load_plugin running s = (Inr (start_scheduler running (saved_db s')), s') \<and>
     saved_db s' = (now_db s)\<lparr>st_settings := st_settings (now_db s) @ kvs\<rparr> \<and>
     fst ` set DEFAULTS \<subseteq> fst ` set (st_settings (saved_db s')) \<and>
     (\<forall>k t. setting_row k (now_db s) = Some t \<longrightarrow> setting_row k (saved_db s') = Some t) \<and>
     load_plugin (start_scheduler running (saved_db s')) s' = (Inr (start_scheduler running (saved_db s')), s')"
proof -
  let ?d = "now_db s"
  obtain kvs where kvs: "seed_loop DEFAULTS ?d = ?d\<lparr>st_settings := st_settings ?d @ kvs\<rparr>"
    "fst ` set DEFAULTS \<subseteq> fst ` set (st_settings ?d @ kvs)" "distinct (map fst (st_settings ?d @ kvs))"
    using seed_loop_settings[of DEFAULTS ?d] assms unfolding constraints_ok_def by blast
  let ?d' = "?d\<lparr>st_settings := st_settings ?d @ kvs\<rparr>"
  have ok: "constraints_ok ?d'"
    using assms kvs(3) by (simp add: constraints_ok_def instances_unique_def peers_unique_def challenges_filled_def)
  have again: "seed_loop DEFAULTS ?d' = ?d'" by (rule seed_loop_done) (use kvs(2) in simp)
  have "load_plugin running s = (Inr (start_scheduler running ?d'), s\<lparr>now_db := ?d', saved_db := ?d'\<rparr>)"
    using ok by (simp add: load_plugin_def seed_defaults_def commit_def flush_def edit_def kvs(1))
  moreover have "start_scheduler (start_scheduler running ?d') d = start_scheduler running ?d'" for d
    by (simp add: start_scheduler_def split: option.split)
  then have "load_plugin (start_scheduler running ?d') (s\<lparr>now_db := ?d', saved_db := ?d'\<rparr>) =
      (Inr (start_scheduler running ?d'), s\<lparr>now_db := ?d', saved_db := ?d'\<rparr>)"
    using ok again by (simp add: load_plugin_def seed_defaults_def commit_def flush_def edit_def)
  moreover have "setting_row k ?d = Some t \<longrightarrow> setting_row k ?d' = Some t" for k t
    by (simp add: setting_row_def map_add_def split: option.split)
  ultimately show ?thesis using kvs(2) by (intro exI[of _ kvs] exI[of _ "s\<lparr>now_db := ?d', saved_db := ?d'\<rparr>"]) simp
qed

end
