(* ===== verification/Plugin_Daemon.thy ===== *)
theory Plugin_Daemon
  imports Job_Laws Daemon_Laws
begin

text \<open>
  The plugin and the daemon joined: the calls of the plugin go over the link of \<open>Daemon_Client\<close> to
  the server of \<open>Daemon_Rpc\<close>, so the world outside the plugin is the daemon's state. The invariants
  of both hold together along every run, a spawned row names a container that the daemon recorded
  for the same owner and challenge, and a reconciliation leaves the live rows that the daemon knows.
\<close>

section \<open>The invariants together\<close>

context service_law
begin

lemma link_kept: "P (store s) \<Longrightarrow> P (store (snd (rpc_call (unix_link n v uid) m params s)))"
  using unix.call_state[of n v uid m params s] connection[of s v uid] by auto

end

interpretation linked: site_law records_ok "\<lambda>s. service_ok (store s)" "g\<lparr>rpc := unix_link n v uid\<rparr>"
  for g :: "'w daemon plugin" and n v uid
  by unfold_locales (simp add: kept.link_kept)

lemma linked_step:
  assumes "site_step (g\<lparr>rpc := unix_link n v uid\<rparr>) fl drift s s'" "settled (site_of s)" "service_ok (store (remote (site_of s)))"
    and "\<And>w w'. drift w w' \<Longrightarrow> service_ok (store w) \<Longrightarrow> service_ok (store w')"
  shows "settled (site_of s') \<and> service_ok (store (remote (site_of s')))"
proof -
  have "sound records_ok (\<lambda>s. service_ok (store s)) (site_of s')"
    using assms(2,3,4) core_edit_records core_edit_tables(4)
    by (intro linked.step_kept[OF assms(1)]) (auto simp: settled_iff sound_def)
  then show ?thesis using settled_step[OF assms(1,2)] by (simp add: sound_def)
qed

lemma linked_runs:
  assumes "site_runs (g\<lparr>rpc := unix_link n v uid\<rparr>) fl drift s s'" "settled (site_of s)" "service_ok (store (remote (site_of s)))"
    and "\<And>w w'. drift w w' \<Longrightarrow> service_ok (store w) \<Longrightarrow> service_ok (store w')"
  shows "settled (site_of s') \<and> service_ok (store (remote (site_of s')))"
  using assms(1) unfolding site_runs_def
proof (induction rule: rtranclp_induct)
  case (step s1 s2)
  then have "settled (site_of s1)" "service_ok (store (remote (site_of s1)))" by simp_all
  then show ?case by (rule linked_step[OF step(2)]) (rule assms(4))
qed (use assms in simp)

section \<open>What the daemon answers\<close>

lemma column_wf: "column t (JList []) = Inr j \<Longrightarrow> wf_json j" "column t (JObj []) = Inr j \<Longrightarrow> wf_json j"
  by (auto simp: column_def dest: loads_wf split: option.splits if_splits)

lemma opt_text_wf: "wf_json (opt_text t)"
  by (simp add: opt_text_def split: option.split)

lemma spawn_reply_wf: "spawn_reply i = Inr j \<Longrightarrow> wf_json j"
  by (auto simp: spawn_reply_def sum_bind_def opt_text_wf column_wf split: sum.splits)

lemma instance_json_wf: "instance_json i = Inr j \<Longrightarrow> wf_json j"
  by (auto simp: instance_json_def sum_bind_def opt_text_wf column_wf split: sum.splits)

lemma instances_json_wf: "instances_json is = Inr js \<Longrightarrow> list_all wf_json js"
  by (induction "is" arbitrary: js) (auto simp: sum_bind_def instance_json_wf split: sum.splits)

lemma rebuild_store: "store (snd (rebuild_firewall v s)) = store s"
  using holds_firewall[of "\<lambda>d. d = store s" s v] by (simp add: holds_def)

text \<open>An answer to a spawn is a row of the daemon's table, for the owner and the challenge asked for.\<close>

lemma spawn_handler:
  assumes "request_of v params = Inr q"
  shows "outcome (\<lambda>j s'. \<exists>i \<in> set (instances (store s')). inst_owner i = sr_owner q \<and>
      challenge_ref i = sr_challenge q \<and> spawn_reply i = Inr j) (\<lambda>_ _. True)
    (handle_container_ensure_instance v params s)"
proof -
  let ?Q = "\<lambda>j s'. \<exists>i \<in> set (instances (store s')). inst_owner i = sr_owner q \<and>
      challenge_ref i = sr_challenge q \<and> spawn_reply i = Inr j"
  have ran: "outcome (\<lambda>res s'. success res \<longrightarrow> (\<exists>i \<in> set (instances (store s')). inst_owner i = sr_owner q \<and>
      challenge_ref i = sr_challenge q \<and> instance_of res = Some i)) (\<lambda>_ _. True) (spawn_instance (machine_of v) q s)"
  proof (cases "find_instance (sr_owner q) (sr_challenge q) (store s)")
    case (Some i)
    then show ?thesis
      using find_Some_in[OF Some[unfolded find_instance_def]] by (simp add: spawn_instance_def)
  next
    case None
    show ?thesis
    proof (rule outcome_mono[OF spawn_instance_outcome[OF None]], goal_cases)
      case (1 res s')
      have "i \<in> set (instances (store s'))" if "new_instance q pl i d (store s')" for pl i d
        by (subst new_instance_facts(1)[OF that]) simp
      then show ?case using 1 by (fastforce simp: spawn_end_def new_instance_facts(2,3))
    qed simp
  qed
  have "outcome ?Q (\<lambda>_ _. True) (and_then (rebuild_firewall v s') (\<lambda>_ s.
      case instance_of res of None \<Rightarrow> (Inl (AttributeError ''container_id''), s) | Some i \<Rightarrow> (spawn_reply i, s)))"
    if "\<exists>i \<in> set (instances (store s')). inst_owner i = sr_owner q \<and> challenge_ref i = sr_challenge q \<and> instance_of res = Some i"
    for s' :: "'a daemon" and res
    using that rebuild_store[of v s']
    by (cases "rebuild_firewall v s'"; cases "fst (rebuild_firewall v s')") (auto split: sum.split)
  then show ?thesis
    unfolding handle_container_ensure_instance_def pure_simps assms
    by (simp add: if_distrib) (rule outcome_mono[OF ran], auto)
qed

text \<open>The parameters of the call, as the daemon reads them.\<close>

definition spawn_params :: "owner \<Rightarrow> string \<Rightarrow> string \<Rightarrow> json \<Rightarrow> int option \<Rightarrow> bool \<Rightarrow> json" where
  "spawn_params ow chal path sec ttl pub =
     JObj [(''owner_type'', JStr (fst ow)), (''owner_id'', JInt (snd ow)),
           (''challenge_ref'', JStr chal), (''build_path'', JStr path),
           (''security'', or_empty sec), (''ttl_seconds'', opt_int ttl), (''publish_ports'', JBool pub)]"

lemma request_of_params:
  assumes "request_of v (or_empty (sort_json (or_empty (spawn_params ow chal path sec ttl pub)))) = Inr q"
  shows "sr_owner q = ow \<and> sr_challenge q = chal"
  using assms
  by (auto simp: spawn_params_def or_empty_def request_of_def sum_bind_def obj_get_def owner_param_def param_def text_param_def
      int_param_def json_int_def py_str_def split: sum.splits if_splits)

lemma spawn_called:
  assumes "container_ensure_instance (unix_link n v uid) ow chal path sec ttl pub w = (Inr j, w')" "wf_json sec"
  shows "\<exists>i \<in> set (instances (store w')). inst_owner i = ow \<and> challenge_ref i = chal \<and> spawn_reply i = Inr j"
proof -
  let ?params = "spawn_params ow chal path sec ttl pub"
  let ?p = "or_empty (sort_json (or_empty ?params))"
  have wf: "wf_json ?params"
    using assms(2) by (simp add: spawn_params_def or_empty_def opt_int_def split: option.split)
  have call: "rpc_call (unix_link n v uid) ''container.ensure_instance'' ?params w = (Inr j, w')"
    using assms(1) by (simp add: container_ensure_instance_def spawn_params_def)
  have req: "\<exists>q. request_of v ?p = Inr q \<and> sr_owner q = ow \<and> sr_challenge q = chal"
    if "handle_container_ensure_instance v ?p w = (Inr x, t)" for x t
    using that request_of_params[of v ow chal path sec ttl pub]
    by (cases "request_of v ?p") (auto simp: handle_container_ensure_instance_def)
  have ans: "\<exists>i \<in> set (instances (store t)). inst_owner i = ow \<and> challenge_ref i = chal \<and> spawn_reply i = Inr x"
    if run: "handle_container_ensure_instance v ?p w = (Inr x, t)" for x t
    using req[OF run] outcome_InrD[OF spawn_handler run] by blast
  have "handle_container_ensure_instance v ?p w = (Inr j, w')"
    by (rule unix.call_result[OF _ wf _ call]) (use ans spawn_reply_wf in \<open>auto simp: METHODS_def\<close>)
  then show ?thesis by (rule ans)
qed

section \<open>A spawned row\<close>

text \<open>What \<open>float\<close> gives is written as a literal that \<open>json\<close> reads.\<close>

definition float_literals :: "'w plugin \<Rightarrow> bool" where
  "float_literals g \<longleftrightarrow> (\<forall>j t. to_float g j = Inr t \<longrightarrow> wf_json (JFloat t))"

lemma security_wf: "float_literals g \<Longrightarrow> security_of g c = Inr sec \<Longrightarrow> wf_json sec"
proof -
  have "literal ''1.0''" by code_simp
  then show "float_literals g \<Longrightarrow> security_of g c = Inr sec \<Longrightarrow> wf_json sec"
    by (auto simp: security_of_def sum_bind_def float_literals_def split: sum.splits if_splits)
qed

text \<open>The row of the plugin and the row of the daemon are about the same container.\<close>

definition same_container :: "edo_instance \<Rightarrow> inst \<Rightarrow> bool" where
  "same_container i k \<longleftrightarrow> ei_container i = Some (container_id k) \<and> ei_name i = Some (container_name k) \<and>
     ei_ip i = Some (assigned_ip k) \<and> ei_owner i = inst_owner k \<and> str_int (ei_challenge i) = challenge_ref k"

lemma fill_row_reply:
  assumes "spawn_reply k = Inr j" "fill_row j i = Inr i'" "inst_owner k = ei_owner i" "challenge_ref k = str_int (ei_challenge i)"
  shows "same_container i' k"
  using assms by (auto simp: spawn_reply_def fill_row_def sum_bind_def obj_get_def text_column_def same_container_def split: sum.splits)

lemma commit_cases: "commit s = (r, s') \<Longrightarrow> r = Inr () \<and> s' = s\<lparr>saved_db := now_db s\<rparr> \<or> (\<exists>e. r = Inl e) \<and> s' = s"
  by (auto simp: commit_def flush_def split: if_splits)

lemma spawn_done_returns:
  assumes "spawn_done g i result s = (Inr r, s')"
  shows "\<exists>i'. fill_row result i = Inr i' \<and> st_instances (saved_db s') = st_instances (put_instance i' (now_db s)) \<and>
    remote s' = remote s"
proof -
  obtain i' where i': "fill_row result i = Inr i'" using assms by (auto simp: spawn_done_def split: sum.splits)
  let ?s = "audit g ''user'' ''spawn'' (Some i') JNull (edit (put_instance i') s)"
  obtain u s1 where c: "commit ?s = (u, s1)" by (cases "commit ?s")
  then have "u = Inr ()" "s' = ?s\<lparr>saved_db := now_db ?s\<rparr>"
    using assms commit_cases[OF c] by (auto simp: spawn_done_def i')
  then show ?thesis using i' by simp
qed

lemma spawn_failed_502: "spawn_failed_answer g i e s \<noteq> (Inr (Answer 200 j), s')"
  using commit_cases[of "edit (delete_instance i) (audit g ''user'' ''spawn_failed'' (Some i) (JObj [(''error'', JStr (exc_str e))]) s)"]
  by (cases "commit (edit (delete_instance i) (audit g ''user'' ''spawn_failed'' (Some i) (JObj [(''error'', JStr (exc_str e))]) s))")
    (auto simp: spawn_failed_answer_def fail_json_def)

lemma reserve_returns:
  "reserve i s = (Inr u, s') \<Longrightarrow>
   s' = edit (\<lambda>d. d\<lparr>st_instances := st_instances d @ [i], st_next := st_next d + 1\<rparr>) s
      \<lparr>saved_db := (now_db s)\<lparr>st_instances := st_instances (now_db s) @ [i], st_next := st_next (now_db s) + 1\<rparr>\<rparr>"
  by (auto simp: reserve_def commit_def flush_def Let_def split: if_splits option.splits)

text \<open>An answer 200 took every step: the row, the call, the row filled from the answer.\<close>

lemma spawn_row_200:
  assumes "spawn_row g c ow ttl i s = (Inr (Answer 200 j), s')"
  shows "\<exists>sec path result i' w. security_of g c = Inr sec \<and>
     container_ensure_instance (rpc g) ow (str_int (ei_challenge i)) path sec (Some ttl) (col ''access_mode'' c = JStr ''public'')
       (remote s) = (Inr result, w) \<and> fill_row result i = Inr i' \<and> remote s' = w \<and>
     st_instances (saved_db s') = map (\<lambda>j. if ei_id j = ei_id i' then i' else j) (st_instances (now_db s) @ [i])"
proof -
  obtain u s1 where r: "reserve i s = (Inr u, s1)"
    using assms by (auto simp: spawn_row_def reserve_def fail_json_def Let_def split: prod.splits sum.splits option.splits)
  note s1 = reserve_returns[OF r]
  obtain sec path where sec: "security_of g c = Inr sec" "col ''build_path'' c = JStr path"
    using assms by (auto simp: spawn_row_def r split: sum.splits json.splits)
  let ?call = "container_ensure_instance (rpc g) ow (str_int (ei_challenge i)) path sec (Some ttl) (col ''access_mode'' c = JStr ''public'')"
  obtain x w where call: "?call (remote s) = (x, w)" by (cases "?call (remote s)")
  have "remote s1 = remote s" by (simp add: s1)
  then have "remotely ?call s1 = (x, s1\<lparr>remote := w\<rparr>)" using call by (simp add: remotely_def)
  then obtain result where x: "x = Inr result" "spawn_done g i result (s1\<lparr>remote := w\<rparr>) = (Inr (Answer 200 j), s')"
    using assms spawn_failed_502[of g i _ "s1\<lparr>remote := w\<rparr>" j s']
    by (cases x) (auto simp: spawn_row_def r sec ask_daemon_def split: if_splits)
  have now: "st_instances (now_db (s1\<lparr>remote := w\<rparr>)) = st_instances (now_db s) @ [i]" by (simp add: s1)
  obtain i' where i': "fill_row result i = Inr i'" "st_instances (saved_db s') = st_instances (put_instance i' (now_db (s1\<lparr>remote := w\<rparr>)))"
    "remote s' = w"
    using spawn_done_returns[OF x(2)] by auto
  show ?thesis
    by (intro exI conjI) (fact sec(1), fact call[unfolded x(1)], fact i'(1), fact i'(3), fact i'(2)[unfolded put_sel now])
qed

lemma spawn_linked:
  fixes s :: "'w daemon ctf"
  assumes "float_literals g" "rpc g = unix_link n v uid" "ids_ok d" "now_db s = d"
    and "spawn_route g cid ow s = (Inr (Answer 200 j), s')"
  shows "\<exists>i k. st_instances (saved_db s') = st_instances d @ [i] \<and> k \<in> set (instances (store (remote s'))) \<and>
     slot_of i = (cid, ow) \<and> ei_status i = ''running'' \<and> same_container i k"
proof -
  obtain c ttl t x where row: "spawn_row g c ow ttl (new_row (st_next d) cid ow t x) s = (Inr (Answer 200 j), s')"
    using assms(4,5) by (auto simp: spawn_route_def fail_json_def Let_def split: option.splits if_splits)
  let ?i = "new_row (st_next d) cid ow t x"
  obtain sec path result i where steps: "security_of g c = Inr sec"
    "container_ensure_instance (unix_link n v uid) ow (str_int cid) path sec (Some ttl) (col ''access_mode'' c = JStr ''public'')
       (remote s) = (Inr result, remote s')" "fill_row result ?i = Inr i"
    "st_instances (saved_db s') = map (\<lambda>j. if ei_id j = ei_id i then i else j) (st_instances d @ [?i])"
    using spawn_row_200[OF row] assms(2,4) by (auto simp: new_row_def)
  note i = fill_row_facts[OF steps(3)]
  obtain k where k: "k \<in> set (instances (store (remote s')))" "inst_owner k = ow" "challenge_ref k = str_int cid"
    "spawn_reply k = Inr result"
    using spawn_called[OF steps(2) security_wf[OF assms(1) steps(1)]] by blast
  have "same_container i k" using fill_row_reply[OF k(4) steps(3)] k(2,3) by (simp add: new_row_def)
  moreover have "st_instances (saved_db s') = st_instances d @ [i]"
    using steps(4) fresh_row(2)[OF assms(3), of ?i i] i by (simp add: new_row_def)
  ultimately show ?thesis using i k(1) by (auto simp: slot_of_def new_row_def)
qed

section \<open>Reconciliation\<close>

lemma reconcile_handler:
  "handle_container_reconcile v params s = (Inr j, s') \<Longrightarrow>
   \<exists>js n. instances_json (instances (store s')) = Inr js \<and> j = JObj [(''pruned'', JInt n), (''instances'', JList js)]"
  by (cases "reconcile (machine_of v) s"; cases "fst (reconcile (machine_of v) s)";
      cases "instances_json (instances (store (snd (reconcile (machine_of v) s))))")
    (auto simp: handle_container_reconcile_def get_all_instances_def)

lemma reconcile_called:
  assumes "container_reconcile (unix_link n v uid) w = (Inr j, w')"
  shows "\<exists>js n. instances_json (instances (store w')) = Inr js \<and> j = JObj [(''pruned'', JInt n), (''instances'', JList js)]"
proof -
  let ?p = "or_empty (sort_json (or_empty (JObj [])))"
  have "handle_container_reconcile v ?p w = (Inr j, w')"
    using assms unfolding container_reconcile_def
    by (intro unix.call_result) (auto simp: METHODS_def dest!: reconcile_handler dest: instances_json_wf)
  then show ?thesis by (rule reconcile_handler)
qed

text \<open>A row of the answer that the plugin looks up is a row of the daemon's table.\<close>

lemma live_rows_from:
  "live_rows rs acc = Inr live \<Longrightarrow> map_of live cid = Some r \<Longrightarrow>
   map_of acc cid = Some r \<or> r \<in> set rs \<and> sum_bind (param r ''container_id'') text_param = Inr cid"
proof (induction rs acc rule: live_rows.induct)
  case (2 r' rs acc)
  then obtain k where k: "sum_bind (param r' ''container_id'') text_param = Inr k" "live_rows rs (AList.update k r' acc) = Inr live"
    by (cases "sum_bind (param r' ''container_id'') text_param") auto
  then show ?case
    using 2(1)[OF k(2) 2(3)] by (cases "cid = k") (auto simp: update_conv')
qed simp

lemma instances_json_from: "instances_json is = Inr js \<Longrightarrow> r \<in> set js \<Longrightarrow> \<exists>k \<in> set is. instance_json k = Inr r"
  by (induction "is" arbitrary: js) (auto simp: sum_bind_def split: sum.splits)

lemma live_of_daemon:
  assumes "container_reconcile (unix_link n v uid) w = (Inr j, w')" "live_of j = Inr live" "map_of live cid = Some r"
  shows "\<exists>k \<in> set (instances (store w')). container_id k = cid \<and> obj_get r ''status'' JNull = Inr (JStr (status k))"
proof -
  obtain js where js: "instances_json (instances (store w')) = Inr js" "live_rows js [] = Inr live"
    using reconcile_called[OF assms(1)] assms(2) by (auto simp: live_of_def obj_get_def)
  then obtain k where k: "k \<in> set (instances (store w'))" "instance_json k = Inr r"
    using live_rows_from[OF js(2) assms(3)] instances_json_from by fastforce
  have id: "sum_bind (param r ''container_id'') text_param = Inr cid" using live_rows_from[OF js(2) assms(3)] by simp
  have "sum_bind (param r ''container_id'') text_param = Inr (container_id k)" "obj_get r ''status'' JNull = Inr (JStr (status k))"
    using k(2) by (auto simp: instance_json_def sum_bind_def param_def text_param_def obj_get_def split: sum.splits)
  then show ?thesis using k(1) id by auto
qed

lemma reconcile_remote: "remote (snd (reconcile_with g live s)) = remote s"
proof -
  have known: "remote (snd (reconcile_known g live i cid s)) = remote s" for i cid and s :: "'a ctf"
    by (auto simp: reconcile_known_def Let_def split: option.split sum.split)
  have seq: "remote (snd (and_then r f)) = remote s"
    if "remote (snd r) = remote s" "\<And>x t. remote (snd (f x t)) = remote t"
    for r :: "(exc + 'b) \<times> 'a ctf" and f :: "'b \<Rightarrow> ('a ctf, 'c) act" and s :: "'a ctf"
    using that by (cases r; cases "fst r") auto
  have rows: "remote (snd (reconcile_rows g live is s)) = remote s" for "is" and s :: "'a ctf"
    by (induction "is" arbitrary: s) (auto intro!: seq known split: option.split)
  have noted: "remote (snd (note_untracked g tracked rs s)) = remote s" for tracked rs and s :: "'a ctf"
    by (induction g tracked rs s rule: note_untracked.induct) (auto split: sum.split)
  have com: "remote (snd (commit s)) = remote s" for s :: "'a ctf"
    by (simp add: commit_def flush_def)
  show ?thesis unfolding reconcile_with_def Let_def by (intro seq rows noted com)
qed

definition known_to :: "db \<Rightarrow> edo_instance \<Rightarrow> bool" where
  "known_to d i \<longleftrightarrow>
     (live_status i \<longrightarrow> (\<forall>cid. in_docker i = Some cid \<longrightarrow>
        (\<exists>k \<in> set (instances d). container_id k = cid \<and> (status k = ''running'' \<or> status k = ''created''))))"

lemma reconcile_linked:
  fixes s :: "'w daemon ctf"
  assumes "rpc g = unix_link n v uid"
  shows "outcome (\<lambda>_ s'. saved_db s' = saved_db s \<or> (\<forall>i \<in> set (st_instances (saved_db s')). known_to (store (remote s')) i))
    (\<lambda>_ _. True) (reconcile_job g s)"
proof (cases "container_reconcile (unix_link n v uid) (remote s)")
  case (Pair r w)
  show ?thesis
  proof (cases r)
    case (Inl e)
    then show ?thesis using Pair assms by (simp add: reconcile_job_def ask_daemon_def remotely_def)
  next
    case (Inr j)
    let ?s = "s\<lparr>remote := w\<rparr>"
    have call: "container_reconcile (unix_link n v uid) (remote s) = (Inr j, w)" using Pair Inr by simp
    show ?thesis
    proof (cases "live_of j")
      case (Inr live)
      have "known_to (store w) i" if "agrees live i" for i
        using that live_of_daemon[OF call Inr] by (fastforce simp: agrees_def known_to_def)
      then have "outcome (\<lambda>_ s'. \<forall>i \<in> set (st_instances (saved_db s')). known_to (store w) i) (\<lambda>_ _. True) (reconcile_with g live ?s)"
        by (intro outcome_mono[OF reconcile_agrees[of live g ?s]]) auto
      then show ?thesis
        using reconcile_remote[of g live ?s] call assms Inr
        by (cases "reconcile_with g live ?s") (auto simp: reconcile_job_def ask_daemon_def remotely_def split: sum.splits)
    qed (use call assms in \<open>simp add: reconcile_job_def ask_daemon_def remotely_def\<close>)
  qed
qed

end
