(* ===== verification/Spawn_Race.thy ===== *)
theory Spawn_Race
  imports Instance_Laws
begin

text \<open>
  Concurrent spawns of one owner, \<open>spawn_instance\<close> of \<open>api/user.py\<close> up to the commit of the
  reserving row: the query that counts the active rows and the INSERT are two transactions, and
  the workers interleave them. The slot of a challenge stays exclusive because the table is
  UNIQUE in it; the limit on the containers of the owner is checked before, so it can be passed.
\<close>

datatype spawner = Counting | Reserving | Reserved | Turned_away

definition with_row :: "int \<Rightarrow> owner \<Rightarrow> int \<Rightarrow> int \<Rightarrow> site \<Rightarrow> site" where
  "with_row cid ow n x d =
     d\<lparr>st_instances := st_instances d @ [new_row (st_next d) cid ow n x], st_next := st_next d + 1\<rparr>"

inductive spawn_step ::
  "owner \<Rightarrow> ('t \<Rightarrow> int) \<Rightarrow> int \<Rightarrow> site \<times> ('t \<Rightarrow> spawner) \<Rightarrow> site \<times> ('t \<Rightarrow> spawner) \<Rightarrow> bool"
  for ow :: owner and chal :: "'t \<Rightarrow> int" and cap :: int where
  count: "ph t = Counting \<Longrightarrow> int (length (active_of ow d)) < cap \<Longrightarrow>
     spawn_step ow chal cap (d, ph) (d, ph(t := Reserving))"
| over: "ph t = Counting \<Longrightarrow> cap \<le> int (length (active_of ow d)) \<Longrightarrow>
     spawn_step ow chal cap (d, ph) (d, ph(t := Turned_away))"
| insert: "ph t = Reserving \<Longrightarrow> constraints_ok (with_row (chal t) ow n x d) \<Longrightarrow>
     spawn_step ow chal cap (d, ph) (with_row (chal t) ow n x d, ph(t := Reserved))"
| clash: "ph t = Reserving \<Longrightarrow> \<not> constraints_ok (with_row (chal t) ow n x d) \<Longrightarrow>
     spawn_step ow chal cap (d, ph) (d, ph(t := Turned_away))"
| gone: "spawn_step ow chal cap (d, ph) (d\<lparr>st_instances := filter q (st_instances d)\<rparr>, ph)"

definition spawn_runs ::
  "owner \<Rightarrow> ('t \<Rightarrow> int) \<Rightarrow> int \<Rightarrow> site \<times> ('t \<Rightarrow> spawner) \<Rightarrow> site \<times> ('t \<Rightarrow> spawner) \<Rightarrow> bool" where
  "spawn_runs ow chal cap = (spawn_step ow chal cap)\<^sup>*\<^sup>*"

text \<open>The two insert steps are what \<open>reserve\<close> does in a fresh session.\<close>

lemma reserve_steps:
  assumes "now_db s = d" "saved_db s = d"
  shows "case reserve (new_row (st_next d) cid ow n x) s of
      (Inr _, s') \<Rightarrow> constraints_ok (with_row cid ow n x d) \<and> saved_db s' = with_row cid ow n x d
    | (Inl _, s') \<Rightarrow> \<not> constraints_ok (with_row cid ow n x d) \<and> saved_db s' = d"
  using assms
  by (cases "constraints_ok (with_row cid ow n x d)")
    (auto simp: reserve_def commit_def flush_def edit_def with_row_def rollback_def Let_def split: option.split)

section \<open>The bound\<close>

definition reserving :: "('t \<Rightarrow> spawner) \<Rightarrow> 't set" where
  "reserving ph = {t. ph t = Reserving}"

lemma active_with_row: "length (active_of ow (with_row cid ow n x d)) = Suc (length (active_of ow d))"
  by (simp add: active_of_def with_row_def new_row_def live_status_def)

lemma active_filter: "length (active_of ow (d\<lparr>st_instances := filter q (st_instances d)\<rparr>)) \<le> length (active_of ow d)"
proof -
  have "active_of ow (d\<lparr>st_instances := filter q (st_instances d)\<rparr>) = filter q (active_of ow d)"
    by (simp add: active_of_def conj_commute conj_left_commute)
  then show ?thesis by simp
qed

text \<open>Rows plus threads about to insert one: a thread joins them only below the limit.\<close>

lemma spawn_step_bound:
  fixes chal :: "'t::finite \<Rightarrow> int"
  assumes "spawn_step ow chal cap (d, ph) (d', ph')"
    and "int (length (active_of ow d) + card (reserving ph)) \<le> max b (cap - 1 + int (card (UNIV :: 't set)))"
  shows "int (length (active_of ow d') + card (reserving ph')) \<le> max b (cap - 1 + int (card (UNIV :: 't set)))"
  using assms(1)
proof cases
  case (count t)
  have "card (reserving ph') \<le> card (UNIV :: 't set)" by (rule card_mono) simp_all
  then show ?thesis using count by simp
next
  case (over t)
  then have "reserving ph' = reserving ph" by (auto simp: reserving_def)
  then show ?thesis using over assms(2) by simp
next
  case (insert t n x)
  then have "reserving ph = Set.insert t (reserving ph')" "t \<notin> reserving ph'" by (auto simp: reserving_def)
  then have "card (reserving ph) = Suc (card (reserving ph'))" by simp
  then show ?thesis using insert assms(2) by (simp add: active_with_row)
next
  case (clash t n x)
  then have "card (reserving ph') \<le> card (reserving ph)" by (intro card_mono) (auto simp: reserving_def)
  then show ?thesis using clash assms(2) by simp
next
  case (gone q)
  then show ?thesis using active_filter[of ow q d] assms(2) by simp
qed

lemma spawn_runs_bound:
  fixes chal :: "'t::finite \<Rightarrow> int"
  assumes "spawn_runs ow chal cap (d, \<lambda>_. Counting) (d', ph)" "int (length (active_of ow d)) \<le> cap"
  shows "int (length (active_of ow d')) \<le> max cap (cap - 1 + int (card (UNIV :: 't set)))"
proof -
  have "int (length (active_of ow d') + card (reserving ph)) \<le> max cap (cap - 1 + int (card (UNIV :: 't set)))"
    using assms(1) unfolding spawn_runs_def
  proof (induction "(d', ph)" arbitrary: d' ph rule: rtranclp_induct)
    case base
    then show ?case using assms(2) by (simp add: reserving_def)
  next
    case (step s)
    obtain d1 ph1 where s: "s = (d1, ph1)" by (cases s)
    show ?case by (rule spawn_step_bound[OF step(2)[unfolded s] step(3)[OF s]])
  qed
  then show ?thesis by simp
qed

section \<open>Exclusive slots\<close>

lemma filter_unique: "instances_unique d \<Longrightarrow> instances_unique (d\<lparr>st_instances := filter q (st_instances d)\<rparr>)"
proof -
  have "List.map_filter f (filter q xs) = filter (\<lambda>_. True) (List.map_filter (\<lambda>x. if q x then f x else None) xs)"
    for f :: "edo_instance \<Rightarrow> string option" and xs
    by (induction xs) (auto simp: List.map_filter_simps split: option.split)
  moreover have "distinct (List.map_filter (\<lambda>x. if q x then f x else None) xs)" if "distinct (List.map_filter f xs)"
    for f :: "edo_instance \<Rightarrow> string option" and xs
  proof -
    have "set (List.map_filter (\<lambda>x. if q x then f x else None) xs) \<subseteq> set (List.map_filter f xs)" for xs
      by (induction xs) (auto simp: List.map_filter_simps split: option.split)
    then show ?thesis using that
      by (induction xs) (auto simp: List.map_filter_simps split: option.splits if_splits)
  qed
  ultimately show "instances_unique d \<Longrightarrow> ?thesis" by (simp add: instances_unique_def map_filter_distinct)
qed

lemma slots_exclusive:
  "spawn_runs ow chal cap s s' \<Longrightarrow> instances_unique (fst s) \<Longrightarrow> instances_unique (fst s')"
  unfolding spawn_runs_def
proof (induction rule: rtranclp_induct)
  case (step s1 s2)
  have "instances_unique (fst s1)" by (rule step.IH[OF step.prems])
  with step(2) show ?case by cases (auto simp: constraints_ok_def filter_unique)
qed simp

end
