(* ===== verification/Sample_Site.thy ===== *)
theory Sample_Site
  imports Plugin_Daemon Spawn_Race Sample_World
begin

text \<open>
  A small site at which the properties of the plugin are applied: two players, one challenge with
  two flags, the rows of two instances, a revoked peer; a plugin whose daemon is down, and one
  that is linked to the daemon of \<open>Sample_World\<close>.
\<close>

section \<open>Rows\<close>

definition ann :: user_row where
  "ann = \<lparr>ur_id = 3, ur_name = ''ann'', ur_team = None, ur_banned = False, ur_hidden = False\<rparr>"

definition bob :: user_row where
  "bob = \<lparr>ur_id = 4, ur_name = ''bob'', ur_team = None, ur_banned = False, ur_hidden = False\<rparr>"

definition web_challenge :: challenge_row where
  "web_challenge =
     \<lparr>cg_id = 1,
      cg_cols = [(''name'', JStr ''web''), (''build_path'', JStr ''/srv/web''), (''difficulty'', JStr ''medium''),
        (''scoring_mode'', JStr ''dynamic''), (''initial_value'', JInt 500), (''minimum_value'', JInt 100), (''decay'', JInt 4),
        (''read_only_rootfs'', JBool False), (''access_mode'', JStr ''vpn'')]\<rparr>"

definition first_flag :: flag_row where
  "first_flag = \<lparr>fl_id = 10, fl_challenge = 1, fl_type = ''static'', fl_content = ''flag-a''\<rparr>"

definition second_flag :: flag_row where
  "second_flag = \<lparr>fl_id = 11, fl_challenge = 1, fl_type = ''static'', fl_content = ''flag-b''\<rparr>"

definition ann_instance :: edo_instance where
  "ann_instance = (new_row 5 1 (''user'', 3) 0 1000)\<lparr>ei_container := Some ''c1'', ei_status := ''running''\<rparr>"

definition bob_instance :: edo_instance where
  "bob_instance = (new_row 6 1 (''user'', 4) 0 9000000)\<lparr>ei_container := Some ''c2'', ei_status := ''running''\<rparr>"

definition bob_peer :: edo_peer where
  "bob_peer =
     \<lparr>ep_user = 4, ep_owner = (''user'', 4), ep_public = ''a2V5'', ep_private = None, ep_ip = ''10.8.0.2'', ep_revoked = True\<rparr>"

text \<open>Ann has found the first of the two flags.\<close>

definition small_site :: site where
  "small_site =
     \<lparr>st_users = [ann, bob], st_teams = [], st_flags = [first_flag, second_flag], st_solves = [], st_fails = [],
      st_challenges = [web_challenge], st_weights = [\<lparr>fw_flag = 10, fw_pct = 40\<rparr>, \<lparr>fw_flag = 11, fw_pct = 60\<rparr>],
      st_finds = [\<lparr>fs_challenge = 1, fs_flag = 10, fs_owner = (''user'', 3)\<rparr>],
      st_instances = [ann_instance, bob_instance], st_peers = [bob_peer], st_audit = [], st_settings = [], st_next = 7\<rparr>"

definition small_ctf :: "'w \<Rightarrow> 'w ctf" where
  "small_ctf w = \<lparr>now_db = small_site, saved_db = small_site, remote = w, limits = (\<lambda>_. [])\<rparr>"

definition small_state :: "'w \<Rightarrow> 'w site_state" where
  "small_state w = \<lparr>site_of = small_ctf w, leases = Map.empty\<rparr>"

lemma small_sel [simp]:
  "now_db (small_ctf w) = small_site" "saved_db (small_ctf w) = small_site" "remote (small_ctf w) = w"
  "site_of (small_state w) = small_ctf w"
  by (simp_all add: small_ctf_def small_state_def)

lemma small_tables:
  "st_users small_site = [ann, bob]" "st_teams small_site = []" "st_flags small_site = [first_flag, second_flag]"
  "st_solves small_site = []" "st_challenges small_site = [web_challenge]"
  "st_finds small_site = [\<lparr>fs_challenge = 1, fs_flag = 10, fs_owner = (''user'', 3)\<rparr>]"
  "st_instances small_site = [ann_instance, bob_instance]" "st_peers small_site = [bob_peer]" "st_settings small_site = []"
  "st_next small_site = 7"
  by (simp_all add: small_site_def)

lemma small_rows [simp]:
  "ei_id ann_instance = 5" "ei_id bob_instance = 6" "ei_owner ann_instance = (''user'', 3)" "ei_owner bob_instance = (''user'', 4)"
  "ei_challenge ann_instance = 1" "ei_challenge bob_instance = 1" "live_status ann_instance" "live_status bob_instance"
  "ei_expires ann_instance = 1000" "ei_expires bob_instance = 9000000"
  "fl_id first_flag = 10" "fl_id second_flag = 11" "fl_challenge first_flag = 1" "fl_challenge second_flag = 1"
  "fl_content first_flag = ''flag-a''" "fl_content second_flag = ''flag-b''" "cg_id web_challenge = 1" "ur_id ann = 3" "ur_id bob = 4"
  by (simp_all add: ann_instance_def bob_instance_def new_row_def live_status_def first_flag_def second_flag_def
      web_challenge_def ann_def bob_def)

lemma small_records: "records_ok small_site"
  by (simp add: records_ok_def ids_ok_def weights_ok_def finds_ok_def small_tables) (simp add: small_site_def)

lemma small_constraints: "constraints_ok small_site"
proof -
  have "challenges_filled small_site"
    by (simp add: challenges_filled_def NOT_NULL_def small_tables col_def web_challenge_def)
  moreover have "instances_unique small_site"
    by (simp add: instances_unique_def small_tables slot_of_def) (simp add: List.map_filter_simps ann_instance_def bob_instance_def)
  ultimately show ?thesis
    by (simp add: constraints_ok_def peers_unique_def small_tables) (simp add: small_site_def)
qed

lemma small_settled: "settled (small_ctf w)"
  by (simp add: settled_def small_constraints small_records)

section \<open>Plugins\<close>

text \<open>A client whose socket is missing, and floats written as they are.\<close>

definition offline_client :: "'w client" where
  "offline_client =
     \<lparr>socket_path = ''/run/edo/edo.sock'', rpc_timeout = 180, exchange = (\<lambda>_ w. (Inl (FileNotFoundError ''edo.sock''), w)),
      unix_time = (\<lambda>_. 0), repr_of = (\<lambda>_. [])\<rparr>"

definition sample_plugin :: "'w client \<Rightarrow> 'w plugin" where
  "sample_plugin c =
     \<lparr>rpc = c, utcnow = (\<lambda>_. 5000), monotonic = (\<lambda>_. 0), teams_mode = False,
      compare_flag = (\<lambda>f t. fl_content f = t), float_trunc = (\<lambda>_. Inl (ValueError ''float'')),
      to_float = (\<lambda>_. Inr ''1.0''), isoformat = (\<lambda>_. ''1970-01-01T00:00:00''), core_defaults = [(''value'', JInt 0)]\<rparr>"

lemma sample_plugin_sel [simp]:
  "rpc (sample_plugin c) = c" "clock_now (sample_plugin c) s = 5000" "\<not> teams_mode (sample_plugin c)"
  "compare_flag (sample_plugin c) f t = (fl_content f = t)" "core_defaults (sample_plugin c) = [(''value'', JInt 0)]"
  by (simp_all add: sample_plugin_def clock_now_def)

lemma sample_floats: "float_literals (sample_plugin c)"
proof -
  have "literal ''1.0''" by code_simp
  then show ?thesis by (simp add: float_literals_def sample_plugin_def)
qed

lemma exact_rounding: "float_rounding id"
  by (simp add: float_rounding_def)

text \<open>Ann submits the second flag.\<close>

definition ann_request :: request where
  "ann_request =
     \<lparr>rq_user = Some ann, rq_team = None, rq_form = [(''submission'', ''flag-b'')], rq_json = Inr JNull, rq_ip = ''192.0.2.1''\<rparr>"

lemma ann_owner: "resolve_owner (sample_plugin c) ann_request = Some (''user'', 3)"
  by (simp add: resolve_owner_def ann_request_def)

section \<open>A spawn over the link\<close>

text \<open>
  The daemon on the simulated machine already runs the container of Ann's challenge, which is what
  its handler finds; the plugin's table of instances is empty.
\<close>

definition web_inst :: inst where
  "web_inst = sample_inst\<lparr>inst_owner := (''user'', 3), challenge_ref := ''1''\<rparr>"

definition web_db :: db where
  "web_db = empty_db\<lparr>instances := [web_inst], inst_seq := 1\<rparr>"

definition web_daemon :: "chains daemon" where
  "web_daemon = \<lparr>store = web_db, world = fresh_chains, client_cached = True, buildkit_ok = None\<rparr>"

lemma sim_rebuild_web:
  "\<exists>s'. rebuild_firewall (sample_service sim_host no_files) web_daemon = (Inr (), s') \<and> store s' = web_db"
proof -
  have db: "peers_grouped_by_owner web_db = Map.empty" "octets_by_owner web_db = []"
    by (simp_all add: peers_grouped_by_owner_def get_all_peers_def octets_by_owner_def get_all_owner_octets_def empty_db_def web_db_def)
  show ?thesis
    using sim_firewall by (auto simp: rebuild_firewall_def on_world_def sample_service_def sample_machine_def web_daemon_def db)
qed

definition web_security :: json where
  "web_security = JObj [(''cpus'', JFloat ''1.0''), (''memory'', JStr ''512m''), (''pids_limit'', JInt 256), (''read_only_rootfs'', JBool False)]"

lemma web_security_of: "security_of (sample_plugin c) web_challenge = Inr web_security"
  by (simp add: security_of_def web_challenge_def col_def int_or_def str_int_def str_nat.simps web_security_def digit_char_def) code_simp

abbreviation (input) web_params :: json where
  "web_params \<equiv> spawn_params (''user'', 3) ''1'' ''/srv/web'' web_security (Some 3600) False"

lemma web_request_of: "\<exists>q. request_of v (or_empty (sort_json (or_empty web_params))) = Inr q"
  by (simp add: spawn_params_def or_empty_def request_of_def obj_get_def owner_param_def param_def text_param_def
      int_param_def json_int_def py_str_def web_security_def profile_of_def text_list_def opt_param_def number_param_def exact_int_def opt_int_def)

definition web_answer :: json where
  "web_answer = JObj [(''container_id'', JStr ''c1''), (''container_name'', JStr ''edo_web_team_7''),
     (''assigned_ip'', JStr ''10.9.1.2''), (''ports'', JList []), (''published_ports'', JObj []),
     (''expires_at'', JNull), (''status'', JStr ''running'')]"

lemma web_reply: "spawn_reply web_inst = Inr web_answer"
proof -
  have "loads (dumps '', '' '': '' (JList [])) = Inr (JList [])" by (rule loads_dumps) (simp_all add: seps_def json_space_def)
  then show ?thesis
    by (simp add: spawn_reply_def web_inst_def sample_inst_def column_def web_answer_def opt_text_def)
qed

lemma web_handler:
  "\<exists>s'. handle_container_ensure_instance (sample_service sim_host no_files) (or_empty (sort_json (or_empty web_params))) web_daemon
     = (Inr web_answer, s') \<and> store s' = web_db"
proof -
  let ?v = "sample_service sim_host no_files" and ?p = "or_empty (sort_json (or_empty web_params))"
  obtain q where q: "request_of ?v ?p = Inr q" using web_request_of by blast
  note qf = request_of_params[OF q]
  have "find_instance (sr_owner q) (sr_challenge q) web_db = Some web_inst"
    using qf by (simp add: find_instance_def web_db_def) (simp add: web_inst_def)
  then have run: "spawn_instance (machine_of ?v) q web_daemon = (Inr (spawned web_inst), web_daemon)"
    by (simp add: spawn_instance_def web_daemon_def)
  show ?thesis
    using sim_rebuild_web web_reply
    by (auto simp: handle_container_ensure_instance_def q run)
qed

lemma web_call:
  "\<exists>s'. container_ensure_instance (unix_link n (sample_service sim_host no_files) 0) (''user'', 3) ''1'' ''/srv/web'' web_security (Some 3600) False web_daemon
     = (Inr web_answer, s') \<and> store s' = web_db"
proof -
  let ?v = "sample_service sim_host no_files"
  obtain s' where run: "handle_container_ensure_instance ?v (or_empty (sort_json (or_empty web_params))) web_daemon = (Inr web_answer, s')"
    "store s' = web_db" using web_handler by blast
  have lit: "literal ''1.0''" by code_simp
  have wf: "wf_json web_params" using lit by (simp add: spawn_params_def web_security_def or_empty_def opt_int_def)
  have len: "length (request_text ''container.ensure_instance'' web_params (unix_time (unix_link n ?v 0) web_daemon)) \<le> MAX_REQUEST"
    by (simp add: request_text_def request_json_def unix_link_def or_empty_def dump_str_def esc_char_def str_int_def
        str_nat.simps MAX_REQUEST_def spawn_params_def web_security_def opt_int_def)
  have fit: "fits [(''ok'', JBool True), (''result'', web_answer)]"
    by (simp add: fits_def dump_str_def esc_char_def MAX_RESPONSE_def web_answer_def)
  have "rpc_call (unix_link n ?v 0) ''container.ensure_instance'' web_params web_daemon = (Inr web_answer, s')"
    using unix.call_answered[where r = "Inr web_answer" and handler = "handle_container_ensure_instance ?v" and v = ?v and n = n, OF _ _ wf len run(1)] fit by (simp add: authorized_def METHODS_def)
  then show ?thesis using run(2) by (simp add: container_ensure_instance_def spawn_params_def)
qed

definition open_site :: site where
  "open_site = small_site\<lparr>st_instances := []\<rparr>"

definition open_ctf :: "chains daemon ctf" where
  "open_ctf = \<lparr>now_db = open_site, saved_db = open_site, remote = web_daemon, limits = (\<lambda>_. [])\<rparr>"

lemma open_settled: "settled open_ctf"
  using small_constraints small_records
  by (simp add: settled_def open_ctf_def open_site_def constraints_ok_def instances_unique_def peers_unique_def
      challenges_filled_def records_ok_def ids_ok_def weights_ok_def finds_ok_def List.map_filter_simps)

lemma web_row_constraints:
  "constraints_ok (open_site\<lparr>st_instances := [i], st_next := k\<rparr>)" "constraints_ok (open_site\<lparr>st_instances := [i], st_audit := as, st_next := k\<rparr>)"
  using small_constraints
  by (auto simp: constraints_ok_def open_site_def instances_unique_def peers_unique_def challenges_filled_def List.map_filter_simps split: option.split)

lemma web_spawned:
  "\<exists>j s'. spawn_route (sample_plugin (unix_link n (sample_service sim_host no_files) 0)) 1 (''user'', 3) open_ctf = (Inr (Answer 200 j), s')"
proof -
  let ?g = "sample_plugin (unix_link n (sample_service sim_host no_files) 0)"
  obtain w where call: "container_ensure_instance (rpc ?g) (''user'', 3) ''1'' ''/srv/web'' web_security (Some 3600) False web_daemon
     = (Inr web_answer, w)" using web_call[of n] by auto
  have one: "str_int 1 = ''1''" by code_simp
  have settings: "setting_or k n open_site = n" for k n
    by (simp add: setting_or_def setting_int_def setting_row_def open_site_def small_tables)
  have ch: "challenge_by_id 1 open_site = Some web_challenge"
    by (simp add: challenge_by_id_def open_site_def small_tables)
  have cols: "col ''build_path'' web_challenge = JStr ''/srv/web''" "col ''access_mode'' web_challenge = JStr ''vpn''"
    by (simp_all add: col_def web_challenge_def)
  have ttl: "ttl_of web_challenge open_site = 3600"
    by (simp add: ttl_of_def settings int_or_def col_def web_challenge_def DEFAULT_CONTAINER_TTL_SECONDS_def)
  let ?i = "new_row (st_next open_site) 1 (''user'', 3) 5000 (5000 + micros 3600)"
  let ?d = "open_site\<lparr>st_instances := [?i], st_next := st_next open_site + 1\<rparr>"
  let ?s = "open_ctf\<lparr>now_db := ?d, saved_db := ?d\<rparr>"
  have ctf: "now_db open_ctf = open_site" "saved_db open_ctf = open_site" "remote open_ctf = web_daemon" "st_instances open_site = []"
    by (simp_all add: open_ctf_def open_site_def)
  have chal: "ei_challenge ?i = 1" by (simp add: new_row_def)
  have res: "reserve ?i open_ctf = (Inr (), ?s)"
    using web_row_constraints(1)[where i = ?i and k = "st_next open_site + 1"] by (simp add: reserve_def commit_def flush_def edit_def ctf)
  obtain i' where i': "fill_row web_answer ?i = Inr i'" "ei_id i' = ei_id ?i"
    by (auto simp: fill_row_def web_answer_def obj_get_def text_column_def)
  have fin: "\<exists>j s'. spawn_done ?g ?i web_answer (?s\<lparr>remote := w\<rparr>) = (Inr (Answer 200 j), s')"
    using i' web_row_constraints(2)
    by (simp add: spawn_done_def ok_json_def commit_def flush_def audit_def audit_entry_def edit_def put_instance_def)
  have "spawn_route ?g 1 (''user'', 3) open_ctf = spawn_row ?g web_challenge (''user'', 3) 3600 ?i open_ctf"
    by (simp add: spawn_route_def ctf ch cols ttl max_containers_def settings active_of_def DEFAULT_MAX_CONTAINERS_PER_OWNER_def Let_def)
  also have "\<dots> = spawn_done ?g ?i web_answer (?s\<lparr>remote := w\<rparr>)"
    using call by (simp add: spawn_row_def res web_security_of cols ask_daemon_def remotely_def ctf chal one)
  finally show ?thesis using fin by simp
qed

end
