(* ===== verification/Rebuild_Race.thy ===== *)
theory Rebuild_Race
  imports Daemon_Laws Iptables_Machine
begin

text \<open>
  Concurrent rebuilds of the firewall. \<open>_rebuild_firewall\<close> reads the peers, then the octets, and then
  runs \<open>apply_firewall\<close>; nothing keeps other threads from changing the tables, or from rebuilding, in
  between. The reads and the application are steps here (the commands of one application stay
  together), and so are the writes of the other threads. Whatever the order, the chain in the kernel
  keeps the containers apart; but it may be that of tables which no longer hold.
\<close>

section \<open>Steps\<close>

datatype rebuilder =
    Idle_thread
  | Peers_read "owner \<Rightarrow> string list option"
  | Tables_read "owner \<Rightarrow> string list option" "(owner \<times> int) list"

text \<open>
  \<open>rb_last\<close>: the interface and the tables of the last application when it returned, none when it raised.
\<close>

type_synonym tables = "(owner \<Rightarrow> string list option) \<times> (owner \<times> int) list"

record ('w, 't) rebuilds =
  rb_daemon :: "'w daemon"
  rb_threads :: "'t \<Rightarrow> rebuilder"
  rb_last :: "(string \<times> tables) option"

definition apply_tables :: "'w service \<Rightarrow> tables \<Rightarrow> ('w daemon, apply_result) act" where
  "apply_tables v tb = on_world (apply_firewall (host_of (machine_of v)) (fst tb) (snd tb) (vpn_port v))"

definition last_of :: "tables \<Rightarrow> exc + apply_result \<Rightarrow> (string \<times> tables) option" where
  "last_of tb r = (case r of Inl _ \<Rightarrow> None | Inr res \<Rightarrow> Some (public_interface res, tb))"

text \<open>
  Other threads write to the tables, which keep their constraints, and to the rest of the machine, but
  not to the chains of iptables.
\<close>

inductive rebuild_step ::
  "'w service \<Rightarrow> ('w \<Rightarrow> chains) \<Rightarrow> ('w, 't) rebuilds \<Rightarrow> ('w, 't) rebuilds \<Rightarrow> bool"
  for v :: "'w service" and ch :: "'w \<Rightarrow> chains" where
  others: "db_ok (store s') \<Longrightarrow> ch (world s') = ch (world (rb_daemon b)) \<Longrightarrow>
     rebuild_step v ch b (b\<lparr>rb_daemon := s'\<rparr>)"
| peers_read: "rb_threads b t = Idle_thread \<Longrightarrow>
     rebuild_step v ch b (b\<lparr>rb_threads := (rb_threads b)(t := Peers_read (peers_grouped_by_owner (store (rb_daemon b))))\<rparr>)"
| octets_read: "rb_threads b t = Peers_read ps \<Longrightarrow>
     rebuild_step v ch b (b\<lparr>rb_threads := (rb_threads b)(t := Tables_read ps (octets_by_owner (store (rb_daemon b))))\<rparr>)"
| applied: "rb_threads b t = Tables_read ps os \<Longrightarrow> apply_tables v (ps, os) (rb_daemon b) = (r, s') \<Longrightarrow>
     rebuild_step v ch b
       \<lparr>rb_daemon = s', rb_threads = (rb_threads b)(t := Idle_thread),
        rb_last = last_of (ps, os) r\<rparr>"

definition rebuild_runs ::
  "'w service \<Rightarrow> ('w \<Rightarrow> chains) \<Rightarrow> ('w, 't) rebuilds \<Rightarrow> ('w, 't) rebuilds \<Rightarrow> bool" where
  "rebuild_runs v ch = (rebuild_step v ch)\<^sup>*\<^sup>*"

text \<open>A rebuild that nothing interrupts is the three steps in a row.\<close>

lemma rebuild_is_apply:
  "rebuild_firewall v s =
     and_then (apply_tables v (peers_grouped_by_owner (store s), octets_by_owner (store s)) s) (\<lambda>_ s. (Inr (), s))"
  by (simp add: rebuild_firewall_def apply_tables_def)

lemma apply_tables_store: "apply_tables v tb s = (r, s') \<Longrightarrow> store s' = store s"
  by (auto simp: apply_tables_def on_world_def split: prod.splits)

lemma apply_in_steps:
  assumes "rb_threads b t = Idle_thread"
    and "apply_tables v (peers_grouped_by_owner (store (rb_daemon b)), octets_by_owner (store (rb_daemon b))) (rb_daemon b) = (r, s')"
  shows "rebuild_runs v ch b
    \<lparr>rb_daemon = s', rb_threads = rb_threads b,
     rb_last = last_of (peers_grouped_by_owner (store (rb_daemon b)), octets_by_owner (store (rb_daemon b))) r\<rparr>"
proof -
  let ?ps = "peers_grouped_by_owner (store (rb_daemon b))" and ?os = "octets_by_owner (store (rb_daemon b))"
  let ?b1 = "b\<lparr>rb_threads := (rb_threads b)(t := Peers_read ?ps)\<rparr>"
  let ?b2 = "?b1\<lparr>rb_threads := (rb_threads ?b1)(t := Tables_read ?ps (octets_by_owner (store (rb_daemon ?b1))))\<rparr>"
  let ?b3 = "\<lparr>rb_daemon = s', rb_threads = (rb_threads ?b2)(t := Idle_thread), rb_last = last_of (?ps, ?os) r\<rparr>"
  have one: "rebuild_step v ch b ?b1" by (rule peers_read) (rule assms(1))
  have two: "rebuild_step v ch ?b1 ?b2" by (rule octets_read) simp
  have three: "rebuild_step v ch ?b2 ?b3" by (rule applied) (use assms(2) in simp_all)
  have "rb_threads ?b3 = rb_threads b" using assms(1) by (simp add: fun_upd_idem)
  then show ?thesis
    unfolding rebuild_runs_def using three_steps[of "rebuild_step v ch", OF one two three] by simp
qed

section \<open>What the chain holds\<close>

text \<open>Peers and octets may come from different moments: each is a table of some state of the database.\<close>

definition some_tables :: "tables \<Rightarrow> bool" where
  "some_tables tb \<longleftrightarrow>
     (\<exists>d d'. db_ok d \<and> db_ok d' \<and> fst tb = peers_grouped_by_owner d \<and> snd tb = octets_by_owner d')"

interpretation mixed: firewall_source "\<lambda>(d, d'). db_ok d \<and> db_ok d'"
  "\<lambda>(d, d'). peers_grouped_by_owner d" "\<lambda>(d, d'). octets_by_owner d'"
proof
  fix s :: "db \<times> db" and key key' :: owner and k k' :: int and ip :: string
  assume s: "case s of (d, d') \<Rightarrow> db_ok d \<and> db_ok d'"
  obtain d d' where s': "s = (d, d')" "db_ok d" "db_ok d'" using s by (cases s) auto
  show "(key, k) \<in> set (case s of (d, d') \<Rightarrow> octets_by_owner d') \<Longrightarrow> 1 \<le> k \<and> k \<le> 254"
    using fwdb.octet_range[OF s'(3)] s'(1) by auto
  show "(key, k) \<in> set (case s of (d, d') \<Rightarrow> octets_by_owner d') \<Longrightarrow>
      (key', k) \<in> set (case s of (d, d') \<Rightarrow> octets_by_owner d') \<Longrightarrow> key = key'"
    using fwdb.octet_owner[OF s'(3)] s'(1) by auto
  show "(key, k) \<in> set (case s of (d, d') \<Rightarrow> octets_by_owner d') \<Longrightarrow>
      (key, k') \<in> set (case s of (d, d') \<Rightarrow> octets_by_owner d') \<Longrightarrow> k = k'"
    using fwdb.octet_unique[OF s'(3)] s'(1) by auto
  show "ip \<in> set (get_peers (case s of (d, d') \<Rightarrow> peers_grouped_by_owner d) key) \<Longrightarrow>
      \<exists>a. in_net a WG_SUBNET \<and> ip = ip_str a"
    using fwdb.peer_addr[OF s'(2)] s'(1) by auto
  show "ip \<in> set (get_peers (case s of (d, d') \<Rightarrow> peers_grouped_by_owner d) key) \<Longrightarrow>
      ip \<in> set (get_peers (case s of (d, d') \<Rightarrow> peers_grouped_by_owner d) key') \<Longrightarrow> key = key'"
    using fwdb.peer_owner[OF s'(2)] s'(1) by auto
qed

lemma some_tables_wf: "some_tables tb \<Longrightarrow> wf_inputs (fst tb) (snd tb)"
  using mixed.inputs_ok by (fastforce simp: some_tables_def)

lemma some_tables_isolate:
  assumes "some_tables tb" "documented_match rm" "plain_iface i" "wf_packet p"
    and "in_net (pkt_src p) DOCKER_POOL" "in_net (pkt_dst p) DOCKER_POOL"
  shows "policy i (fst tb) (snd tb) p = Dropped"
proof -
  obtain d d' where d: "db_ok d" "db_ok d'" "fst tb = peers_grouped_by_owner d" "snd tb = octets_by_owner d'"
    using assms(1) by (auto simp: some_tables_def)
  have "chain_decision rm i (fst tb) (snd tb) p = Dropped"
    using mixed.containers_isolated[of rm i "(d, d')" p] assms(2-6) d by simp
  then show ?thesis
    using chain_decision_policy[OF assms(2,3) some_tables_wf[OF assms(1)] assms(4)] by simp
qed

definition reads_ok :: "rebuilder \<Rightarrow> bool" where
  "reads_ok r =
     (case r of
        Idle_thread \<Rightarrow> True
      | Peers_read ps \<Rightarrow> \<exists>d. db_ok d \<and> ps = peers_grouped_by_owner d
      | Tables_read ps os \<Rightarrow> some_tables (ps, os))"

definition chain_holds :: "chains \<Rightarrow> string \<Rightarrow> tables \<Rightarrow> bool" where
  "chain_holds chs i tb \<longleftrightarrow> some_tables tb \<and>
     (\<exists>rules. build_chain_rules i (fst tb) (snd tb) = Inr rules \<and> edo_installed chs (map tl rules))"

definition rebuilds_ok :: "('w \<Rightarrow> chains) \<Rightarrow> ('w, 't) rebuilds \<Rightarrow> bool" where
  "rebuilds_ok ch b \<longleftrightarrow> db_ok (store (rb_daemon b)) \<and> (\<forall>t. reads_ok (rb_threads b t)) \<and>
     (\<forall>i tb. rb_last b = Some (i, tb) \<longrightarrow> chain_holds (ch (world (rb_daemon b))) i tb)"

lemma apply_tables_installs:
  assumes "iptables_ok (host_of (machine_of v)) ch" "no_firewalld (host_of (machine_of v))"
    and "apply_tables v tb s = (Inr res, s')" "some_tables tb"
  shows "chain_holds (ch (world s')) (public_interface res) tb"
proof -
  have "apply_firewall (host_of (machine_of v)) (fst tb) (snd tb) (vpn_port v) (world s) = (Inr res, world s')"
    using assms(3) by (auto simp: apply_tables_def on_world_def split: prod.splits)
  from apply_firewall_installs[OF assms(1,2) this] show ?thesis using assms(4) by (auto simp: chain_holds_def)
qed

lemma rebuild_step_ok:
  assumes "iptables_ok (host_of (machine_of v)) ch" "no_firewalld (host_of (machine_of v))"
    and "rebuild_step v ch b b'" "rebuilds_ok ch b"
  shows "rebuilds_ok ch b'"
  using assms(3)
proof cases
  case (others s')
  then show ?thesis using assms(4) by (simp add: rebuilds_ok_def)
next
  case (peers_read t)
  then show ?thesis using assms(4) by (auto simp: rebuilds_ok_def reads_ok_def)
next
  case (octets_read t ps)
  then have "\<exists>d. db_ok d \<and> ps = peers_grouped_by_owner d"
    using assms(4) by (auto simp: rebuilds_ok_def reads_ok_def dest: spec[of _ t])
  then have "some_tables (ps, octets_by_owner (store (rb_daemon b)))"
    using assms(4) by (auto simp: some_tables_def rebuilds_ok_def)
  then show ?thesis using octets_read assms(4) by (simp add: rebuilds_ok_def reads_ok_def)
next
  case (applied t ps os r s')
  have tables: "some_tables (ps, os)"
    using applied(2) assms(4) by (auto simp: rebuilds_ok_def reads_ok_def dest: spec[of _ t])
  have "chain_holds (ch (world s')) i tb" if "last_of (ps, os) r = Some (i, tb)" for i tb
    using apply_tables_installs[OF assms(1,2) _ tables] applied(3) that by (auto simp: last_of_def split: sum.splits)
  then show ?thesis
    using applied(1) assms(4) apply_tables_store[OF applied(3)]
    by (auto simp: rebuilds_ok_def reads_ok_def)
qed

lemma rebuild_runs_ok:
  assumes "iptables_ok (host_of (machine_of v)) ch" "no_firewalld (host_of (machine_of v))"
    and "rebuild_runs v ch b b'" "rebuilds_ok ch b"
  shows "rebuilds_ok ch b'"
  using assms(3) unfolding rebuild_runs_def
  by (induction rule: rtranclp_induct) (use assms(4) rebuild_step_ok[OF assms(1,2)] in auto)

text \<open>The verdict of the chain on a packet is the policy of the tables that were applied last.\<close>

lemma held_verdict:
  assumes "chain_holds chs i tb" "documented_match rm" "plain_iface i"
  shows "\<exists>specs target rs. chs EDO_CHAIN = Some specs \<and> target \<in> set FORWARD_HOOK_CANDIDATES \<and>
     chs target = Some ([''-j'', EDO_CHAIN] # rs) \<and>
     (\<forall>p. wf_packet p \<longrightarrow> decision_of (chain_verdict rm specs p) = policy i (fst tb) (snd tb) p)"
proof -
  obtain rules where r: "build_chain_rules i (fst tb) (snd tb) = Inr rules" "edo_installed chs (map tl rules)"
    and tb: "some_tables tb"
    using assms(1) by (auto simp: chain_holds_def)
  have "decision_of (chain_verdict rm (append_new [] (map tl rules)) p) = policy i (fst tb) (snd tb) p"
    if "wf_packet p" for p
    using verdict_is_policy[OF assms(2,3) some_tables_wf[OF tb] that r(1)] by (simp add: append_new_verdict)
  then show ?thesis using r(2) unfolding edo_installed_def by fast
qed

section \<open>Tables that no longer hold\<close>

text \<open>
  A thread reads the tables, in which the octet \<open>k\<close> belongs to the owner of the peer \<open>q\<close>. The octet is freed
  and given to another owner, whose rebuild runs; then the first thread applies what it read. All is
  quiet, and the chain lets \<open>q\<close> into the subnet of the other owner.
\<close>

lemma stale_tables:
  assumes "iptables_ok (host_of (machine_of v)) ch" "no_firewalld (host_of (machine_of v))"
    and "rebuilds_ok ch b" "rb_threads b t = Idle_thread" "rb_threads b u = Idle_thread" "t \<noteq> u" "db_ok d"
    and "apply_tables v (peers_grouped_by_owner d, octets_by_owner d) ((rb_daemon b)\<lparr>store := d\<rparr>) = (Inr r1, s1)"
    and "apply_tables v (peers_grouped_by_owner (store (rb_daemon b)), octets_by_owner (store (rb_daemon b))) s1 = (Inr r2, s2)"
  shows "\<exists>b'. rebuild_runs v ch b b' \<and> rb_threads b' = rb_threads b \<and> store (rb_daemon b') = d \<and> rebuilds_ok ch b' \<and>
    rb_last b' = Some (public_interface r2, peers_grouped_by_owner (store (rb_daemon b)), octets_by_owner (store (rb_daemon b)))"
proof -
  let ?s = "rb_daemon b" and ?ps = "peers_grouped_by_owner (store (rb_daemon b))" and ?os = "octets_by_owner (store (rb_daemon b))"
  let ?b1 = "b\<lparr>rb_threads := (rb_threads b)(t := Peers_read ?ps)\<rparr>"
  let ?b2 = "?b1\<lparr>rb_threads := (rb_threads ?b1)(t := Tables_read ?ps (octets_by_owner (store (rb_daemon ?b1))))\<rparr>"
  let ?b3 = "?b2\<lparr>rb_daemon := ?s\<lparr>store := d\<rparr>\<rparr>"
  let ?b4 = "\<lparr>rb_daemon = s1, rb_threads = rb_threads ?b3, rb_last = last_of (peers_grouped_by_owner d, octets_by_owner d) (Inr r1)\<rparr>"
  let ?b5 = "\<lparr>rb_daemon = s2, rb_threads = (rb_threads ?b4)(t := Idle_thread), rb_last = last_of (?ps, ?os) (Inr r2)\<rparr>"
  have one: "rebuild_step v ch b ?b1" by (rule peers_read) (rule assms(4))
  have two: "rebuild_step v ch ?b1 ?b2" by (rule octets_read) simp
  have three: "rebuild_step v ch ?b2 ?b3" by (rule others) (simp_all add: assms(7))
  have "rb_threads ?b3 u = Idle_thread" using assms(5,6) by simp
  then have four: "rebuild_runs v ch ?b3 ?b4"
    using apply_in_steps[of ?b3 u v "Inr r1" s1 ch] assms(8) by simp
  have five: "rebuild_step v ch ?b4 ?b5" by (rule applied) (use assms(9) in simp_all)
  have run: "rebuild_runs v ch b ?b5"
    using rtranclp_trans[OF rtranclp_trans[OF three_steps[of "rebuild_step v ch", OF one two three] four[unfolded rebuild_runs_def]]
        r_into_rtranclp[of "rebuild_step v ch", OF five]]
    unfolding rebuild_runs_def .
  moreover have "store s2 = d" using apply_tables_store[OF assms(8)] apply_tables_store[OF assms(9)] by simp
  ultimately show ?thesis
    using rebuild_runs_ok[OF assms(1,2) run assms(3)] assms(4) by (intro exI[of _ ?b5]) (simp add: last_of_def fun_upd_idem)
qed

end
