(* ===== verification/Firewall_Steps.thy ===== *)
theory Firewall_Steps
  imports Firewall_Apply
begin

text \<open>
  \<open>apply_firewall\<close> once more, command by command: a program says which command it runs next and how
  it goes on with the outcome, so other threads can act between two commands. Run with nothing in
  between, each program is the function of \<open>Firewall_Apply\<close> that it spells out.
\<close>

section \<open>Programs of commands\<close>

datatype 'a prog =
    Done 'a
  | Exec "string list" "proc \<Rightarrow> 'a prog"
  | Which string "bool \<Rightarrow> 'a prog"

primrec run_prog :: "'w host \<Rightarrow> 'a prog \<Rightarrow> 'w \<Rightarrow> 'a \<times> 'w" where
  "run_prog h (Done x) w = (x, w)"
| "run_prog h (Exec args k) w = (case exec h (cmd args) w of (r, w') \<Rightarrow> run_prog h (k r) w')"
| "run_prog h (Which b k) w = run_prog h (k (which h b w)) w"

primrec bind_prog :: "'a prog \<Rightarrow> ('a \<Rightarrow> 'b prog) \<Rightarrow> 'b prog" where
  "bind_prog (Done x) f = f x"
| "bind_prog (Exec args k) f = Exec args (\<lambda>r. bind_prog (k r) f)"
| "bind_prog (Which b k) f = Which b (\<lambda>y. bind_prog (k y) f)"

definition then_prog :: "(exc + 'a) prog \<Rightarrow> ('a \<Rightarrow> (exc + 'b) prog) \<Rightarrow> (exc + 'b) prog" where
  "then_prog p f = bind_prog p (\<lambda>r. case r of Inl e \<Rightarrow> Done (Inl e) | Inr x \<Rightarrow> f x)"

text \<open>As functions of the machine, so that a program inside another one is rewritten too.\<close>

lemma run_Done [simp]: "run_prog h (Done x) = Pair x"
  by (rule ext) simp

lemma run_bind [simp]:
  "run_prog h (bind_prog p f) = (\<lambda>w. case run_prog h p w of (x, w') \<Rightarrow> run_prog h (f x) w')"
proof
  fix w
  show "run_prog h (bind_prog p f) w = (case run_prog h p w of (x, w') \<Rightarrow> run_prog h (f x) w')"
    by (induction p arbitrary: w) (auto split: prod.split)
qed

lemma run_then [simp]:
  "run_prog h (then_prog p f) = (\<lambda>w. and_then (run_prog h p w) (\<lambda>x. run_prog h (f x)))"
  by (rule ext) (auto simp: then_prog_def and_then_def split: prod.split sum.split)

section \<open>Running a program\<close>

text \<open>What \<open>raw_run\<close> and \<open>_run\<close> make of an outcome.\<close>

definition raw_answer :: "string list \<Rightarrow> proc \<Rightarrow> exc + int \<times> string \<times> string" where
  "raw_answer args r =
     (case r of
        Exited rc out err \<Rightarrow> Inr (rc, out, err)
      | Missing \<Rightarrow> Inl (FileNotFoundError (hd args))
      | OsFail s \<Rightarrow> Inl (OSError s))"

definition py_answer :: "string list \<Rightarrow> proc \<Rightarrow> exc + string" where
  "py_answer args r =
     (case r of
        Exited rc out err \<Rightarrow> if rc \<noteq> 0 then Inl (CalledProcessError err) else Inr out
      | Missing \<Rightarrow> Inl (RuntimeError (''required binary not found: '' @ hd args @ newline
          @ ''  install: '' @ install_hint (hd args)))
      | OsFail s \<Rightarrow> Inl (OSError s))"

definition raw_prog :: "string list \<Rightarrow> (exc + int \<times> string \<times> string) prog" where
  "raw_prog args = Exec args (\<lambda>r. Done (raw_answer args r))"

definition py_prog :: "string list \<Rightarrow> (exc + string) prog" where
  "py_prog args = Exec args (\<lambda>r. Done (py_answer args r))"

lemma run_raw [simp]: "run_prog h (raw_prog args) = raw_run h (cmd args)"
  by (rule ext) (auto simp: raw_prog_def raw_run_def raw_answer_def cmd_def split: prod.split proc.split)

lemma run_py [simp]: "run_prog h (py_prog args) = py_run h (cmd args)"
  by (rule ext) (auto simp: py_prog_def py_run_def py_answer_def cmd_def split: prod.split proc.split)

section \<open>The functions of the code\<close>

definition interface_prog :: "(exc + string option) prog" where
  "interface_prog = bind_prog (py_prog [''ip'', ''-4'', ''route'', ''show'', ''default''])
     (\<lambda>r. Done (case r of
        Inl e \<Rightarrow> if is_Called e then Inr None else Inl e
      | Inr out \<Rightarrow> Inr (token_after_dev (split_ws out))))"

definition check_prog :: "rule \<Rightarrow> bool prog" where
  "check_prog r = bind_prog (raw_prog ([''iptables'', ''-C''] @ r))
     (\<lambda>x. Done (case x of Inl _ \<Rightarrow> False | Inr (rc, _, _) \<Rightarrow> rc = 0))"

definition recorded_prog :: "string list \<Rightarrow> rule \<Rightarrow> (exc + rule_result) prog" where
  "recorded_prog args r = bind_prog (py_prog args)
     (\<lambda>x. Done (case x of
        Inl e \<Rightarrow> if is_Called e then Inr (mk_rr False r (strip (exc_str e))) else Inl e
      | Inr _ \<Rightarrow> Inr (mk_rr True r [])))"

definition append_prog :: "rule \<Rightarrow> (exc + rule_result) prog" where
  "append_prog r = bind_prog (check_prog r)
     (\<lambda>present. if present then Done (Inr (mk_rr True r [])) else recorded_prog ([''iptables'', ''-A''] @ r) r)"

definition delete_prog :: "rule \<Rightarrow> (exc + rule_result) prog" where
  "delete_prog r = bind_prog (check_prog r)
     (\<lambda>present. if \<not> present then Done (Inr (mk_rr True r [])) else recorded_prog ([''iptables'', ''-D''] @ r) r)"

definition exists_prog :: "string \<Rightarrow> bool prog" where
  "exists_prog chain = bind_prog (raw_prog [''iptables'', ''-L'', chain, ''-n''])
     (\<lambda>x. Done (case x of Inl _ \<Rightarrow> False | Inr (rc, _, _) \<Rightarrow> rc = 0))"

definition firewalld_prog :: "bool prog" where
  "firewalld_prog = Which ''firewall-cmd'' (\<lambda>there.
     if \<not> there then Done False
     else bind_prog (raw_prog [''firewall-cmd'', ''--state''])
       (\<lambda>x. Done (case x of Inl _ \<Rightarrow> False | Inr (rc, out, _) \<Rightarrow> rc = 0 \<and> contains ''running'' (lower out))))"

definition port_prog :: "string \<Rightarrow> int \<Rightarrow> (exc + rule_result) prog" where
  "port_prog action port =
     (let r = [''firewalld'', str_int port @ ''/udp''] in
      bind_prog
        (then_prog (py_prog [''firewall-cmd'', action @ str_int port @ ''/udp'', ''--permanent''])
          (\<lambda>_. then_prog (py_prog [''firewall-cmd'', ''--reload'']) (\<lambda>_. Done (Inr (mk_rr True r [])))))
        (\<lambda>x. Done (case x of
           Inl e \<Rightarrow> if is_Called e then Inr (mk_rr False r (strip (exc_str e))) else Inl e
         | Inr y \<Rightarrow> Inr y)))"

definition return_prog :: "string list \<Rightarrow> rule \<Rightarrow> (exc + rule_result) prog \<Rightarrow> (exc + rule_result) prog" where
  "return_prog args r rest = bind_prog (py_prog args)
     (\<lambda>x. case x of
        Inr _ \<Rightarrow> rest
      | Inl e \<Rightarrow> Done (if is_Called e then Inr (mk_rr False r (strip (exc_str e))) else Inl e))"

definition input_prog :: "int \<Rightarrow> (exc + rule_result) prog" where
  "input_prog port = bind_prog firewalld_prog (\<lambda>fw.
     if fw then port_prog ''--add-port='' port
     else then_prog (raw_prog [''iptables'', ''-N'', EDO_INPUT_CHAIN])
       (\<lambda>_. bind_prog (check_prog input_hook) (\<lambda>hooked.
          let refill = return_prog [''iptables'', ''-F'', EDO_INPUT_CHAIN] [''-F'', EDO_INPUT_CHAIN]
                         (append_prog (wg_input_rule port))
          in if hooked then refill
             else return_prog [''iptables'', ''-I'', ''INPUT'', ''1'', ''-j'', EDO_INPUT_CHAIN] input_hook refill)))"

fun unhook_prog :: "nat \<Rightarrow> rule \<Rightarrow> (exc + rule_result list) prog" where
  "unhook_prog 0 hook = bind_prog (check_prog hook) (\<lambda>_. Done (Inr []))"
| "unhook_prog (Suc left) hook = bind_prog (check_prog hook) (\<lambda>present.
     if \<not> present then Done (Inr [])
     else then_prog (delete_prog hook) (\<lambda>r. then_prog (unhook_prog left hook) (\<lambda>rs. Done (Inr (r # rs)))))"

fun unhook_all_prog :: "string list \<Rightarrow> (exc + rule_result list) prog" where
  "unhook_all_prog [] = Done (Inr [])"
| "unhook_all_prog (chain # rest) = bind_prog (exists_prog chain) (\<lambda>there.
     if \<not> there then unhook_all_prog rest
     else then_prog (unhook_prog 5 (forward_hook chain))
       (\<lambda>rs. then_prog (unhook_all_prog rest) (\<lambda>rs'. Done (Inr (rs @ rs')))))"

fun first_chain_prog :: "string list \<Rightarrow> string prog" where
  "first_chain_prog [] = Done ''FORWARD''"
| "first_chain_prog (chain # rest) = bind_prog (exists_prog chain) (\<lambda>there.
     if there then Done chain else first_chain_prog rest)"

definition raise_prog :: "string list \<Rightarrow> string \<Rightarrow> (exc + string) prog" where
  "raise_prog args pre = bind_prog (py_prog args)
     (\<lambda>x. Done (case x of
        Inl e \<Rightarrow> if is_Called e then Inl (RuntimeError (pre @ strip (exc_str e))) else Inl e
      | Inr out \<Rightarrow> Inr out))"

fun install_prog :: "rule list \<Rightarrow> (exc + rule_result list) prog" where
  "install_prog [] = Done (Inr [])"
| "install_prog (r # rs) = then_prog (append_prog r) (\<lambda>res.
     if \<not> rr_success res
     then then_prog (raw_prog [''iptables'', ''-F'', EDO_CHAIN])
            (\<lambda>_. Done (Inl (RuntimeError (''failed to install rule '' @ rule_repr r @ '': '' @ rr_stderr res))))
     else then_prog (install_prog rs) (\<lambda>others. Done (Inr (res # others))))"

definition hook_prog :: "(exc + string) prog" where
  "hook_prog = then_prog (raw_prog [''iptables'', ''-N'', EDO_CHAIN])
     (\<lambda>_. then_prog (unhook_all_prog FORWARD_HOOK_CANDIDATES)
       (\<lambda>_. bind_prog (first_chain_prog FORWARD_HOOK_CANDIDATES) (\<lambda>target.
          then_prog (raise_prog [''iptables'', ''-I'', target, ''1'', ''-j'', EDO_CHAIN]
              (''failed to hook '' @ EDO_CHAIN @ '' into '' @ target @ '': ''))
            (\<lambda>_. then_prog (raise_prog [''iptables'', ''-F'', EDO_CHAIN] (''failed to flush '' @ EDO_CHAIN @ '': ''))
              (\<lambda>_. Done (Inr target))))))"

definition apply_prog ::
  "(owner \<Rightarrow> string list option) \<Rightarrow> (owner \<times> int) list \<Rightarrow> int \<Rightarrow> (exc + apply_result) prog" where
  "apply_prog peers_by_owner octets_by_owner wg_port = then_prog interface_prog (\<lambda>iface.
     if iface = None \<or> iface = Some []
     then Done (Inl (RuntimeError ''unable to determine public interface; refusing to apply firewall''))
     else then_prog (raise_prog [''sysctl'', ''-w'', ''net.ipv4.ip_forward=1''] ''failed to enable net.ipv4.ip_forward: '')
       (\<lambda>_. then_prog hook_prog
         (\<lambda>_. then_prog (Done (build_chain_rules (the iface) peers_by_owner octets_by_owner))
           (\<lambda>rules. then_prog (install_prog rules)
             (\<lambda>results. then_prog (input_prog wg_port)
               (\<lambda>input_result.
                  Done (Inr \<lparr>public_interface = the iface, ar_rules = results @ [input_result]\<rparr>)))))))"

section \<open>With nothing in between\<close>

lemma run_interface [simp]: "run_prog h interface_prog = get_public_interface h"
  by (rule ext) (auto simp: interface_prog_def get_public_interface_def and_then_def except_def split: prod.split sum.split)

lemma run_check [simp]: "run_prog h (check_prog r) = iptables_check h r"
  by (rule ext) (auto simp: check_prog_def iptables_check_def split: prod.split sum.split)

lemma run_recorded_prog [simp]: "run_prog h (recorded_prog args r) = run_recorded h args r"
  by (rule ext) (auto simp: recorded_prog_def run_recorded_def and_then_def except_def split: prod.split sum.split)

lemma run_append [simp]: "run_prog h (append_prog r) = iptables_append h r"
  by (rule ext) (auto simp: append_prog_def iptables_append_def split: prod.split)

lemma run_delete [simp]: "run_prog h (delete_prog r) = iptables_delete h r"
  by (rule ext) (auto simp: delete_prog_def iptables_delete_def split: prod.split)

lemma run_exists [simp]: "run_prog h (exists_prog c) = chain_exists h c"
  by (rule ext) (auto simp: exists_prog_def chain_exists_def split: prod.split sum.split)

lemma run_firewalld [simp]: "run_prog h firewalld_prog = firewalld_active h"
  by (rule ext) (auto simp: firewalld_prog_def firewalld_active_def split: prod.split sum.split)

lemma run_port [simp]: "run_prog h (port_prog action port) = firewalld_port h action port"
  by (rule ext) (auto simp: port_prog_def firewalld_port_def Let_def except_def and_then_def split: prod.split sum.split)

lemma run_return [simp]: "run_prog h (return_prog args r rest) = run_or_return h args r (run_prog h rest)"
  by (rule ext) (auto simp: return_prog_def run_or_return_def split: prod.split sum.split)

lemma run_input [simp]: "run_prog h (input_prog port) = apply_wg_input_rule h port"
  by (rule ext) (auto simp: input_prog_def apply_wg_input_rule_def Let_def and_then_def split: prod.split sum.split)

lemma run_unhook [simp]: "run_prog h (unhook_prog n hook) = unhook_loop n h hook"
  by (induction n) (auto simp: and_then_def fun_eq_iff split: prod.split sum.split)

lemma run_unhook_all [simp]: "run_prog h (unhook_all_prog cs) = unhook_chains h cs"
  by (induction cs) (auto simp: and_then_def fun_eq_iff split: prod.split sum.split)

lemma run_first_chain [simp]: "run_prog h (first_chain_prog cs) = first_existing_chain h cs"
  by (induction cs) (auto simp: fun_eq_iff split: prod.split)

lemma run_raise [simp]: "run_prog h (raise_prog args pre) = run_or_raise h args pre"
  by (rule ext) (auto simp: raise_prog_def run_or_raise_def except_def split: prod.split sum.split)

lemma run_install [simp]: "run_prog h (install_prog rs) = install_rules h rs"
  by (induction rs) (auto simp: and_then_def fun_eq_iff split: prod.split sum.split)

lemma run_hook [simp]: "run_prog h hook_prog = hook_chain h"
  by (rule ext) (auto simp: hook_prog_def hook_chain_def unhook_edo_from_all_def preferred_forward_hook_def and_then_def
      split: prod.split sum.split)

lemma run_apply: "run_prog h (apply_prog ps os port) = apply_firewall h ps os port"
  by (rule ext) (auto simp: apply_prog_def apply_firewall_def and_then_def split: prod.split sum.split)

end
