(* ===== verification/Command_Race.thy ===== *)
theory Command_Race
  imports Rebuild_Race Firewall_Steps
begin

text \<open>
  Concurrent rebuilds, command by command. \<open>Rebuild_Race\<close> keeps the commands of one \<open>apply_firewall\<close>
  together; here threads interleave between any two commands, as they do in the daemon, which holds no
  lock. An automaton says what a rebuild has done so far and which commands it may run next;
  \<open>apply_prog\<close> follows it, and the invariant of the race is stated over the states of the automaton.
\<close>

section \<open>The course of a rebuild\<close>

text \<open>
  \<open>Before\<close> its jump to the chain is inserted, \<open>Hooked\<close> until the flush, \<open>Filling\<close> the rules \<open>all\<close> with the
  rest still to come, \<open>Failing\<close> when a command was refused: it will raise.
\<close>

datatype course = Before | Hooked | Filling "rule list" "rule list" | Failing

definition own_chains :: "string set" where
  "own_chains = insert EDO_CHAIN (set FORWARD_HOOK_CANDIDATES)"

text \<open>Commands that leave the chain and its hooks as they are.\<close>

definition harmless :: "string list \<Rightarrow> bool" where
  "harmless args \<longleftrightarrow> (\<exists>b r. args = b # r \<and>
     (b \<noteq> ''iptables'' \<and> b \<noteq> ''firewall-cmd'' \<or>
      b = ''iptables'' \<and> (query_option r \<or> (\<exists>c rest. tl r = c # rest \<and> c \<notin> own_chains))))"

text \<open>The rule lists that a rebuild may install: those of some tables, on an interface with a plain name.\<close>

definition fillable :: "db set \<Rightarrow> rule list \<Rightarrow> bool" where
  "fillable D specs \<longleftrightarrow> (\<exists>i. \<exists>d \<in> D. \<exists>d' \<in> D. plain_iface i \<and>
     build_chain_rules i (peers_grouped_by_owner d) (octets_by_owner d') = Inr (map ((#) EDO_CHAIN) specs))"

abbreviation failed_run :: "proc \<Rightarrow> bool" where
  "failed_run r \<equiv> \<forall>out err. r \<noteq> Exited 0 out err"

inductive course_step :: "db set \<Rightarrow> course \<Rightarrow> string list \<Rightarrow> proc \<Rightarrow> course \<Rightarrow> bool" for D :: "db set" where
  quiet: "harmless args \<Longrightarrow> course_step D q args r q"
| made: "course_step D Before [''iptables'', ''-N'', EDO_CHAIN] r Before"
| unhooked: "c \<in> set FORWARD_HOOK_CANDIDATES \<Longrightarrow> course_step D Before [''iptables'', ''-D'', c, ''-j'', EDO_CHAIN] r Before"
| hooked: "c \<in> set FORWARD_HOOK_CANDIDATES \<Longrightarrow>
     course_step D Before [''iptables'', ''-I'', c, ''1'', ''-j'', EDO_CHAIN] (Exited 0 out err) Hooked"
| not_hooked: "failed_run r \<Longrightarrow> course_step D Before [''iptables'', ''-I'', c, ''1'', ''-j'', EDO_CHAIN] r Failing"
| flushed: "fillable D specs \<Longrightarrow> course_step D Hooked [''iptables'', ''-F'', EDO_CHAIN] (Exited 0 out err) (Filling specs specs)"
| not_flushed: "failed_run r \<Longrightarrow> course_step D Hooked [''iptables'', ''-F'', EDO_CHAIN] r Failing"
| known: "course_step D (Filling specs (s # rest)) (''iptables'' # ''-C'' # EDO_CHAIN # s) (Exited 0 out err) (Filling specs rest)"
| appended: "course_step D (Filling specs (s # rest)) (''iptables'' # ''-A'' # EDO_CHAIN # s) (Exited 0 out err) (Filling specs rest)"
| refused: "failed_run r \<Longrightarrow> course_step D (Filling specs (s # rest)) (''iptables'' # ''-A'' # EDO_CHAIN # s) r Failing"
| gave_up: "course_step D Failing [''iptables'', ''-F'', EDO_CHAIN] r Failing"

text \<open>
  A program goes from \<open>q\<close> when every command it can run is a step, for every outcome that the host can give, and
  what it returns then satisfies \<open>Q\<close>.
\<close>

primrec goes :: "db set \<Rightarrow> 'w host \<Rightarrow> 'a prog \<Rightarrow> course \<Rightarrow> ('a \<Rightarrow> course \<Rightarrow> bool) \<Rightarrow> bool" where
  "goes D h (Done x) q Q = Q x q"
| "goes D h (Exec args k) q Q =
     (\<forall>r w w'. exec h (cmd args) w = (r, w') \<longrightarrow> (\<exists>q'. course_step D q args r q' \<and> goes D h (k r) q' Q))"
| "goes D h (Which b k) q Q = (\<forall>w. goes D h (k (which h b w)) q Q)"

lemma goes_mono:
  assumes "\<And>x q. Q x q \<Longrightarrow> Q' x q"
  shows "goes D h p q Q \<Longrightarrow> goes D h p q Q'"
proof (induction p arbitrary: q)
  case (Exec args k)
  show ?case unfolding goes.simps
  proof (intro allI impI)
    fix r w w'
    assume "exec h (cmd args) w = (r, w')"
    then obtain q' where "course_step D q args r q'" "goes D h (k r) q' Q" using Exec.prems by auto
    then show "\<exists>q'. course_step D q args r q' \<and> goes D h (k r) q' Q'" using Exec.IH by blast
  qed
qed (simp_all add: assms)

lemma goes_bind: "goes D h p q (\<lambda>x q'. goes D h (f x) q' Q) \<Longrightarrow> goes D h (bind_prog p f) q Q"
proof (induction p arbitrary: q)
  case (Exec args k)
  show ?case unfolding bind_prog.simps goes.simps
  proof (intro allI impI)
    fix r w w'
    assume "exec h (cmd args) w = (r, w')"
    then obtain q' where "course_step D q args r q'" "goes D h (k r) q' (\<lambda>x q'. goes D h (f x) q' Q)" using Exec.prems by auto
    then show "\<exists>q'. course_step D q args r q' \<and> goes D h (bind_prog (k r) f) q' Q" using Exec.IH by blast
  qed
qed simp_all

lemma goes_then:
  "goes D h p q (\<lambda>r q'. case r of Inl e \<Rightarrow> Q (Inl e) q' | Inr x \<Rightarrow> goes D h (f x) q' Q) \<Longrightarrow> goes D h (then_prog p f) q Q"
  unfolding then_prog_def by (rule goes_bind) (erule goes_mono[rotated], simp split: sum.splits)

section \<open>The programs follow it\<close>

lemma harmless_query [simp]: "harmless (''iptables'' # ''-C'' # r)" "harmless (''iptables'' # ''-L'' # r)"
  by (simp_all add: harmless_def)

lemma harmless_other: "b \<noteq> ''iptables'' \<Longrightarrow> b \<noteq> ''firewall-cmd'' \<Longrightarrow> harmless (b # r)"
  by (simp add: harmless_def)

lemma input_not_own: "EDO_INPUT_CHAIN \<notin> own_chains" "''INPUT'' \<notin> own_chains"
  by (simp_all add: own_chains_def EDO_INPUT_CHAIN_def EDO_CHAIN_def FORWARD_HOOK_CANDIDATES_def)

lemma harmless_input [simp]:
  "harmless (''iptables'' # opt # EDO_INPUT_CHAIN # r)" "harmless (''iptables'' # opt # ''INPUT'' # r)"
  using input_not_own by (simp_all add: harmless_def)

lemma goes_raw: "harmless args \<Longrightarrow> (\<And>x. Q x q) \<Longrightarrow> goes D h (raw_prog args) q Q"
  unfolding raw_prog_def goes.simps by (blast intro: quiet)

lemma goes_py: "harmless args \<Longrightarrow> (\<And>x. Q x q) \<Longrightarrow> goes D h (py_prog args) q Q"
  unfolding py_prog_def goes.simps by (blast intro: quiet)

lemma goes_check: "(\<And>x. Q x q) \<Longrightarrow> goes D h (check_prog r) q Q"
  unfolding check_prog_def by (intro goes_bind goes_raw) simp_all

lemma goes_exists: "(\<And>x. Q x q) \<Longrightarrow> goes D h (exists_prog c) q Q"
  unfolding exists_prog_def by (intro goes_bind goes_raw) simp_all

lemma goes_recorded: "harmless args \<Longrightarrow> (\<And>x. Q x q) \<Longrightarrow> goes D h (recorded_prog args r) q Q"
  unfolding recorded_prog_def by (intro goes_bind goes_py) simp_all

lemma goes_append_input: "(\<And>x. Q x q) \<Longrightarrow> goes D h (append_prog (EDO_INPUT_CHAIN # r)) q Q"
  unfolding append_prog_def by (intro goes_bind goes_check) (simp add: goes_recorded)

lemma goes_return:
  "harmless args \<Longrightarrow> (\<And>x. Q x q) \<Longrightarrow> goes D h rest q Q \<Longrightarrow> goes D h (return_prog args r rest) q Q"
  unfolding return_prog_def by (intro goes_bind goes_py) (simp_all split: sum.split)

lemma goes_input:
  assumes "no_firewalld h" "\<And>x. Q x q"
  shows "goes D h (input_prog port) q Q"
proof -
  have "goes D h (append_prog (wg_input_rule port)) q Q" unfolding wg_input_rule_def by (rule goes_append_input) (rule assms(2))
  then have "goes D h (return_prog [''iptables'', ''-F'', EDO_INPUT_CHAIN] [''-F'', EDO_INPUT_CHAIN] (append_prog (wg_input_rule port))) q Q"
    by (intro goes_return) (simp_all add: assms(2))
  then have "goes D h (bind_prog (check_prog input_hook) (\<lambda>hooked.
      let refill = return_prog [''iptables'', ''-F'', EDO_INPUT_CHAIN] [''-F'', EDO_INPUT_CHAIN] (append_prog (wg_input_rule port))
      in if hooked then refill
         else return_prog [''iptables'', ''-I'', ''INPUT'', ''1'', ''-j'', EDO_INPUT_CHAIN] input_hook refill)) q Q"
    by (intro goes_bind goes_check) (simp add: Let_def goes_return assms(2))
  then show ?thesis
    using assms(1) unfolding input_prog_def firewalld_prog_def no_firewalld_def
    by (simp add: goes_bind goes_then goes_raw assms(2) split: sum.split)
qed

lemma goes_delete_hook:
  assumes "c \<in> set FORWARD_HOOK_CANDIDATES" "\<And>x. Q x Before"
  shows "goes D h (delete_prog (forward_hook c)) Before Q"
proof -
  have "goes D h (recorded_prog ([''iptables'', ''-D''] @ forward_hook c) r) Before Q" for r
    unfolding recorded_prog_def py_prog_def forward_hook_def by (rule goes_bind) (use unhooked[OF assms(1)] assms(2) in auto)
  then show ?thesis unfolding delete_prog_def by (intro goes_bind goes_check) (simp add: assms(2))
qed

lemma goes_unhook:
  "c \<in> set FORWARD_HOOK_CANDIDATES \<Longrightarrow> (\<And>x. Q x Before) \<Longrightarrow> goes D h (unhook_prog n (forward_hook c)) Before Q"
proof (induction n arbitrary: Q)
  case 0
  then show ?case by (simp add: goes_bind goes_check)
next
  case (Suc n)
  have "goes D h (then_prog (unhook_prog n (forward_hook c)) (\<lambda>rs. Done (Inr (r # rs)))) Before Q" for r
    using Suc by (intro goes_then Suc.IH) (simp_all split: sum.split)
  then have "goes D h (then_prog (delete_prog (forward_hook c)) (\<lambda>r. then_prog (unhook_prog n (forward_hook c)) (\<lambda>rs. Done (Inr (r # rs))))) Before Q"
    using Suc(2,3) by (intro goes_then goes_delete_hook) (simp_all split: sum.split)
  then show ?case using Suc(3) by (simp add: goes_bind goes_check)
qed

lemma goes_unhook_all:
  "set cs \<subseteq> set FORWARD_HOOK_CANDIDATES \<Longrightarrow> (\<And>x. Q x Before) \<Longrightarrow> goes D h (unhook_all_prog cs) Before Q"
proof (induction cs arbitrary: Q)
  case (Cons c cs)
  have "goes D h (then_prog (unhook_all_prog cs) (\<lambda>rs'. Done (Inr (rs @ rs')))) Before Q" for rs
    using Cons(2,3) by (intro goes_then Cons.IH) (simp_all split: sum.split)
  then have "goes D h (then_prog (unhook_prog 5 (forward_hook c)) (\<lambda>rs. then_prog (unhook_all_prog cs) (\<lambda>rs'. Done (Inr (rs @ rs'))))) Before Q"
    using Cons(2,3) by (intro goes_then goes_unhook) (simp_all split: sum.split)
  moreover have "goes D h (unhook_all_prog cs) Before Q" using Cons by simp
  ultimately show ?case by (simp add: goes_bind goes_exists)
qed simp

lemma goes_first_chain:
  "(\<And>c. c \<in> insert ''FORWARD'' (set cs) \<Longrightarrow> Q c q) \<Longrightarrow> goes D h (first_chain_prog cs) q Q"
proof (induction cs)
  case (Cons c cs)
  have "goes D h (first_chain_prog cs) q Q" by (rule Cons.IH) (use Cons(2) in auto)
  then show ?case using Cons(2) by (simp add: goes_bind goes_exists)
qed simp

lemma raise_answers:
  "goes D h (raise_prog args pre) q Q \<longleftrightarrow>
   (\<forall>r w w'. exec h (cmd args) w = (r, w') \<longrightarrow> (\<exists>q'. course_step D q args r q' \<and>
      Q (case py_answer args r of Inl e \<Rightarrow> if is_Called e then Inl (RuntimeError (pre @ strip (exc_str e))) else Inl e | Inr out \<Rightarrow> Inr out) q'))"
  by (simp add: raise_prog_def py_prog_def)

lemma py_failed: "failed_run r \<Longrightarrow> \<exists>e. py_answer args r = Inl e"
  by (auto simp: py_answer_def split: proc.splits)

lemma goes_raise:
  assumes "\<And>out err. course_step D q args (Exited 0 out err) q1" "\<And>r. failed_run r \<Longrightarrow> course_step D q args r q2"
    and "\<And>out. Q (Inr out) q1" "\<And>e q'. Q (Inl e) q'"
  shows "goes D h (raise_prog args pre) q Q"
  unfolding raise_answers
proof (intro allI impI)
  fix r w w'
  show "\<exists>q'. course_step D q args r q' \<and>
      Q (case py_answer args r of Inl e \<Rightarrow> if is_Called e then Inl (RuntimeError (pre @ strip (exc_str e))) else Inl e | Inr out \<Rightarrow> Inr out) q'"
  proof (cases "failed_run r")
    case True
    then show ?thesis using assms(2)[OF True] assms(4) py_failed[OF True, of args] by (intro exI[of _ q2]) auto
  next
    case False
    then obtain out err where "r = Exited 0 out err" by blast
    then show ?thesis using assms(1)[of out err] assms(3) by (intro exI[of _ q1]) (simp add: py_answer_def)
  qed
qed

lemma goes_hook:
  assumes "fillable D specs" "\<And>c. Q (Inr c) (Filling specs specs)" "\<And>e q. Q (Inl e) q"
  shows "goes D h hook_prog Before Q"
proof -
  have flush: "goes D h (then_prog (raise_prog [''iptables'', ''-F'', EDO_CHAIN] pre) (\<lambda>_. Done (Inr c))) Hooked Q" for pre c
    by (rule goes_then, rule goes_raise[OF flushed[OF assms(1)] not_flushed]) (simp_all add: assms)
  have hook: "goes D h (then_prog (raise_prog [''iptables'', ''-I'', c, ''1'', ''-j'', EDO_CHAIN] pre)
      (\<lambda>_. then_prog (raise_prog [''iptables'', ''-F'', EDO_CHAIN] pre') (\<lambda>_. Done (Inr c)))) Before Q"
    if "c \<in> set FORWARD_HOOK_CANDIDATES" for c pre pre'
    by (rule goes_then, rule goes_raise[OF hooked[OF that] not_hooked]) (simp_all add: flush assms(3))
  have "goes D h (bind_prog (first_chain_prog FORWARD_HOOK_CANDIDATES) (\<lambda>target.
      then_prog (raise_prog [''iptables'', ''-I'', target, ''1'', ''-j'', EDO_CHAIN]
              (''failed to hook '' @ EDO_CHAIN @ '' into '' @ target @ '': ''))
            (\<lambda>_. then_prog (raise_prog [''iptables'', ''-F'', EDO_CHAIN] (''failed to flush '' @ EDO_CHAIN @ '': ''))
              (\<lambda>_. Done (Inr target))))) Before Q"
    by (intro goes_bind goes_first_chain hook) (auto simp: FORWARD_HOOK_CANDIDATES_def)
  then have "goes D h (then_prog (unhook_all_prog FORWARD_HOOK_CANDIDATES) (\<lambda>_. bind_prog (first_chain_prog FORWARD_HOOK_CANDIDATES) (\<lambda>target.
      then_prog (raise_prog [''iptables'', ''-I'', target, ''1'', ''-j'', EDO_CHAIN]
              (''failed to hook '' @ EDO_CHAIN @ '' into '' @ target @ '': ''))
            (\<lambda>_. then_prog (raise_prog [''iptables'', ''-F'', EDO_CHAIN] (''failed to flush '' @ EDO_CHAIN @ '': ''))
              (\<lambda>_. Done (Inr target)))))) Before Q"
    by (intro goes_then goes_unhook_all) (simp_all add: assms(3) split: sum.split)
  then show ?thesis
    unfolding hook_prog_def raw_prog_def by (intro goes_then) (auto intro!: exI[of _ Before] made simp: assms(3) split: sum.split)
qed

lemma goes_append:
  assumes "Q (Inr (mk_rr True (EDO_CHAIN # s) [])) (Filling specs rest)" "\<And>e q. Q (Inl e) q"
    and "\<And>r err. Q (Inr (mk_rr False r err)) Failing"
  shows "goes D h (append_prog (EDO_CHAIN # s)) (Filling specs (s # rest)) Q"
proof -
  have add: "goes D h (recorded_prog ([''iptables'', ''-A''] @ EDO_CHAIN # s) (EDO_CHAIN # s)) (Filling specs (s # rest)) Q"
    unfolding recorded_prog_def py_prog_def bind_prog.simps goes.simps
  proof (intro allI impI)
    fix r w w'
    let ?ans = "case py_answer ([''iptables'', ''-A''] @ EDO_CHAIN # s) r of
        Inl e \<Rightarrow> if is_Called e then Inr (mk_rr False (EDO_CHAIN # s) (strip (exc_str e))) else Inl e
      | Inr _ \<Rightarrow> Inr (mk_rr True (EDO_CHAIN # s) [])"
    show "\<exists>q'. course_step D (Filling specs (s # rest)) ([''iptables'', ''-A''] @ EDO_CHAIN # s) r q' \<and> Q ?ans q'"
    proof (cases "failed_run r")
      case True
      obtain e where "py_answer ([''iptables'', ''-A''] @ EDO_CHAIN # s) r = Inl e" using py_failed[OF True] by blast
      then show ?thesis using refused[OF True, of D specs s rest] assms(2,3) by (intro exI[of _ Failing]) simp
    next
      case False
      then obtain out err where "r = Exited 0 out err" by blast
      then show ?thesis using appended[of D specs s rest] assms(1) by (intro exI[of _ "Filling specs rest"]) (simp add: py_answer_def)
    qed
  qed
  show ?thesis
    unfolding append_prog_def check_prog_def raw_prog_def bind_prog.simps goes.simps
  proof (intro allI impI)
    fix r w w'
    let ?b = "case raw_answer ([''iptables'', ''-C''] @ EDO_CHAIN # s) r of Inl _ \<Rightarrow> False | Inr (rc, _, _) \<Rightarrow> rc = 0"
    show "\<exists>q'. course_step D (Filling specs (s # rest)) ([''iptables'', ''-C''] @ EDO_CHAIN # s) r q' \<and>
        goes D h (if ?b then Done (Inr (mk_rr True (EDO_CHAIN # s) []))
          else recorded_prog ([''iptables'', ''-A''] @ EDO_CHAIN # s) (EDO_CHAIN # s)) q' Q"
    proof (cases ?b)
      case True
      then obtain out err where "r = Exited 0 out err" by (auto simp: raw_answer_def split: proc.splits)
      then show ?thesis using known[of D specs s rest] True assms(1) by (intro exI[of _ "Filling specs rest"]) simp
    next
      case False
      then show ?thesis using add by (intro exI[of _ "Filling specs (s # rest)"]) (simp add: quiet)
    qed
  qed
qed

lemma goes_install:
  assumes "\<And>x. Q (Inr x) (Filling specs [])" "\<And>e q. Q (Inl e) q"
  shows "goes D h (install_prog (map ((#) EDO_CHAIN) rest)) (Filling specs rest) Q"
  using assms
proof (induction rest arbitrary: Q)
  case (Cons s rest)
  have tail: "goes D h (then_prog (install_prog (map ((#) EDO_CHAIN) rest)) (\<lambda>others. Done (Inr (x # others)))) (Filling specs rest) Q" for x
    by (intro goes_then Cons.IH) (simp_all add: Cons.prems)
  have give_up: "goes D h (then_prog (raw_prog [''iptables'', ''-F'', EDO_CHAIN]) (\<lambda>_. Done (Inl e))) Failing Q" for e
    unfolding raw_prog_def by (rule goes_then) (use gave_up Cons.prems(2) in \<open>auto split: sum.split\<close>)
  show ?case
    unfolding list.map install_prog.simps
    by (rule goes_then, rule goes_append) (simp_all add: tail give_up Cons.prems(2))
qed simp

text \<open>Documented of \<open>ip route\<close>: the interface after \<open>dev\<close> has a plain name.\<close>

definition plain_routes :: "'w host \<Rightarrow> bool" where
  "plain_routes h \<longleftrightarrow> (\<forall>w i w'. get_public_interface h w = (Inr (Some i), w') \<longrightarrow> i \<noteq> [] \<longrightarrow> plain_iface i)"

definition may_return :: "exc + 'a \<Rightarrow> course \<Rightarrow> bool" where
  "may_return r q \<longleftrightarrow> isl r \<or> (\<exists>specs. q = Filling specs [])"

lemma goes_interface:
  assumes "\<And>w r w'. get_public_interface h w = (r, w') \<Longrightarrow> Q r q"
  shows "goes D h interface_prog q Q"
proof -
  let ?f = "\<lambda>r. case py_answer [''ip'', ''-4'', ''route'', ''show'', ''default''] r of
      Inl e \<Rightarrow> if is_Called e then Inr None else Inl e
    | Inr out \<Rightarrow> Inr (token_after_dev (split_ws out))"
  have prog: "interface_prog = Exec [''ip'', ''-4'', ''route'', ''show'', ''default''] (\<lambda>r. Done (?f r))"
    by (simp add: interface_prog_def py_prog_def)
  have "Q (?f r) q" if "exec h (cmd [''ip'', ''-4'', ''route'', ''show'', ''default'']) w = (r, w')" for r w w'
  proof (rule assms)
    have "run_prog h interface_prog w = (?f r, w')" unfolding prog by (simp add: that)
    then show "get_public_interface h w = (?f r, w')" by simp
  qed
  moreover have "harmless [''ip'', ''-4'', ''route'', ''show'', ''default'']" by (rule harmless_other) simp_all
  ultimately show ?thesis unfolding prog goes.simps by (blast intro: quiet)
qed

lemma apply_follows:
  assumes "plain_routes h" "no_firewalld h" "D \<subseteq> Collect db_ok" "d \<in> D" "d' \<in> D"
    and tables: "ps = peers_grouped_by_owner d" "os = octets_by_owner d'"
  shows "goes D h (apply_prog ps os port) Before may_return"
proof -
  have err: "may_return (Inl e) q" for e :: exc and q by (simp add: may_return_def)
  have rest: "goes D h (then_prog (raise_prog [''sysctl'', ''-w'', ''net.ipv4.ip_forward=1''] pre)
       (\<lambda>_. then_prog hook_prog
         (\<lambda>_. then_prog (Done (build_chain_rules i ps os))
           (\<lambda>rules. then_prog (install_prog rules)
             (\<lambda>results. then_prog (input_prog port)
               (\<lambda>input_result. Done (Inr \<lparr>public_interface = i, ar_rules = results @ [input_result]\<rparr>))))))) Before may_return"
    if i: "plain_iface i" for i pre
  proof -
    obtain rules where rules: "build_chain_rules i ps os = Inr rules"
      using build_rules_ok[of ps os i] some_tables_wf[of "(ps, os)"] assms(3-5) tables by (auto simp: some_tables_def)
    let ?specs = "map tl rules"
    have eq: "rules = map ((#) EDO_CHAIN) ?specs" by (rule build_rules_head[OF rules])
    then have fill: "fillable D ?specs" using i assms(4,5) rules tables unfolding fillable_def by auto
    have last: "goes D h (then_prog (input_prog port) (\<lambda>x. Done (Inr \<lparr>public_interface = i, ar_rules = res @ [x]\<rparr>))) (Filling ?specs []) may_return" for res
      by (rule goes_then, rule goes_input[OF assms(2)]) (simp add: may_return_def split: sum.split)
    have inst: "goes D h (then_prog (install_prog rules) (\<lambda>results. then_prog (input_prog port)
        (\<lambda>x. Done (Inr \<lparr>public_interface = i, ar_rules = results @ [x]\<rparr>)))) (Filling ?specs ?specs) may_return"
      by (rule goes_then, subst eq, rule goes_install) (simp_all add: last err)
    have hook: "goes D h (then_prog hook_prog (\<lambda>_. then_prog (Done (build_chain_rules i ps os))
           (\<lambda>rules. then_prog (install_prog rules)
             (\<lambda>results. then_prog (input_prog port)
               (\<lambda>input_result. Done (Inr \<lparr>public_interface = i, ar_rules = results @ [input_result]\<rparr>)))))) Before may_return"
      by (rule goes_then, rule goes_hook[OF fill]) (simp_all add: rules then_prog_def[of "Done _"] inst err)
    have sys: "harmless [''sysctl'', ''-w'', ''net.ipv4.ip_forward=1'']" by (simp add: harmless_def)
    show ?thesis
      by (rule goes_then, rule goes_raise[OF quiet[OF sys] quiet[OF sys]]) (simp_all add: hook err)
  qed
  show ?thesis
    unfolding apply_prog_def
  proof (rule goes_then, rule goes_interface)
    fix w r w'
    assume "get_public_interface h w = (r, w')"
    then show "case r of Inl e \<Rightarrow> may_return (Inl e) Before
      | Inr iface \<Rightarrow> goes D h (if iface = None \<or> iface = Some []
          then Done (Inl (RuntimeError ''unable to determine public interface; refusing to apply firewall''))
          else then_prog (raise_prog [''sysctl'', ''-w'', ''net.ipv4.ip_forward=1''] ''failed to enable net.ipv4.ip_forward: '')
            (\<lambda>_. then_prog hook_prog
              (\<lambda>_. then_prog (Done (build_chain_rules (the iface) ps os))
                (\<lambda>rules. then_prog (install_prog rules)
                  (\<lambda>results. then_prog (input_prog port)
                    (\<lambda>input_result. Done (Inr \<lparr>public_interface = the iface, ar_rules = results @ [input_result]\<rparr>))))))) Before may_return"
    proof (cases "r = Inr None \<or> r = Inr (Some []) \<or> isl r")
      case False
      then obtain i where i: "r = Inr (Some i)" "i \<noteq> []" by (cases r) auto
      then have "plain_iface i" using assms(1) \<open>get_public_interface h w = (r, w')\<close> unfolding plain_routes_def by blast
      from rest[OF this] show ?thesis using i by simp
    qed (cases r; auto simp: err)
  qed
qed

section \<open>What a step does to the chains\<close>

lemma ipt_effect_frame: "ipt_effect (opt # c # r) chs = Some chs' \<Longrightarrow> x \<noteq> c \<Longrightarrow> chs' x = chs x"
  by (auto simp: ipt_effect_def split: if_splits option.splits)

lemma ipt_run_effect:
  assumes "iptables_ok h ch" "exec h (cmd (''iptables'' # args)) w = (r, w')"
  shows "ch w' = ch w \<or> ipt_effect args (ch w) = Some (ch w')" "r = Exited 0 out err \<Longrightarrow> ipt_effect args (ch w) = Some (ch w')"
    "failed_run r \<Longrightarrow> ch w' = ch w"
  using ipt_execD[OF assms] by (cases r; auto split: if_splits)+

lemma harmless_frame:
  assumes "iptables_ok h ch" "harmless args" "exec h (cmd args) w = (r, w')" "c \<in> own_chains"
  shows "ch w' c = ch w c"
proof -
  obtain b rest where args: "args = b # rest" by (cases args) (use assms(2) in \<open>auto simp: harmless_def\<close>)
  show ?thesis
  proof (cases "b = ''iptables''")
    case False
    then have "b \<noteq> ''firewall-cmd''" using assms(2) args by (auto simp: harmless_def)
    then show ?thesis using other_program_frame[OF assms(1) False] assms(3) args by simp
  next
    case True
    then have eff: "ch w' = ch w \<or> ipt_effect rest (ch w) = Some (ch w')"
      using ipt_run_effect(1)[OF assms(1)] assms(3) args by simp
    have "query_option rest \<or> (\<exists>opt c' r'. rest = opt # c' # r' \<and> c' \<notin> own_chains)"
      using assms(2) True unfolding harmless_def args by (cases rest) auto
    then show ?thesis
    proof (elim disjE exE conjE)
      assume "query_option rest"
      then show ?thesis using eff query_effect by fastforce
    next
      fix opt c' r'
      assume "rest = opt # c' # r'" "c' \<notin> own_chains"
      then show ?thesis using eff ipt_effect_frame[of opt c' r' "ch w" "ch w'" c] assms(4) by auto
    qed
  qed
qed

definition hooked_first :: "chains \<Rightarrow> bool" where
  "hooked_first chs \<longleftrightarrow> (\<exists>c \<in> set FORWARD_HOOK_CANDIDATES. \<exists>rs. chs c = Some ([''-j'', EDO_CHAIN] # rs))"

lemma hooked_first_cong:
  assumes "\<And>c. c \<in> set FORWARD_HOOK_CANDIDATES \<Longrightarrow> chs' c = chs c"
  shows "hooked_first chs' = hooked_first chs"
  using assms by (simp add: hooked_first_def)

lemma edo_no_candidate: "c \<in> set FORWARD_HOOK_CANDIDATES \<Longrightarrow> c \<noteq> EDO_CHAIN"
  by (auto simp: FORWARD_HOOK_CANDIDATES_def EDO_CHAIN_def)

text \<open>Only a rebuild before its hook touches the hooks; the chain itself changes as the rules say.\<close>

lemma course_step_chains:
  assumes "iptables_ok h ch" "course_step D q args r q'" "exec h (cmd args) w = (r, w')"
  shows "q \<noteq> Before \<Longrightarrow> hooked_first (ch w') = hooked_first (ch w)"
    and "q = Before \<Longrightarrow> q' = Before \<or> q' = Failing \<or> q' = Hooked \<and> hooked_first (ch w')"
    and "q = Hooked \<Longrightarrow> q' = Hooked \<or> q' = Failing \<or> (\<exists>specs. fillable D specs \<and> q' = Filling specs specs \<and> ch w' EDO_CHAIN = Some [])"
    and "q = Failing \<Longrightarrow> q' = Failing"
    and "q = Filling specs rest \<Longrightarrow> q' = Failing \<or> (\<exists>rest'. q' = Filling specs rest' \<and>
       (rest' = rest \<and> ch w' EDO_CHAIN = ch w EDO_CHAIN \<or>
        (\<exists>s acc acc'. rest = s # rest' \<and> ch w EDO_CHAIN = Some acc \<and> ch w' EDO_CHAIN = Some acc' \<and>
           set acc' = insert s (set acc))))"
proof -
  note frame = harmless_frame[OF assms(1) _ assms(3)]
  have own: "EDO_CHAIN \<in> own_chains" "\<And>c. c \<in> set FORWARD_HOOK_CANDIDATES \<Longrightarrow> c \<in> own_chains" by (simp_all add: own_chains_def)
  note eff = ipt_run_effect[OF assms(1)]
  have other: "hooked_first (ch w') = hooked_first (ch w)"
    if "args = ''iptables'' # opt # EDO_CHAIN # x" for opt x
  proof (rule hooked_first_cong)
    fix c assume c: "c \<in> set FORWARD_HOOK_CANDIDATES"
    show "ch w' c = ch w c"
      using eff(1)[of "opt # EDO_CHAIN # x" w r w'] assms(3) that ipt_effect_frame[of opt EDO_CHAIN x "ch w" "ch w'" c] edo_no_candidate[OF c] by auto
  qed
  show "q \<noteq> Before \<Longrightarrow> hooked_first (ch w') = hooked_first (ch w)"
  proof -
    assume q: "q \<noteq> Before"
    from assms(2) consider "harmless args" | opt x where "args = ''iptables'' # opt # EDO_CHAIN # x"
      by cases (use q in auto)
    then show ?thesis
    proof cases
      case 1
      show ?thesis by (rule hooked_first_cong) (simp add: frame[OF 1] own)
    qed (rule other)
  qed
  show "q = Before \<Longrightarrow> q' = Before \<or> q' = Failing \<or> q' = Hooked \<and> hooked_first (ch w')"
    using assms(2)
  proof cases
    case (hooked c out err)
    then have "ipt_effect [''-I'', c, ''1'', ''-j'', EDO_CHAIN] (ch w) = Some (ch w')"
      using eff(2)[of "[''-I'', c, ''1'', ''-j'', EDO_CHAIN]" w r w' out err] assms(3) by simp
    then have "\<exists>rs. ch w' c = Some ([''-j'', EDO_CHAIN] # rs)" by auto (metis fun_upd_same)
    then show ?thesis using hooked unfolding hooked_first_def by blast
  qed auto
  show "q = Hooked \<Longrightarrow> q' = Hooked \<or> q' = Failing \<or> (\<exists>specs. fillable D specs \<and> q' = Filling specs specs \<and> ch w' EDO_CHAIN = Some [])"
    using assms(2)
  proof cases
    case (flushed specs out err)
    then have "ipt_effect [''-F'', EDO_CHAIN] (ch w) = Some (ch w')"
      using eff(2)[of "[''-F'', EDO_CHAIN]" w r w' out err] assms(3) by simp
    then have "ch w' EDO_CHAIN = Some []" by auto (metis fun_upd_same)
    then show ?thesis using flushed by auto
  qed auto
  show "q = Failing \<Longrightarrow> q' = Failing" using assms(2) by cases auto
  show "q = Filling specs rest \<Longrightarrow> q' = Failing \<or> (\<exists>rest'. q' = Filling specs rest' \<and>
       (rest' = rest \<and> ch w' EDO_CHAIN = ch w EDO_CHAIN \<or>
        (\<exists>s acc acc'. rest = s # rest' \<and> ch w EDO_CHAIN = Some acc \<and> ch w' EDO_CHAIN = Some acc' \<and>
           set acc' = insert s (set acc))))"
    using assms(2)
  proof cases
    case quiet
    then show "q = Filling specs rest \<Longrightarrow> ?thesis" using frame own by auto
  next
    case (known specs' s rest' out err)
    then have "ipt_effect (''-C'' # EDO_CHAIN # s) (ch w) = Some (ch w')"
      using eff(2)[of "''-C'' # EDO_CHAIN # s" w r w' out err] assms(3) by simp
    then obtain acc where "ch w EDO_CHAIN = Some acc" "ch w' EDO_CHAIN = Some acc" "s \<in> set acc" by (auto split: option.splits if_splits)
    then show "q = Filling specs rest \<Longrightarrow> ?thesis" using known by auto
  next
    case (appended specs' s rest' out err)
    then have "ipt_effect (''-A'' # EDO_CHAIN # s) (ch w) = Some (ch w')"
      using eff(2)[of "''-A'' # EDO_CHAIN # s" w r w' out err] assms(3) by simp
    then obtain acc where "ch w EDO_CHAIN = Some acc" "ch w' EDO_CHAIN = Some (acc @ [s])" by auto (metis fun_upd_same)
    then show "q = Filling specs rest \<Longrightarrow> ?thesis" using appended by auto
  qed auto
qed

section \<open>The race\<close>

datatype racer =
    Resting
  | Peers_known "owner \<Rightarrow> string list option"
  | Applying "(exc + apply_result) prog"

text \<open>\<open>rc_returned\<close> and \<open>rc_raised\<close>: a rebuild of the run has returned, or raised.\<close>

record ('w, 't) race =
  rc_daemon :: "'w daemon"
  rc_threads :: "'t \<Rightarrow> racer"
  rc_returned :: bool
  rc_raised :: bool

definition set_thread :: "'t \<Rightarrow> racer \<Rightarrow> ('w, 't) race \<Rightarrow> ('w, 't) race" where
  "set_thread t x b = b\<lparr>rc_threads := (rc_threads b)(t := x)\<rparr>"

definition set_world :: "'w \<Rightarrow> ('w, 't) race \<Rightarrow> ('w, 't) race" where
  "set_world w b = b\<lparr>rc_daemon := (rc_daemon b)\<lparr>world := w\<rparr>\<rparr>"

text \<open>
  \<open>D\<close> holds the states of the database that the run visits; other threads write to it within \<open>D\<close>, and to the
  machine except for the chains of iptables.
\<close>

inductive race_step :: "db set \<Rightarrow> 'w service \<Rightarrow> ('w \<Rightarrow> chains) \<Rightarrow> ('w, 't) race \<Rightarrow> ('w, 't) race \<Rightarrow> bool"
  for D :: "db set" and v :: "'w service" and ch :: "'w \<Rightarrow> chains" where
  elsewhere: "store s' \<in> D \<Longrightarrow> ch (world s') = ch (world (rc_daemon b)) \<Longrightarrow> race_step D v ch b (b\<lparr>rc_daemon := s'\<rparr>)"
| reads_peers: "rc_threads b t = Resting \<Longrightarrow>
     race_step D v ch b (set_thread t (Peers_known (peers_grouped_by_owner (store (rc_daemon b)))) b)"
| reads_octets: "rc_threads b t = Peers_known ps \<Longrightarrow>
     race_step D v ch b (set_thread t (Applying (apply_prog ps (octets_by_owner (store (rc_daemon b))) (vpn_port v))) b)"
| runs: "rc_threads b t = Applying (Exec args k) \<Longrightarrow>
     exec (host_of (machine_of v)) (cmd args) (world (rc_daemon b)) = (r, w) \<Longrightarrow>
     race_step D v ch b (set_world w (set_thread t (Applying (k r)) b))"
| looks: "rc_threads b t = Applying (Which name k) \<Longrightarrow>
     race_step D v ch b (set_thread t (Applying (k (which (host_of (machine_of v)) name (world (rc_daemon b))))) b)"
| returns: "rc_threads b t = Applying (Done (Inr res)) \<Longrightarrow>
     race_step D v ch b ((set_thread t Resting b)\<lparr>rc_returned := True\<rparr>)"
| raises: "rc_threads b t = Applying (Done (Inl e)) \<Longrightarrow>
     race_step D v ch b ((set_thread t Resting b)\<lparr>rc_raised := True\<rparr>)"

definition race_runs :: "db set \<Rightarrow> 'w service \<Rightarrow> ('w \<Rightarrow> chains) \<Rightarrow> ('w, 't) race \<Rightarrow> ('w, 't) race \<Rightarrow> bool" where
  "race_runs D v ch = (race_step D v ch)\<^sup>*\<^sup>*"

text \<open>
  What holds of the chain and the courses \<open>C\<close> of the threads. Once nobody is before its hook, the jump is
  first. Once nobody has its flush ahead either, every rule of the chain belongs to some tables, and
  all the rules of one rebuild are there, or still to come from a thread that runs it.
\<close>

definition valid_rule :: "db set \<Rightarrow> rule \<Rightarrow> bool" where
  "valid_rule D s \<longleftrightarrow> (\<exists>specs. fillable D specs \<and> s \<in> set specs)"

definition filled :: "db set \<Rightarrow> course set \<Rightarrow> rule list \<Rightarrow> bool" where
  "filled D C acc \<longleftrightarrow> (\<forall>s \<in> set acc. valid_rule D s) \<and>
     (\<exists>specs rest. fillable D specs \<and> set specs \<subseteq> set acc \<union> set rest \<and> (rest = [] \<or> Filling specs rest \<in> C))"

definition race_ok :: "db set \<Rightarrow> course set \<Rightarrow> bool \<Rightarrow> chains \<Rightarrow> bool" where
  "race_ok D C returned chs \<longleftrightarrow>
     (\<forall>specs rest. Filling specs rest \<in> C \<longrightarrow> fillable D specs \<and> set rest \<subseteq> set specs) \<and>
     (returned \<or> C \<noteq> {} \<longrightarrow> Before \<notin> C \<longrightarrow> Failing \<notin> C \<longrightarrow> hooked_first chs) \<and>
     (returned \<or> C \<noteq> {} \<longrightarrow> Before \<notin> C \<longrightarrow> Failing \<notin> C \<longrightarrow> Hooked \<notin> C \<longrightarrow>
        (\<exists>acc. chs EDO_CHAIN = Some acc \<and> filled D C acc))"

lemma race_okI:
  assumes "\<And>a b. Filling a b \<in> C \<Longrightarrow> fillable D a \<and> set b \<subseteq> set a"
    and "Before \<notin> C \<Longrightarrow> Failing \<notin> C \<Longrightarrow> hooked_first chs"
    and "Before \<notin> C \<Longrightarrow> Failing \<notin> C \<Longrightarrow> Hooked \<notin> C \<Longrightarrow> \<exists>acc. chs EDO_CHAIN = Some acc \<and> filled D C acc"
  shows "race_ok D C returned chs"
  using assms unfolding race_ok_def by blast

lemma race_okD:
  assumes "race_ok D C returned chs"
  shows "Filling a b \<in> C \<Longrightarrow> fillable D a \<and> set b \<subseteq> set a"
    and "returned \<or> q \<in> C \<Longrightarrow> Before \<notin> C \<Longrightarrow> Failing \<notin> C \<Longrightarrow> hooked_first chs"
    and "returned \<or> q \<in> C \<Longrightarrow> Before \<notin> C \<Longrightarrow> Failing \<notin> C \<Longrightarrow> Hooked \<notin> C \<Longrightarrow> \<exists>acc. chs EDO_CHAIN = Some acc \<and> filled D C acc"
  using assms unfolding race_ok_def by blast+

text \<open>One thread goes from \<open>q\<close> to \<open>q'\<close>; another one may be at \<open>q\<close> too.\<close>

definition moved :: "course set \<Rightarrow> course \<Rightarrow> course \<Rightarrow> course set \<Rightarrow> bool" where
  "moved C q q' C' \<longleftrightarrow> q \<in> C \<and> q' \<in> C' \<and> C' \<subseteq> insert q' C \<and> C \<subseteq> insert q C'"

lemma moved_ran: "qs t = Some q \<Longrightarrow> moved (ran qs) q q' (ran (qs(t \<mapsto> q')))"
  unfolding moved_def ran_def by (auto split: if_splits) (metis option.inject)

lemma race_ok_held:
  "race_ok D C returned chs \<Longrightarrow> C' \<subseteq> insert q C \<Longrightarrow> q \<in> C' \<Longrightarrow> q = Before \<or> q = Failing \<Longrightarrow> race_ok D C' returned' chs'"
  unfolding race_ok_def by blast

lemma race_ok_returns:
  assumes "race_ok D C returned chs" "Filling specs [] \<in> C" "C' \<subseteq> C" "C \<subseteq> insert (Filling specs []) C'"
  shows "race_ok D C' True chs"
proof -
  have "filled D C' acc" if "filled D C acc" for acc
    using that assms(4) unfolding filled_def by blast
  moreover have "q \<in> C \<longleftrightarrow> q \<in> C'" if "q \<noteq> Filling specs []" for q using assms(3,4) that by blast
  ultimately show ?thesis using assms(1,2,3) unfolding race_ok_def by blast
qed

text \<open>One command of one thread.\<close>

lemma filled_grows:
  assumes "filled D C acc" "moved C (Filling specs rest) (Filling specs rest') C'" "fillable D specs" "set rest \<subseteq> set specs"
    and "set acc' = insert s (set acc)" "rest = s # rest'"
  shows "filled D C' acc'"
proof -
  obtain specs1 rest1 where all: "\<And>x. x \<in> set acc \<Longrightarrow> valid_rule D x" "fillable D specs1" "set specs1 \<subseteq> set acc \<union> set rest1"
    "rest1 = [] \<or> Filling specs1 rest1 \<in> C"
    using assms(1) unfolding filled_def by blast
  have "valid_rule D s" using assms(3,4,6) by (auto simp: valid_rule_def)
  then have valid: "\<forall>x \<in> set acc'. valid_rule D x" using all(1) assms(5) by auto
  show ?thesis
  proof (cases "Filling specs1 rest1 = Filling specs rest")
    case True
    then have "set specs1 \<subseteq> set acc' \<union> set rest'" "Filling specs1 rest' \<in> C'" using all(3) assms(2,5,6) by (auto simp: moved_def)
    then show ?thesis using valid all(2) unfolding filled_def by blast
  next
    case False
    then have "rest1 = [] \<or> Filling specs1 rest1 \<in> C'" using all(4) assms(2) by (auto simp: moved_def)
    moreover have "set specs1 \<subseteq> set acc' \<union> set rest1" using all(3) assms(5) by auto
    ultimately show ?thesis using valid all(2) unfolding filled_def by blast
  qed
qed

lemma filled_moved: "filled D C acc \<Longrightarrow> moved C q q C' \<Longrightarrow> filled D C' acc"
  unfolding filled_def moved_def by blast

lemma race_ok_before:
  assumes "race_ok D C returned chs" "moved C Before Hooked C'" "hooked_first chs'"
  shows "race_ok D C' returned chs'"
proof (rule race_okI)
  show "Filling a b \<in> C' \<Longrightarrow> fillable D a \<and> set b \<subseteq> set a" for a b
    using race_okD(1)[OF assms(1)] assms(2) by (auto simp: moved_def)
qed (use assms(2,3) in \<open>simp_all add: moved_def\<close>)

lemma moved_away: "moved C q q' C' \<Longrightarrow> x \<in> C \<Longrightarrow> x \<noteq> q \<Longrightarrow> x \<in> C'"
  by (auto simp: moved_def)

lemma moved_first:
  assumes "race_ok D C returned chs" "moved C q q' C'" "q \<noteq> Before" "q \<noteq> Failing" "Before \<notin> C'" "Failing \<notin> C'"
  shows "hooked_first chs"
proof (rule race_okD(2)[OF assms(1)])
  show "Before \<notin> C" "Failing \<notin> C" using moved_away[OF assms(2)] assms(3-6) by metis+
  show "returned \<or> q \<in> C" using assms(2) by (simp add: moved_def)
qed

lemma race_ok_hooked:
  assumes "race_ok D C returned chs" "moved C Hooked q' C'" "hooked_first chs' = hooked_first chs"
    and "q' = Hooked \<or> (\<exists>specs. fillable D specs \<and> q' = Filling specs specs \<and> chs' EDO_CHAIN = Some [])"
  shows "race_ok D C' returned chs'"
proof (rule race_okI)
  show "Filling a b \<in> C' \<Longrightarrow> fillable D a \<and> set b \<subseteq> set a" for a b
    using race_okD(1)[OF assms(1), of a b] assms(2,4) by (auto simp: moved_def)
  show "Before \<notin> C' \<Longrightarrow> Failing \<notin> C' \<Longrightarrow> hooked_first chs'"
    using moved_first[OF assms(1,2)] assms(3) by simp
  show "\<exists>acc. chs' EDO_CHAIN = Some acc \<and> filled D C' acc" if "Hooked \<notin> C'"
  proof -
    obtain specs where "fillable D specs" "q' = Filling specs specs" "chs' EDO_CHAIN = Some []"
      using assms(2,4) \<open>Hooked \<notin> C'\<close> by (auto simp: moved_def)
    then show ?thesis using assms(2) by (auto simp: filled_def moved_def intro!: exI[of _ specs])
  qed
qed

lemma race_ok_filling:
  assumes "race_ok D C returned chs" "moved C (Filling specs rest) (Filling specs rest') C'" "hooked_first chs' = hooked_first chs"
    and how: "rest' = rest \<and> chs' EDO_CHAIN = chs EDO_CHAIN \<or>
      (\<exists>s acc acc'. rest = s # rest' \<and> chs EDO_CHAIN = Some acc \<and> chs' EDO_CHAIN = Some acc' \<and> set acc' = insert s (set acc))"
  shows "race_ok D C' returned chs'"
proof (rule race_okI)
  have mine: "fillable D specs" "set rest \<subseteq> set specs"
    using race_okD(1)[OF assms(1)] assms(2) by (auto simp: moved_def)
  have "set rest' \<subseteq> set rest" using how by auto
  then show "Filling a b \<in> C' \<Longrightarrow> fillable D a \<and> set b \<subseteq> set a" for a b
    using race_okD(1)[OF assms(1), of a b] assms(2) mine by (auto simp: moved_def)
  show "Before \<notin> C' \<Longrightarrow> Failing \<notin> C' \<Longrightarrow> hooked_first chs'"
    using moved_first[OF assms(1,2)] assms(3) by simp
  show "\<exists>acc. chs' EDO_CHAIN = Some acc \<and> filled D C' acc" if "Before \<notin> C'" "Failing \<notin> C'" "Hooked \<notin> C'"
  proof -
    have "Before \<notin> C" "Failing \<notin> C" "Hooked \<notin> C" "Filling specs rest \<in> C"
      using moved_away[OF assms(2)] that assms(2) by (auto simp: moved_def)
    then obtain acc where acc: "chs EDO_CHAIN = Some acc" "filled D C acc" using race_okD(3)[OF assms(1)] by blast
    from how show ?thesis
    proof (elim disjE exE conjE)
      assume "rest' = rest" "chs' EDO_CHAIN = chs EDO_CHAIN"
      then show ?thesis using acc filled_moved[OF acc(2)] assms(2) by auto
    next
      fix s acc1 acc'
      assume new: "rest = s # rest'" "chs EDO_CHAIN = Some acc1" "chs' EDO_CHAIN = Some acc'" "set acc' = insert s (set acc1)"
      then have "set acc' = insert s (set acc)" using acc(1) by simp
      from filled_grows[OF acc(2) assms(2) mine this new(1)] show ?thesis using new(3) by blast
    qed
  qed
qed

lemma race_ok_command:
  assumes "iptables_ok h ch" "course_step D q args r q'" "exec h (cmd args) w = (r, w')"
    and "race_ok D C returned (ch w)" "moved C q q' C'"
  shows "race_ok D C' returned (ch w')"
proof (cases "q' = Before \<or> q' = Failing")
  case True
  then show ?thesis using assms(5) by (intro race_ok_held[OF assms(4)]) (auto simp: moved_def)
next
  case False
  note step = course_step_chains[OF assms(1-3)]
  show ?thesis
  proof (cases q)
    case Before
    then have "q' = Hooked" "hooked_first (ch w')" using step(2) False by blast+
    then show ?thesis using race_ok_before[OF assms(4)] assms(5) Before by simp
  next
    case Hooked
    then show ?thesis using race_ok_hooked[OF assms(4)] assms(5) step(1,3) False by blast
  next
    case (Filling specs rest)
    then show ?thesis using race_ok_filling[OF assms(4)] assms(5) step(1) step(5)[OF Filling] False by blast
  next
    case Failing
    then show ?thesis using step(4) False by simp
  qed
qed

text \<open>What holds of the whole race while no rebuild has raised.\<close>

definition racer_ok :: "db set \<Rightarrow> 'w host \<Rightarrow> racer \<Rightarrow> course option \<Rightarrow> bool" where
  "racer_ok D h x q =
     (case x of
        Resting \<Rightarrow> q = None
      | Peers_known ps \<Rightarrow> q = None \<and> (\<exists>d \<in> D. ps = peers_grouped_by_owner d)
      | Applying p \<Rightarrow> (case q of None \<Rightarrow> False | Some c \<Rightarrow> goes D h p c may_return))"

definition race_inv :: "db set \<Rightarrow> 'w host \<Rightarrow> ('w \<Rightarrow> chains) \<Rightarrow> ('w, 't) race \<Rightarrow> bool" where
  "race_inv D h ch b \<longleftrightarrow> store (rc_daemon b) \<in> D \<and>
     (\<exists>qs. (\<forall>t. racer_ok D h (rc_threads b t) (qs t)) \<and>
        (rc_raised b \<or> race_ok D (ran qs) (rc_returned b) (ch (world (rc_daemon b)))))"

lemma racers_set:
  "(\<And>u. racer_ok D h (f u) (qs u)) \<Longrightarrow> racer_ok D h x q \<Longrightarrow> racer_ok D h ((f(t := x)) u) ((qs(t := q)) u)"
  by simp

lemma ran_start: "qs t = None \<Longrightarrow> ran (qs(t \<mapsto> q)) = insert q (ran qs)"
  by (rule ran_map_upd)

lemma ran_stop: "qs t = Some q \<Longrightarrow> ran (qs(t := None)) \<subseteq> ran qs \<and> ran qs \<subseteq> insert q (ran (qs(t := None)))"
  unfolding ran_def by (auto split: if_splits) (metis option.inject)

lemma race_inv_start:
  assumes "store (rc_daemon b) \<in> D" "\<forall>t. rc_threads b t = Resting" "\<not> rc_returned b"
  shows "race_inv D h ch b"
  using assms unfolding race_inv_def by (intro conjI exI[of _ "\<lambda>_. None"]) (auto simp: racer_ok_def race_ok_def ran_def)

lemma race_step_inv:
  assumes h: "h = host_of (machine_of v)" "iptables_ok h ch" "no_firewalld h" "plain_routes h" "D \<subseteq> Collect db_ok"
    and "race_step D v ch b b'" "race_inv D h ch b"
  shows "race_inv D h ch b'"
proof -
  obtain qs where inv: "store (rc_daemon b) \<in> D" "\<And>t. racer_ok D h (rc_threads b t) (qs t)"
    "rc_raised b \<or> race_ok D (ran qs) (rc_returned b) (ch (world (rc_daemon b)))"
    using assms(7) unfolding race_inv_def by blast
  note put = racers_set[of D h "rc_threads b" qs, OF inv(2)]
  from assms(6) show ?thesis
  proof cases
    case (elsewhere s')
    then show ?thesis using inv unfolding race_inv_def by (intro conjI exI[of _ qs]) auto
  next
    case (reads_peers t)
    have "qs t = None" using inv(2)[of t] reads_peers by (simp add: racer_ok_def)
    then have "qs(t := None) = qs" by (rule fun_upd_idem)
    moreover have "racer_ok D h (Peers_known (peers_grouped_by_owner (store (rc_daemon b)))) None"
      using inv(1) by (auto simp: racer_ok_def)
    ultimately show ?thesis
      using reads_peers put[of "Peers_known _" None t] inv unfolding race_inv_def
      by (intro conjI exI[of _ qs]) (auto simp: set_thread_def)
  next
    case (reads_octets t ps)
    obtain d where known: "qs t = None" "d \<in> D" "ps = peers_grouped_by_owner d"
      using inv(2)[of t] reads_octets by (auto simp: racer_ok_def)
    then have "racer_ok D h (Applying (apply_prog ps (octets_by_owner (store (rc_daemon b))) (vpn_port v))) (Some Before)"
      using apply_follows[OF h(4,3,5) known(2) inv(1) known(3) refl] by (simp add: racer_ok_def)
    moreover have "race_ok D (ran (qs(t \<mapsto> Before))) (rc_returned b) chs'" if "race_ok D (ran qs) (rc_returned b) chs'" for chs'
      by (rule race_ok_held[OF that]) (auto simp: ran_start[of qs t, OF known(1)])
    ultimately show ?thesis
      using reads_octets put inv(1,3) unfolding race_inv_def
      by (intro conjI exI[of _ "qs(t \<mapsto> Before)"]) (auto simp: set_thread_def)
  next
    case (runs t args k r w)
    obtain q where q: "qs t = Some q" "goes D h (Exec args k) q may_return"
      using inv(2)[of t] runs by (auto simp: racer_ok_def split: option.splits)
    then obtain q' where q': "course_step D q args r q'" "goes D h (k r) q' may_return" using runs h(1) by auto
    have "race_ok D (ran (qs(t \<mapsto> q'))) (rc_returned b) (ch w)" if "race_ok D (ran qs) (rc_returned b) (ch (world (rc_daemon b)))"
      using race_ok_command[OF h(2) q'(1) _ that moved_ran[of qs, OF q(1)]] runs h(1) by simp
    then show ?thesis
      using runs put[of "Applying (k r)" "Some q'" t] q'(2) inv(1,3) unfolding race_inv_def
      by (intro conjI exI[of _ "qs(t \<mapsto> q')"]) (auto simp: set_thread_def set_world_def racer_ok_def)
  next
    case (looks t name k)
    obtain q where q: "qs t = Some q" "goes D h (Which name k) q may_return"
      using inv(2)[of t] looks by (auto simp: racer_ok_def split: option.splits)
    then have "qs(t \<mapsto> q) = qs" by (simp add: fun_upd_idem)
    then show ?thesis
      using looks put[of "Applying (k (which h name (world (rc_daemon b))))" "Some q" t] q(2) inv(1,3) h(1) unfolding race_inv_def
      by (intro conjI exI[of _ qs]) (auto simp: set_thread_def racer_ok_def)
  next
    case (returns t res)
    obtain specs where q: "qs t = Some (Filling specs [])"
      using inv(2)[of t] returns by (auto simp: racer_ok_def may_return_def split: option.splits)
    then have "race_ok D (ran (qs(t := None))) True chs'" if "race_ok D (ran qs) (rc_returned b) chs'" for chs'
      using race_ok_returns[OF that ranI[of qs, OF q]] ran_stop[of qs, OF q] by blast
    then show ?thesis
      using returns put[of Resting None t] inv(1,3) unfolding race_inv_def
      by (intro conjI exI[of _ "qs(t := None)"]) (auto simp: set_thread_def racer_ok_def)
  next
    case (raises t e)
    then show ?thesis
      using put[of Resting None t] inv(1) unfolding race_inv_def
      by (intro conjI exI[of _ "qs(t := None)"]) (auto simp: set_thread_def racer_ok_def)
  qed
qed

lemma race_runs_inv:
  assumes "iptables_ok (host_of (machine_of v)) ch" "no_firewalld (host_of (machine_of v))" "plain_routes (host_of (machine_of v))" "D \<subseteq> Collect db_ok"
    and "race_runs D v ch b b'" "race_inv D (host_of (machine_of v)) ch b"
  shows "race_inv D (host_of (machine_of v)) ch b'"
  using assms(5) unfolding race_runs_def
  by (induction rule: rtranclp_induct) (use assms(6) race_step_inv[OF refl assms(1-4)] in auto)

text \<open>A rebuild that nothing interrupts is \<open>apply_firewall\<close> on the tables as they are.\<close>

lemma set_simps [simp]:
  "rc_threads (set_thread t x b) = (rc_threads b)(t := x)" "rc_daemon (set_thread t x b) = rc_daemon b"
  "rc_threads (set_world w b) = rc_threads b" "rc_daemon (set_world w b) = (rc_daemon b)\<lparr>world := w\<rparr>"
  "set_thread t x (set_thread t y b) = set_thread t x b" "set_world w (set_world w' b) = set_world w b"
  "set_thread t x (set_world w b) = set_world w (set_thread t x b)"
  by (simp_all add: set_thread_def set_world_def)

lemma alone:
  "rc_threads b t = Applying p \<Longrightarrow> run_prog (host_of (machine_of v)) p (world (rc_daemon b)) = (x, w) \<Longrightarrow>
   race_runs D v ch b (set_world w (set_thread t (Applying (Done x)) b))"
proof (induction p arbitrary: b)
  case (Done y)
  then have "set_world w (set_thread t (Applying (Done x)) b) = b"
    by (simp add: set_world_def set_thread_def fun_upd_idem)
  then show ?case by (simp add: race_runs_def)
next
  case (Exec args k)
  obtain r w1 where ex: "exec (host_of (machine_of v)) (cmd args) (world (rc_daemon b)) = (r, w1)" by fastforce
  let ?b1 = "set_world w1 (set_thread t (Applying (k r)) b)"
  have "race_runs D v ch ?b1 (set_world w (set_thread t (Applying (Done x)) ?b1))"
    by (rule Exec.IH) (use Exec.prems(2) ex in simp_all)
  moreover have "race_step D v ch b ?b1" by (rule runs[OF Exec.prems(1) ex])
  ultimately show ?case by (simp add: race_runs_def converse_rtranclp_into_rtranclp)
next
  case (Which name k)
  let ?b1 = "set_thread t (Applying (k (which (host_of (machine_of v)) name (world (rc_daemon b))))) b"
  have "race_runs D v ch ?b1 (set_world w (set_thread t (Applying (Done x)) ?b1))"
    by (rule Which.IH) (use Which.prems(2) in simp_all)
  moreover have "race_step D v ch b ?b1" by (rule looks[OF Which.prems(1)])
  ultimately show ?case by (simp add: race_runs_def converse_rtranclp_into_rtranclp)
qed

lemma rebuild_alone:
  assumes "rc_threads b t = Resting"
    and "apply_tables v (peers_grouped_by_owner (store (rc_daemon b)), octets_by_owner (store (rc_daemon b))) (rc_daemon b) = (Inr res, s')"
  shows "race_runs D v ch b (b\<lparr>rc_daemon := s', rc_returned := True\<rparr>)"
proof -
  let ?ps = "peers_grouped_by_owner (store (rc_daemon b))" and ?os = "octets_by_owner (store (rc_daemon b))"
  let ?p = "apply_prog ?ps ?os (vpn_port v)"
  obtain w where w: "apply_firewall (host_of (machine_of v)) ?ps ?os (vpn_port v) (world (rc_daemon b)) = (Inr res, w)"
    "s' = (rc_daemon b)\<lparr>world := w\<rparr>"
    using assms(2) by (auto simp: apply_tables_def on_world_def split: prod.splits)
  let ?b1 = "set_thread t (Peers_known ?ps) b" and ?b2 = "set_thread t (Applying ?p) b"
  let ?b3 = "set_world w (set_thread t (Applying (Done (Inr res))) b)"
  have one: "race_step D v ch b ?b1" by (rule reads_peers[OF assms(1)])
  have two: "race_step D v ch ?b1 ?b2" using reads_octets[of ?b1 t ?ps D v ch] by simp
  have "race_runs D v ch ?b2 (set_world w (set_thread t (Applying (Done (Inr res))) ?b2))"
    by (rule alone[of _ _ ?p]) (simp_all add: run_apply w(1))
  then have three: "(race_step D v ch)\<^sup>*\<^sup>* ?b2 ?b3" by (simp add: race_runs_def)
  have four: "race_step D v ch ?b3 ((set_thread t Resting ?b3)\<lparr>rc_returned := True\<rparr>)" by (rule returns) simp
  have "(set_thread t Resting ?b3)\<lparr>rc_returned := True\<rparr> = b\<lparr>rc_daemon := s', rc_returned := True\<rparr>"
    using assms(1) w(2) by (simp add: set_world_def set_thread_def fun_upd_idem)
  moreover have "race_runs D v ch b ((set_thread t Resting ?b3)\<lparr>rc_returned := True\<rparr>)"
    unfolding race_runs_def
    by (rule rtranclp.rtrancl_into_rtrancl[of "race_step D v ch", OF converse_rtranclp_into_rtranclp[of "race_step D v ch",
          OF one converse_rtranclp_into_rtranclp[of "race_step D v ch", OF two three]] four])
  ultimately show ?thesis by (simp only:)
qed

section \<open>When all is quiet\<close>

text \<open>What a rule that matches a packet says about it.\<close>

abbreviation spec_list :: "string \<Rightarrow> rule list \<Rightarrow> rule list" where
  "spec_list i accepts \<equiv> [''-s'', net_str WG_SUBNET, ''-d'', net_str WG_SUBNET, ''-j'', ''DROP''] # accepts @
       [[''-s'', net_str DOCKER_POOL, ''-d'', net_str DOCKER_POOL, ''-j'', ''DROP''],
        [''-s'', net_str DOCKER_POOL, ''-o'', i, ''-j'', ''DROP'']]"

lemma fillable_rules:
  assumes "fillable D specs" "D \<subseteq> Collect db_ok" "documented_match rm"
  shows "\<exists>i accepts. \<exists>d \<in> D. \<exists>d' \<in> D. plain_iface i \<and> specs = spec_list i accepts \<and> (\<forall>s \<in> set accepts. last s = ''ACCEPT'') \<and>
    (\<forall>p. wf_packet p \<longrightarrow> (\<exists>s \<in> set accepts. rm s p) = granted (grants (peers_grouped_by_owner d) (octets_by_owner d')) p)"
proof -
  obtain i d d' where d: "d \<in> D" "d' \<in> D" "plain_iface i"
    "build_chain_rules i (peers_grouped_by_owner d) (octets_by_owner d') = Inr (map ((#) EDO_CHAIN) specs)"
    using assms(1) unfolding fillable_def by blast
  have wf: "wf_inputs (peers_grouped_by_owner d) (octets_by_owner d')"
    using some_tables_wf[of "(peers_grouped_by_owner d, octets_by_owner d')"] d assms(2) by (auto simp: some_tables_def)
  obtain accepts where acc: "owner_rules (peers_grouped_by_owner d) (octets_by_owner d') = Inr accepts"
    using wf by (simp add: owner_rules_ok)
  have "specs = map tl (map ((#) EDO_CHAIN) specs)" by (simp add: comp_def)
  also have "map ((#) EDO_CHAIN) specs = [EDO_CHAIN, ''-s'', net_str WG_SUBNET, ''-d'', net_str WG_SUBNET, ''-j'', ''DROP''] # accepts @
       [[EDO_CHAIN, ''-s'', net_str DOCKER_POOL, ''-d'', net_str DOCKER_POOL, ''-j'', ''DROP''],
        [EDO_CHAIN, ''-s'', net_str DOCKER_POOL, ''-o'', i, ''-j'', ''DROP'']]"
    using d(4) acc by (simp add: build_chain_rules_def Let_def)
  finally have "specs = spec_list i (map tl accepts)" by simp
  moreover have "last s = ''ACCEPT''" if "s \<in> set (map tl accepts)" for s
    using that acc wf by (auto simp: owner_rules_ok dest: accept_pair_accepts)
  moreover have "(\<exists>s \<in> set (map tl accepts). rm s p) \<longleftrightarrow> granted (grants (peers_grouped_by_owner d) (octets_by_owner d')) p"
    if "wf_packet p" for p
    using granted_iff[OF assms(3) wf that acc] by (simp add: list_ex_iff)
  ultimately show ?thesis using d(1-3) by blast
qed

lemma valid_rule_kinds:
  assumes "valid_rule D s" "rm s p" "D \<subseteq> Collect db_ok" "documented_match rm" "wf_packet p"
  shows "last s = ''DROP'' \<and> (in_net (pkt_src p) WG_SUBNET \<and> in_net (pkt_dst p) WG_SUBNET \<or> in_net (pkt_src p) DOCKER_POOL) \<or>
    last s = ''ACCEPT'' \<and> (\<exists>d \<in> D. \<exists>d' \<in> D. granted (grants (peers_grouped_by_owner d) (octets_by_owner d')) p)"
proof -
  obtain specs where specs: "fillable D specs" "s \<in> set specs" using assms(1) by (auto simp: valid_rule_def)
  obtain i d d' accepts where d: "d \<in> D" "d' \<in> D" "plain_iface i" "specs = spec_list i accepts"
    and acc: "\<forall>s \<in> set accepts. last s = ''ACCEPT''"
      "\<forall>p. wf_packet p \<longrightarrow> (\<exists>s \<in> set accepts. rm s p) = granted (grants (peers_grouped_by_owner d) (octets_by_owner d')) p"
    using fillable_rules[OF specs(1) assms(3,4)] by blast
  show ?thesis
  proof (cases "s \<in> set accepts")
    case True
    then show ?thesis using acc assms(2,5) d(1,2) by blast
  next
    case False
    then show ?thesis
      using specs(2) assms(2) unfolding d(4)
      by (auto simp: match_net_net[OF assms(4)] match_net_oif[OF assms(4) _ d(3)])
  qed
qed

text \<open>Both ends of a packet that some tables grant: a peer, and the subnet of the octet of its owner.\<close>

lemma granted_ends:
  assumes "granted (grants (peers_grouped_by_owner d) (octets_by_owner d')) p" "db_ok d" "db_ok d'" "wf_packet p"
  obtains q k where "q \<in> set (peers d)" "get_octet (peer_owner q) d' = Some k"
    "ip_address q = ip_str (pkt_src p) \<and> in_net (pkt_dst p) (owner_net (nat k)) \<and> in_net (pkt_src p) WG_SUBNET \<and> in_net (pkt_dst p) DOCKER_POOL \<or>
     ip_address q = ip_str (pkt_dst p) \<and> in_net (pkt_src p) (owner_net (nat k)) \<and> in_net (pkt_dst p) WG_SUBNET \<and> in_net (pkt_src p) DOCKER_POOL"
proof -
  have pool: "in_net a DOCKER_POOL" if "in_net a (owner_net (nat k))" "(key, k) \<in> set (octets_by_owner d')" for a key k
    using owner_net_in_pool[OF _ that(1)] fwdb.octet_range[OF assms(3) that(2)] by force
  show ?thesis
  proof (rule mixed.granted_cases[of "(d, d')" p])
    fix key k
    assume k: "(key, k) \<in> set (case (d, d') of (d, d') \<Rightarrow> octets_by_owner d')"
      "ip_str (pkt_src p) \<in> set (get_peers (case (d, d') of (d, d') \<Rightarrow> peers_grouped_by_owner d) key)"
      "in_net (pkt_src p) WG_SUBNET" "in_net (pkt_dst p) (owner_net (nat k))"
    then show thesis using that pool[OF k(4), of key] by (auto simp: grouped_iff octets_by_owner_iff[OF assms(3)])
  next
    fix key k
    assume k: "(key, k) \<in> set (case (d, d') of (d, d') \<Rightarrow> octets_by_owner d')"
      "ip_str (pkt_dst p) \<in> set (get_peers (case (d, d') of (d, d') \<Rightarrow> peers_grouped_by_owner d) key)"
      "in_net (pkt_dst p) WG_SUBNET" "in_net (pkt_src p) (owner_net (nat k))"
    then show thesis using that pool[OF k(4), of key] by (auto simp: grouped_iff octets_by_owner_iff[OF assms(3)])
  qed (use assms in simp_all)
qed

text \<open>What all is quiet leaves: a chain of valid rules with all the rules of one rebuild.\<close>

definition quiet_chain :: "db set \<Rightarrow> rule list \<Rightarrow> bool" where
  "quiet_chain D acc \<longleftrightarrow> (\<forall>s \<in> set acc. valid_rule D s) \<and> (\<exists>specs. fillable D specs \<and> set specs \<subseteq> set acc)"

lemma race_quiet:
  assumes "race_inv D h ch b" "\<forall>t. rc_threads b t = Resting" "rc_returned b" "\<not> rc_raised b"
  shows "hooked_first (ch (world (rc_daemon b))) \<and> (\<exists>acc. ch (world (rc_daemon b)) EDO_CHAIN = Some acc \<and> quiet_chain D acc)"
proof -
  obtain qs where qs: "\<And>t. racer_ok D h (rc_threads b t) (qs t)" "race_ok D (ran qs) True (ch (world (rc_daemon b)))"
    using assms(1,3,4) unfolding race_inv_def by auto
  have "qs t = None" for t using qs(1)[of t] assms(2) by (simp add: racer_ok_def)
  then have "ran qs = {}" by (auto simp: ran_def)
  then have "race_ok D {} True (ch (world (rc_daemon b)))" using qs(2) by simp
  then show ?thesis unfolding race_ok_def filled_def quiet_chain_def by auto
qed

lemma verdict_cases:
  assumes "quiet_chain D acc" "D \<subseteq> Collect db_ok" "documented_match rm" "wf_packet p"
  obtains (none) "\<forall>s \<in> set acc. \<not> rm s p"
  | (dropped) "decision_of (chain_verdict rm acc p) = Dropped"
      "in_net (pkt_src p) WG_SUBNET \<and> in_net (pkt_dst p) WG_SUBNET \<or> in_net (pkt_src p) DOCKER_POOL"
  | (accepted) d d' where "decision_of (chain_verdict rm acc p) = Accepted" "d \<in> D" "d' \<in> D"
      "granted (grants (peers_grouped_by_owner d) (octets_by_owner d')) p"
proof (cases "find (\<lambda>s. rm s p) acc")
  case None
  then show ?thesis using none by (auto simp: find_None_iff)
next
  case (Some s)
  then have "s \<in> set acc" "rm s p" by (auto simp: find_Some_iff)
  then show ?thesis
    using valid_rule_kinds[of D s rm p] assms Some dropped accepted by (auto simp: chain_verdict_def quiet_chain_def)
qed

lemma kept_apart:
  assumes "quiet_chain D acc" "D \<subseteq> Collect db_ok" "documented_match rm" "wf_packet p"
    and ends: "in_net (pkt_src p) DOCKER_POOL \<and> in_net (pkt_dst p) DOCKER_POOL \<or>
      in_net (pkt_src p) WG_SUBNET \<and> in_net (pkt_dst p) WG_SUBNET"
  shows "decision_of (chain_verdict rm acc p) = Dropped"
proof -
  obtain specs where specs: "fillable D specs" "set specs \<subseteq> set acc" using assms(1) by (auto simp: quiet_chain_def)
  obtain i accepts where "specs = spec_list i accepts" using fillable_rules[OF specs(1) assms(2,3)] by blast
  then have "\<exists>s \<in> set specs. rm s p" using ends by (auto simp: match_net_net[OF assms(3)])
  then have hit: "\<exists>s \<in> set acc. rm s p" using specs(2) by blast
  from assms(1-4) show ?thesis
  proof (cases rule: verdict_cases)
    case none
    then show ?thesis using hit by blast
  next
    case (accepted d d')
    then have "db_ok d" "db_ok d'" using assms(2) by auto
    from granted_ends[OF accepted(4) this assms(4)] show ?thesis using ends wg_not_pool by metis
  qed
qed

lemma accepted_is_granted:
  assumes "quiet_chain D acc" "D \<subseteq> Collect db_ok" "documented_match rm" "wf_packet p" "decision_of (chain_verdict rm acc p) = Accepted"
  shows "\<exists>d \<in> D. \<exists>d' \<in> D. \<exists>q \<in> set (peers d). \<exists>k. get_octet (peer_owner q) d' = Some k \<and>
     (ip_address q = ip_str (pkt_src p) \<and> in_net (pkt_dst p) (owner_net (nat k)) \<or>
      ip_address q = ip_str (pkt_dst p) \<and> in_net (pkt_src p) (owner_net (nat k)))"
  using assms(1-4)
proof (cases rule: verdict_cases)
  case none
  then have "chain_verdict rm acc p = None" by (simp add: chain_verdict_def find_None_iff)
  then show ?thesis using assms(5) by simp
next
  case (accepted d d')
  then have "db_ok d" "db_ok d'" using assms(2) by auto
  from granted_ends[OF accepted(4) this assms(4)] show ?thesis using accepted(2,3) by metis
qed (use assms(5) in simp_all)

lemma own_subnet_open:
  assumes "quiet_chain D acc" "D \<subseteq> Collect db_ok" "documented_match rm"
  shows "\<exists>d \<in> D. \<exists>d' \<in> D. \<forall>p q k. wf_packet p \<longrightarrow> q \<in> set (peers d) \<longrightarrow> ip_address q = ip_str (pkt_src p) \<longrightarrow>
     get_octet (peer_owner q) d' = Some k \<longrightarrow> in_net (pkt_dst p) (owner_net (nat k)) \<longrightarrow>
     decision_of (chain_verdict rm acc p) = Accepted"
proof -
  obtain given where given: "fillable D given" "set given \<subseteq> set acc" using assms(1) by (auto simp: quiet_chain_def)
  obtain i d d' accepts where d: "d \<in> D" "d' \<in> D" and list: "given = spec_list i accepts"
    and hits: "\<forall>p. wf_packet p \<longrightarrow> (\<exists>s \<in> set accepts. rm s p) = granted (grants (peers_grouped_by_owner d) (octets_by_owner d')) p"
    using fillable_rules[OF given(1) assms(2,3)] by blast
  have "decision_of (chain_verdict rm acc p) = Accepted"
    if p: "wf_packet p" "q \<in> set (peers d)" "ip_address q = ip_str (pkt_src p)"
      "get_octet (peer_owner q) d' = Some k" "in_net (pkt_dst p) (owner_net (nat k))" for p q k
  proof -
    have ok: "db_ok d" "db_ok d'" using d assms(2) by auto
    have key: "(peer_owner q, k) \<in> set (octets_by_owner d')" using p(4) by (simp add: octets_by_owner_iff[OF ok(2)])
    have peer: "ip_str (pkt_src p) \<in> set (get_peers (peers_grouped_by_owner d) (peer_owner q))" using p(2,3) by (auto simp: grouped_iff)
    have "granted (grants (peers_grouped_by_owner d) (octets_by_owner d')) p" by (rule grantedI[OF key peer p(5)])
    then have "\<exists>s \<in> set given. rm s p" using hits p(1) list by auto
    then have hit: "\<exists>s \<in> set acc. rm s p" using given(2) by blast
    have dst: "in_net (pkt_dst p) DOCKER_POOL"
      using owner_net_in_pool[OF _ p(5)] fwdb.octet_range[OF ok(2) key] by force
    obtain a where "in_net a WG_SUBNET" "ip_str (pkt_src p) = ip_str a" using fwdb.peer_addr[OF ok(1) peer] by blast
    then have src: "in_net (pkt_src p) WG_SUBNET" using p(1) wg_addr_bound by (auto simp: wf_packet_def ip_str_inj)
    from assms p(1) show ?thesis
    proof (cases rule: verdict_cases)
      case none
      then show ?thesis using hit by blast
    next
      case dropped
      then show ?thesis using src dst wg_not_pool by blast
    qed
  qed
  then show ?thesis using d by blast
qed

end
