(* ===== verification/Daemon_Process.thy ===== *)
theory Daemon_Process
  imports Daemon_Laws "HOL-Library.Word"
begin

text \<open>
  The process around the RPC server of \<open>Daemon_Rpc\<close>: the settings that \<open>edo_daemon.py\<close> reads from its
  environment, the credentials that the kernel gives for a connection, the socket file with its owner
  and mode, and \<open>main\<close> from the check of \<open>EDO_ALLOWED_UID\<close> to the removal of the socket.
\<close>

unbundle bit_operations_syntax

section \<open>Settings\<close>

record settings =
  cf_path :: string
  cf_owner :: string
  cf_uid :: "string option"
  cf_endpoint :: string
  cf_port :: int
  cf_spawns :: int

definition getenv :: "(string \<rightharpoonup> string) \<Rightarrow> string \<Rightarrow> string \<Rightarrow> string" where
  "getenv env k dflt = (case env k of None \<Rightarrow> dflt | Some t \<Rightarrow> t)"

text \<open>\<open>int\<close> of a text that is no number, and a semaphore below zero, end the process as it is loaded.\<close>

definition read_settings :: "(string \<rightharpoonup> string) \<Rightarrow> exc + settings" where
  "read_settings env =
     sum_bind (int_of_text (getenv env ''EDO_VPN_PORT'' ''51820'')) (\<lambda>port.
     sum_bind (int_of_text (getenv env ''EDO_MAX_CONCURRENT_SPAWNS'' ''4'')) (\<lambda>n.
     if n < 0 then Inl (ValueError ''semaphore initial value must be >= 0'')
     else Inr \<lparr>cf_path = getenv env ''EDO_SOCKET_PATH'' ''/run/edo/edo.sock'',
                cf_owner = getenv env ''EDO_SOCKET_OWNER'' ''root:ctfd'',
                cf_uid = env ''EDO_ALLOWED_UID'',
                cf_endpoint = getenv env ''EDO_VPN_ENDPOINT'' ''vpn.example.com:51820'',
                cf_port = port, cf_spawns = n\<rparr>))"

definition service_of :: "'w machine \<Rightarrow> 'w files \<Rightarrow> settings \<Rightarrow> 'w service" where
  "service_of m f cf =
     \<lparr>machine_of = m, files_of = f, allowed_uid = cf_uid cf, vpn_endpoint = cf_endpoint cf, vpn_port = cf_port cf\<rparr>"

section \<open>Credentials of a connection\<close>

text \<open>
  \<open>SO_PEERCRED\<close>: the kernel's \<open>struct ucred\<close>, three words of 32 bits of which the last two are
  unsigned, as it lies in memory. \<open>struct.unpack("3i", \<dots>)\<close> reads three signed integers.
\<close>

record ucred =
  uc_pid :: "32 word"
  uc_uid :: "32 word"
  uc_gid :: "32 word"

definition word_bytes :: "32 word \<Rightarrow> 8 word list" where
  "word_bytes w = [ucast w, ucast (drop_bit 8 w), ucast (drop_bit 16 w), ucast (drop_bit 24 w)]"

definition ucred_bytes :: "ucred \<Rightarrow> 8 word list" where
  "ucred_bytes c = word_bytes (uc_pid c) @ word_bytes (uc_uid c) @ word_bytes (uc_gid c)"

fun bytes_word :: "8 word list \<Rightarrow> 32 word" where
  "bytes_word [] = 0"
| "bytes_word (b # bs) = ucast b OR push_bit 8 (bytes_word bs)"

fun unpack_ints :: "nat \<Rightarrow> 8 word list \<Rightarrow> exc + int list" where
  "unpack_ints 0 bs = (if bs = [] then Inr [] else Inl (StructError ''unpack requires a buffer of 12 bytes''))"
| "unpack_ints (Suc n) bs =
     (if length bs < 4 then Inl (StructError ''unpack requires a buffer of 12 bytes'')
      else sum_bind (unpack_ints n (drop 4 bs)) (\<lambda>is. Inr (sint (bytes_word (take 4 bs)) # is)))"

text \<open>\<open>getsockopt\<close> gives at most \<open>struct.calcsize("3i")\<close> bytes.\<close>

definition peer_credentials :: "8 word list \<Rightarrow> exc + int \<times> int \<times> int" where
  "peer_credentials buf =
     sum_bind (unpack_ints 3 (take 12 buf)) (\<lambda>is. Inr (is ! 0, is ! 1, is ! 2))"

definition serve_connection ::
  "'w service \<Rightarrow> 8 word list \<Rightarrow> event list \<Rightarrow> 'w daemon \<Rightarrow> served \<times> 'w daemon" where
  "serve_connection v buf evs s =
     (case peer_credentials buf of
        Inl e \<Rightarrow> (closed_by e, s)
      | Inr (pid, uid, gid) \<Rightarrow> serve_one v uid evs s)"

section \<open>The socket file\<close>

record sock_file =
  sf_owner :: int
  sf_group :: int
  sf_mode :: int

type_synonym sock_files = "string \<rightharpoonup> sock_file"

definition SOCKET_MODE :: int where
  "SOCKET_MODE = 432"

text \<open>The user and group databases, and the \<open>umask\<close> of the daemon, which runs as root.\<close>

record accounts =
  getpwnam :: "string \<rightharpoonup> int"
  getgrnam :: "string \<rightharpoonup> int"

definition bind_socket :: "int \<Rightarrow> string \<Rightarrow> (sock_files, unit) act" where
  "bind_socket umask path fs =
     (if fs path \<noteq> None then (Inl (OSError ''Address already in use''), fs)
      else (Inr (), fs(path \<mapsto> \<lparr>sf_owner = 0, sf_group = 0, sf_mode = 511 AND NOT umask\<rparr>)))"

text \<open>\<open>SOCKET_OWNER.split(":", 1)\<close> into two.\<close>

definition split_owner :: "string \<Rightarrow> (string \<times> string) option" where
  "split_owner t =
     (case dropWhile (\<lambda>c. c \<noteq> CHR '':'') t of
        [] \<Rightarrow> None
      | _ # g \<Rightarrow> Some (takeWhile (\<lambda>c. c \<noteq> CHR '':'') t, g))"

definition chown_socket :: "accounts \<Rightarrow> string \<Rightarrow> string \<Rightarrow> (sock_files, unit) act" where
  "chown_socket a owner_text path fs =
     (case split_owner owner_text of
        None \<Rightarrow> (Inr (), fs)
      | Some (u, g) \<Rightarrow>
          (case getpwnam a u of
             None \<Rightarrow> (Inl (KeyError (''getpwnam(): name not found: '' @ u)), fs)
           | Some uid \<Rightarrow>
               (case getgrnam a g of
                  None \<Rightarrow> (Inl (KeyError (''getgrnam(): name not found: '' @ g)), fs)
                | Some gid \<Rightarrow>
                    (case fs path of
                       None \<Rightarrow> (Inl (FileNotFoundError path), fs)
                     | Some f \<Rightarrow> (Inr (), fs(path \<mapsto> f\<lparr>sf_owner := uid, sf_group := gid, sf_mode := SOCKET_MODE\<rparr>))))))"

definition unlink_stale :: "string \<Rightarrow> sock_files \<Rightarrow> sock_files" where
  "unlink_stale path fs = (if fs path \<noteq> None then fs(path := None) else fs)"

definition open_socket :: "accounts \<Rightarrow> int \<Rightarrow> settings \<Rightarrow> (sock_files, unit) act" where
  "open_socket a umask cf fs =
     and_then (bind_socket umask (cf_path cf) (unlink_stale (cf_path cf) fs)) (\<lambda>_ fs.
     chown_socket a (cf_owner cf) (cf_path cf) fs)"

section \<open>The process\<close>

text \<open>
  Who connects: the credentials and the further groups of the client. The kernel lets it connect when
  the mode of the file gives it write permission, as the owner, in the group, or as one of the others.
\<close>

record client_process =
  cl_cred :: ucred
  cl_groups :: "32 word list"

definition cl_uid :: "client_process \<Rightarrow> int" where
  "cl_uid c = uint (uc_uid (cl_cred c))"

definition cl_gids :: "client_process \<Rightarrow> int list" where
  "cl_gids c = map uint (uc_gid (cl_cred c) # cl_groups c)"

definition admits :: "sock_file \<Rightarrow> client_process \<Rightarrow> bool" where
  "admits f c \<longleftrightarrow> cl_uid c = 0 \<or>
     (if cl_uid c = sf_owner f then bit (sf_mode f) 7
      else if sf_group f \<in> set (cl_gids c) then bit (sf_mode f) 4
      else bit (sf_mode f) 1)"

datatype main_event = Client client_process "event list" | Accept_error | Stop_signal

datatype fate = Running | Stopped | Exited int | Crashed exc

record 'w process =
  pr_daemon :: "'w daemon"
  pr_files :: sock_files

definition serve_client ::
  "'w service \<Rightarrow> string \<Rightarrow> client_process \<Rightarrow> event list \<Rightarrow> 'w process \<Rightarrow> 'w process" where
  "serve_client v path c evs p =
     (case pr_files p path of
        None \<Rightarrow> p
      | Some f \<Rightarrow>
          if admits f c
          then p\<lparr>pr_daemon := snd (serve_connection v (ucred_bytes (cl_cred c)) evs (pr_daemon p))\<rparr>
          else p)"

text \<open>
  The loop of \<open>main\<close>: an \<open>OSError\<close> of \<open>accept\<close> breaks it, and so does a signal, whose handler closes the
  listening socket. Both times the file is removed. Connections are served one after the other, as
  in \<open>serve_session\<close>.
\<close>

fun accept_loop :: "'w service \<Rightarrow> string \<Rightarrow> main_event list \<Rightarrow> 'w process \<Rightarrow> fate \<times> 'w process" where
  "accept_loop v path [] p = (Running, p)"
| "accept_loop v path (Client c evs # es) p = accept_loop v path es (serve_client v path c evs p)"
| "accept_loop v path (Accept_error # es) p = (Stopped, p\<lparr>pr_files := unlink_stale path (pr_files p)\<rparr>)"
| "accept_loop v path (Stop_signal # es) p = (Stopped, p\<lparr>pr_files := unlink_stale path (pr_files p)\<rparr>)"

definition daemon_main ::
  "'w machine \<Rightarrow> 'w files \<Rightarrow> accounts \<Rightarrow> int \<Rightarrow> settings \<Rightarrow> main_event list \<Rightarrow> 'w process \<Rightarrow> fate \<times> 'w process" where
  "daemon_main m f a umask cf es p =
     (case start_up (service_of m f cf) (pr_daemon p) of
        (Inl e, d) \<Rightarrow> (Crashed e, p\<lparr>pr_daemon := d\<rparr>)
      | (Inr False, d) \<Rightarrow> (Exited 1, p\<lparr>pr_daemon := d\<rparr>)
      | (Inr True, d) \<Rightarrow>
          (case open_socket a umask cf (pr_files p) of
             (Inl e, fs) \<Rightarrow> (Crashed e, p\<lparr>pr_daemon := d, pr_files := fs\<rparr>)
           | (Inr _, fs) \<Rightarrow> accept_loop (service_of m f cf) (cf_path cf) es (p\<lparr>pr_daemon := d, pr_files := fs\<rparr>)))"

section \<open>What the credentials say\<close>

lemma bytes_word_bytes [simp]: "bytes_word (word_bytes w) = w"
proof (rule bit_word_eqI)
  fix n
  assume "n < LENGTH(32)"
  then consider "n < 8" | "8 \<le> n" "n < 16" | "16 \<le> n" "n < 24" | "24 \<le> n" "n < 32" by force
  then show "bit (bytes_word (word_bytes w)) n \<longleftrightarrow> bit w n"
    by cases (auto simp: word_bytes_def bit_simps)
qed

lemma unpack_word:
  "unpack_ints (Suc n) (word_bytes w @ bs) = sum_bind (unpack_ints n bs) (\<lambda>is. Inr (sint w # is))"
proof -
  have "length (word_bytes w) = 4" by (simp add: word_bytes_def)
  then show ?thesis by simp
qed

lemma unpack_last: "unpack_ints (Suc 0) (word_bytes w) = Inr [sint w]"
  using unpack_word[of 0 w "[]"] by simp

lemma peer_credentials_reads:
  "peer_credentials (ucred_bytes c) = Inr (sint (uc_pid c), sint (uc_uid c), sint (uc_gid c))"
proof -
  have "take 12 (ucred_bytes c) = ucred_bytes c" by (simp add: ucred_bytes_def word_bytes_def)
  moreover have "unpack_ints 3 (ucred_bytes c) = Inr [sint (uc_pid c), sint (uc_uid c), sint (uc_gid c)]"
    unfolding ucred_bytes_def numeral_3_eq_3 by (simp only: unpack_word unpack_last) (simp add: sum_bind_def)
  ultimately show ?thesis by (simp add: peer_credentials_def)
qed

lemma serve_connection_uid:
  "serve_connection v (ucred_bytes c) evs s = serve_one v (sint (uc_uid c)) evs s"
  by (simp add: serve_connection_def peer_credentials_reads)

text \<open>
  A uid below \<open>2 ^ 31\<close> is read as it is. One above is read as a negative number, so it is neither root's nor
  any uid that a number without sign can name.
\<close>

lemma sint_shift: "sint w = (uint w + 2 ^ 31) mod 2 ^ 32 - 2 ^ 31" for w :: "32 word"
  by (simp add: sint_uint signed_take_bit_eq_take_bit_shift take_bit_eq_mod)

lemma sint_small: "uint w < 2 ^ 31 \<Longrightarrow> sint w = uint w" for w :: "32 word"
  unfolding sint_shift by (simp add: mod_pos_pos_trivial)

lemma sint_big:
  fixes w :: "32 word"
  assumes "2 ^ 31 \<le> uint w"
  shows "sint w = uint w - 2 ^ 32"
proof -
  have "(uint w + 2 ^ 31) mod 2 ^ 32 = ((uint w - 2 ^ 31) + 2 ^ 32) mod 2 ^ 32" by (rule arg_cong) simp
  also have "\<dots> = uint w - 2 ^ 31"
    unfolding mod_add_self2 using assms uint_lt2p[of w] by (intro mod_pos_pos_trivial) simp_all
  finally show ?thesis by (simp add: sint_shift)
qed

lemma sint_is: "0 \<le> n \<Longrightarrow> sint w = n \<longleftrightarrow> n < 2 ^ 31 \<and> uint w = n" for w :: "32 word"
  using sint_small[of w] sint_big[of w] uint_lt2p[of w] by (cases "uint w < 2 ^ 31") auto

lemma authorized_word:
  fixes w :: "32 word"
  assumes "allowed_uid v = Some t" "int_of_text t = Inr n" "0 \<le> n"
  shows "authorized v (sint w) = Inr (uint w = 0 \<or> n < 2 ^ 31 \<and> uint w = n)"
  using assms sint_is[of 0 w] sint_is[OF assms(3), of w] by (auto simp: authorized_def sum_bind_def)

lemma connection_served:
  assumes "allowed_uid v = Some t" "int_of_text t = Inr n" "0 \<le> n"
  shows "serve_connection v (ucred_bytes c) evs s =
     (if uint (uc_uid c) = 0 \<or> n < 2 ^ 31 \<and> uint (uc_uid c) = n then serve_one v (uint (uc_uid c)) evs s
      else send_reply (error_reply ''unauthorized'') s)"
proof (cases "uint (uc_uid c) = 0 \<or> n < 2 ^ 31 \<and> uint (uc_uid c) = n")
  case True
  then have "sint (uc_uid c) = uint (uc_uid c)" by (intro sint_small) auto
  then show ?thesis using True by (simp add: serve_connection_uid)
next
  case False
  then have "authorized v (sint (uc_uid c)) = Inr False" by (simp add: authorized_word[OF assms])
  then show ?thesis by (simp only: serve_connection_uid refused_reply if_not_P[OF False])
qed

section \<open>The file of the socket\<close>

lemma open_socket_owned:
  assumes "split_owner (cf_owner cf) = Some (u, g)" "getpwnam a u = Some ow" "getgrnam a g = Some gr"
  shows "open_socket a umask cf fs =
     (Inr (), fs(cf_path cf \<mapsto> \<lparr>sf_owner = ow, sf_group = gr, sf_mode = SOCKET_MODE\<rparr>))"
  using assms by (auto simp: open_socket_def bind_socket_def unlink_stale_def chown_socket_def)

lemma open_socket_malformed:
  assumes "split_owner (cf_owner cf) = None"
  shows "open_socket a umask cf fs =
     (Inr (), fs(cf_path cf \<mapsto> \<lparr>sf_owner = 0, sf_group = 0, sf_mode = 511 AND NOT umask\<rparr>))"
  using assms by (auto simp: open_socket_def bind_socket_def unlink_stale_def chown_socket_def)

lemma admits_owned:
  "admits \<lparr>sf_owner = ow, sf_group = gr, sf_mode = SOCKET_MODE\<rparr> c \<longleftrightarrow>
     cl_uid c = 0 \<or> cl_uid c = ow \<or> gr \<in> set (cl_gids c)"
  by (simp add: admits_def SOCKET_MODE_def)

lemma admits_default:
  assumes "bit umask 4" "bit umask 1"
  shows "admits \<lparr>sf_owner = 0, sf_group = 0, sf_mode = 511 AND NOT umask\<rparr> c \<longleftrightarrow> cl_uid c = 0"
  using assms by (simp add: admits_def bit_simps)

lemma serve_client_files [simp]: "pr_files (serve_client v path c evs p) = pr_files p"
  by (simp add: serve_client_def split: option.split)

lemma accept_loop_files:
  assumes "accept_loop v path es p = (ft, p')"
  shows "ft = Running \<and> pr_files p' = pr_files p \<or> ft = Stopped \<and> pr_files p' = unlink_stale path (pr_files p)"
  using assms by (induction v path es p rule: accept_loop.induct) auto

section \<open>Who can make the daemon do anything\<close>

text \<open>
  A client that root runs, or that runs under the allowed uid with the right to write to the socket file
  as \<open>EDO_SOCKET_OWNER\<close> sets it.
\<close>

fun trusted :: "int \<Rightarrow> int \<Rightarrow> int \<Rightarrow> main_event \<Rightarrow> bool" where
  "trusted n ow gr (Client c evs) \<longleftrightarrow>
     cl_uid c = 0 \<or> n < 2 ^ 31 \<and> cl_uid c = n \<and> (n = ow \<or> gr \<in> set (cl_gids c))"
| "trusted n ow gr _ \<longleftrightarrow> True"

lemma untrusted_client:
  assumes "allowed_uid v = Some t" "int_of_text t = Inr n" "0 \<le> n"
    and "pr_files p path = Some \<lparr>sf_owner = ow, sf_group = gr, sf_mode = SOCKET_MODE\<rparr>"
    and "\<not> trusted n ow gr (Client c evs)"
  shows "serve_client v path c evs p = p"
proof -
  have "snd (serve_connection v (ucred_bytes (cl_cred c)) evs (pr_daemon p)) = pr_daemon p"
    if "admits \<lparr>sf_owner = ow, sf_group = gr, sf_mode = SOCKET_MODE\<rparr> c"
  proof -
    have "\<not> (uint (uc_uid (cl_cred c)) = 0 \<or> n < 2 ^ 31 \<and> uint (uc_uid (cl_cred c)) = n)"
      using that assms(5) by (auto simp: admits_owned cl_uid_def)
    then show ?thesis by (simp only: connection_served[OF assms(1-3)] if_not_P) (simp add: send_reply_def)
  qed
  then show ?thesis by (simp add: serve_client_def assms(4))
qed

lemma accept_loop_trusted:
  assumes "allowed_uid v = Some t" "int_of_text t = Inr n" "0 \<le> n"
    and "pr_files p path = Some \<lparr>sf_owner = ow, sf_group = gr, sf_mode = SOCKET_MODE\<rparr>"
  shows "accept_loop v path es p = accept_loop v path (filter (trusted n ow gr) es) p"
  using assms(1,4)
proof (induction v path es p rule: accept_loop.induct)
  case (2 v path c evs es p)
  then show ?case using untrusted_client[OF 2(2) assms(2,3) 2(3)] by simp
qed simp_all

lemma main_trusted:
  assumes "cf_uid cf = Some t" "int_of_text t = Inr n" "0 \<le> n"
    and "split_owner (cf_owner cf) = Some (u, g)" "getpwnam a u = Some ow" "getgrnam a g = Some gr"
  shows "daemon_main m f a umask cf es p = daemon_main m f a umask cf (filter (trusted n ow gr) es) p"
proof -
  let ?f = "\<lparr>sf_owner = ow, sf_group = gr, sf_mode = SOCKET_MODE\<rparr>" and ?v = "service_of m f cf"
  have "accept_loop ?v (cf_path cf) es (p\<lparr>pr_daemon := d, pr_files := (pr_files p)(cf_path cf \<mapsto> ?f)\<rparr>) =
      accept_loop ?v (cf_path cf) (filter (trusted n ow gr) es) (p\<lparr>pr_daemon := d, pr_files := (pr_files p)(cf_path cf \<mapsto> ?f)\<rparr>)" for d
    by (rule accept_loop_trusted[OF _ assms(2,3)]) (simp_all add: service_of_def assms(1))
  then show ?thesis by (simp only: daemon_main_def open_socket_owned[OF assms(4-6)] prod.case sum.case)
qed

section \<open>The life of the socket\<close>

text \<open>
  Whatever file an earlier process left, a start that gets through its initialisation opens the socket;
  the file is there with its owner, group and mode while the daemon runs, and gone when it has stopped.
\<close>

lemma main_socket:
  assumes "split_owner (cf_owner cf) = Some (u, g)" "getpwnam a u = Some ow" "getgrnam a g = Some gr"
    and "start_up (service_of m f cf) (pr_daemon p) = (Inr True, d)"
    and "daemon_main m f a umask cf es p = (ft, p')"
  shows "ft = Running \<and> pr_files p' = (pr_files p)(cf_path cf \<mapsto> \<lparr>sf_owner = ow, sf_group = gr, sf_mode = SOCKET_MODE\<rparr>) \<or>
     ft = Stopped \<and> pr_files p' = (pr_files p)(cf_path cf := None)"
proof -
  let ?f = "\<lparr>sf_owner = ow, sf_group = gr, sf_mode = SOCKET_MODE\<rparr>"
  have "accept_loop (service_of m f cf) (cf_path cf) es (p\<lparr>pr_daemon := d, pr_files := (pr_files p)(cf_path cf \<mapsto> ?f)\<rparr>) = (ft, p')"
    using assms(5) by (simp add: daemon_main_def assms(4) open_socket_owned[OF assms(1-3)])
  from accept_loop_files[OF this] show ?thesis by (simp add: unlink_stale_def)
qed

text \<open>What the daemon's tables keep in a session they keep in the whole process.\<close>

lemma serve_client_session:
  "\<exists>conns. pr_daemon (serve_client v path c evs p) = serve_session v conns (pr_daemon p)"
proof (cases "case pr_files p path of None \<Rightarrow> False | Some f \<Rightarrow> admits f c")
  case True
  then show ?thesis
    by (intro exI[of _ "[(sint (uc_uid (cl_cred c)), evs)]"])
      (simp add: serve_client_def serve_connection_uid split: option.splits)
next
  case False
  then show ?thesis by (intro exI[of _ "[]"]) (simp add: serve_client_def split: option.splits)
qed

lemma serve_session_append:
  "serve_session v (xs @ ys) s = serve_session v ys (serve_session v xs s)"
  by (induction v xs s rule: serve_session.induct) simp_all

lemma accept_loop_session:
  "\<exists>conns. pr_daemon (snd (accept_loop v path es p)) = serve_session v conns (pr_daemon p)"
proof (induction v path es p rule: accept_loop.induct)
  case (2 v path c evs es p)
  then obtain conns where "pr_daemon (snd (accept_loop v path es (serve_client v path c evs p))) =
      serve_session v conns (pr_daemon (serve_client v path c evs p))" by blast
  moreover obtain conns' where "pr_daemon (serve_client v path c evs p) = serve_session v conns' (pr_daemon p)"
    using serve_client_session by blast
  ultimately show ?case by (intro exI[of _ "conns' @ conns"]) (simp add: serve_session_append)
qed (auto intro: exI[of _ "[]"])

lemma main_is_run:
  "\<exists>conns. pr_daemon (snd (daemon_main m f a umask cf es p)) = run_daemon (service_of m f cf) conns (pr_daemon p)"
proof -
  let ?v = "service_of m f cf"
  obtain r d where st: "start_up ?v (pr_daemon p) = (r, d)" by fastforce
  have stay: ?thesis if "pr_daemon (snd (daemon_main m f a umask cf es p)) = d"
    using that by (intro exI[of _ "[]"]) (simp add: run_daemon_def st split: sum.split bool.split)
  obtain q fs where sock: "open_socket a umask cf (pr_files p) = (q, fs)" by fastforce
  consider e where "r = Inl e" | "r = Inr False" | e where "r = Inr True" "q = Inl e" | "r = Inr True" "q = Inr ()"
    by (cases r; cases q) auto
  then show ?thesis
  proof cases
    case 4
    then show ?thesis
      using accept_loop_session[of ?v "cf_path cf" es "p\<lparr>pr_daemon := d, pr_files := fs\<rparr>"]
      by (simp add: daemon_main_def run_daemon_def st sock)
  qed (rule stay, simp add: daemon_main_def st sock)+
qed

end
