(* ===== verification/Plugin_Boot.thy ===== *)
theory Plugin_Boot
  imports Job_Laws
begin

text \<open>
  \<open>load\<close> of \<open>src/__init__.py\<close>, which every web worker runs once: the tables of \<open>models.py\<close>, the columns
  that were added to tables already shipped, the registrations with CTFd and Flask, the settings and
  the scheduler. Tables are here what SQL sees of them, named columns and rows of named values. The
  server is a parameter: \<open>guarded\<close> says that its \<open>ALTER TABLE\<close> takes \<open>ADD COLUMN IF NOT EXISTS\<close>, as
  MariaDB's and PostgreSQL's do and MySQL's and SQLite's do not.
\<close>

section \<open>Tables\<close>

type_synonym table_row = "(string \<times> json) list"

record sql_table =
  tb_cols :: "string list"
  tb_rows :: "table_row list"

type_synonym schema = "string \<rightharpoonup> sql_table"

definition MODEL_TABLES :: "(string \<times> string list) list" where
  "MODEL_TABLES =
     [(''edo_challenge'', [''id'', ''difficulty'', ''scoring_mode'', ''initial_value'', ''minimum_value'', ''decay'',
        ''build_path'', ''cpu_limit'', ''memory_limit_mb'', ''pids_limit'', ''read_only_rootfs'', ''ttl_seconds'',
        ''access_mode'']),
      (''edo_flag_weights'', [''id'', ''flag_id'', ''weight_pct'']),
      (''edo_flag_solves'', [''id'', ''challenge_id'', ''flag_id'', ''owner_type'', ''owner_id'', ''solved_at'']),
      (''edo_instances'', [''id'', ''challenge_id'', ''owner_type'', ''owner_id'', ''container_id'', ''container_name'',
        ''assigned_ip'', ''host_ports'', ''published_ports'', ''status'', ''created_at'', ''expires_at'',
        ''last_reconciled_at'', ''error_message'']),
      (''edo_peers'', [''id'', ''user_id'', ''owner_type'', ''owner_id'', ''public_key'', ''private_key'', ''assigned_ip'',
        ''created_at'', ''revoked'']),
      (''edo_settings'', [''key'', ''value'']),
      (''edo_audit_log'', [''id'', ''ts'', ''actor'', ''event'', ''challenge_id'', ''instance_id'', ''details'']),
      (''edo_worker_leases'', [''lock_name'', ''holder'', ''expires_at'', ''updated_at''])]"

text \<open>\<open>create_all\<close> makes the tables that do not exist, and leaves those that do as they are.\<close>

fun create_all :: "(string \<times> string list) list \<Rightarrow> schema \<Rightarrow> schema" where
  "create_all [] t = t"
| "create_all ((n, cols) # ms) t =
     create_all ms (if t n = None then t(n \<mapsto> \<lparr>tb_cols = cols, tb_rows = []\<rparr>) else t)"

text \<open>The statements of \<open>_run_column_migrations\<close>: table, column, and what existing rows get in it.\<close>

definition COLUMN_MIGRATIONS :: "(string \<times> string \<times> json) list" where
  "COLUMN_MIGRATIONS =
     [(''edo_challenge'', ''access_mode'', JStr ''vpn''), (''edo_instances'', ''published_ports'', JNull)]"

definition extend_table :: "(string \<times> json) list \<Rightarrow> sql_table \<Rightarrow> sql_table" where
  "extend_table kvs tb = \<lparr>tb_cols = tb_cols tb @ map fst kvs, tb_rows = map (\<lambda>r. r @ kvs) (tb_rows tb)\<rparr>"

definition add_column :: "bool \<Rightarrow> string \<times> string \<times> json \<Rightarrow> (schema, unit) act" where
  "add_column guarded m t =
     (case m of (n, c, v) \<Rightarrow>
        if \<not> guarded then (Inl (DatabaseError ''syntax error near IF NOT EXISTS''), t)
        else (case t n of
                None \<Rightarrow> (Inl (DatabaseError ''no such table''), t)
              | Some tb \<Rightarrow> (Inr (), if c \<in> set (tb_cols tb) then t else t(n \<mapsto> extend_table [(c, v)] tb))))"

fun run_column_migrations :: "bool \<Rightarrow> (string \<times> string \<times> json) list \<Rightarrow> (schema, unit) act" where
  "run_column_migrations guarded [] t = (Inr (), t)"
| "run_column_migrations guarded (m # ms) t =
     and_then (add_column guarded m t) (\<lambda>_ t. run_column_migrations guarded ms t)"

definition load_tables :: "bool \<Rightarrow> (schema, unit) act" where
  "load_tables guarded t = run_column_migrations guarded COLUMN_MIGRATIONS (create_all MODEL_TABLES t)"

section \<open>A worker\<close>

text \<open>What \<open>load\<close> registers, beside the tables and the site that the routes and jobs work on.\<close>

record 'w worker =
  wk_tables :: schema
  wk_types :: "(string \<times> string) list"
  wk_blueprints :: "(string \<times> string) list"
  wk_assets :: "string list"
  wk_menu :: "(string \<times> string) list"
  wk_site :: "'w ctf"
  wk_schedule :: "schedule option"

text \<open>Flask refuses a second blueprint of the same name.\<close>

definition register_blueprint :: "string \<Rightarrow> string \<Rightarrow> ('w worker, unit) act" where
  "register_blueprint name url a =
     (if name \<in> fst ` set (wk_blueprints a) then (Inl (ValueError ''blueprint name already registered''), a)
      else (Inr (), a\<lparr>wk_blueprints := wk_blueprints a @ [(name, url)]\<rparr>))"

definition seed_and_start :: "('w worker, unit) act" where
  "seed_and_start a =
     (case in_session (load_plugin (wk_schedule a)) (wk_site a) of
        (Inl e, s) \<Rightarrow> (Inl e, a\<lparr>wk_site := s\<rparr>)
      | (Inr sch, s) \<Rightarrow> (Inr (), a\<lparr>wk_site := s, wk_schedule := sch\<rparr>))"

definition load_app :: "bool \<Rightarrow> ('w worker, unit) act" where
  "load_app guarded a =
     (case load_tables guarded (wk_tables a) of
        (Inl e, t) \<Rightarrow> (Inl e, a\<lparr>wk_tables := t\<rparr>)
      | (Inr _, t) \<Rightarrow>
          and_then (register_blueprint ''edo'' ''/plugins/edo_plugin''
              (a\<lparr>wk_tables := t, wk_types := AList.update ''edo'' ''EdoChallengeType'' (wk_types a)\<rparr>)) (\<lambda>_ a.
          seed_and_start
            (a\<lparr>wk_assets := wk_assets a @ [''/plugins/edo_plugin/assets/''],
               wk_menu := wk_menu a @ [(''VPN'', ''plugins/edo_plugin/vpn'')]\<rparr>)))"

section \<open>Tables of an earlier version\<close>

text \<open>
  A table is well formed when its rows have the columns of the table. An earlier version has some of
  the tables, each with the columns of its model or short of columns that a migration adds.
\<close>

definition table_ok :: "sql_table \<Rightarrow> bool" where
  "table_ok tb \<longleftrightarrow> distinct (tb_cols tb) \<and> list_all (\<lambda>r. map fst r = tb_cols tb) (tb_rows tb)"

definition migrated :: "string \<Rightarrow> (string \<times> json) list" where
  "migrated n = map snd (filter (\<lambda>m. fst m = n) COLUMN_MIGRATIONS)"

definition older_table :: "string \<times> string list \<Rightarrow> sql_table \<Rightarrow> bool" where
  "older_table m tb \<longleftrightarrow> table_ok tb \<and> set (tb_cols tb) \<subseteq> set (snd m) \<and>
     set (snd m) \<subseteq> set (tb_cols tb) \<union> fst ` set (migrated (fst m))"

definition older_schema :: "schema \<Rightarrow> bool" where
  "older_schema t \<longleftrightarrow> list_all (\<lambda>m. case t (fst m) of None \<Rightarrow> True | Some tb \<Rightarrow> older_table m tb) MODEL_TABLES"

definition current_table :: "string \<times> string list \<Rightarrow> sql_table option \<Rightarrow> bool" where
  "current_table m otb \<longleftrightarrow> (case otb of None \<Rightarrow> False | Some tb \<Rightarrow> table_ok tb \<and> set (tb_cols tb) = set (snd m))"

definition current_schema :: "schema \<Rightarrow> bool" where
  "current_schema t \<longleftrightarrow> list_all (\<lambda>m. current_table m (t (fst m))) MODEL_TABLES"

text \<open>What a table lacks of the migrated columns.\<close>

definition lacking :: "string \<Rightarrow> sql_table \<Rightarrow> (string \<times> json) list" where
  "lacking n tb = filter (\<lambda>kv. fst kv \<notin> set (tb_cols tb)) (migrated n)"

lemma create_all_apply:
  "distinct (map fst ms) \<Longrightarrow> create_all ms t n =
     (case t n of Some tb \<Rightarrow> Some tb
      | None \<Rightarrow> map_option (\<lambda>cols. \<lparr>tb_cols = cols, tb_rows = []\<rparr>) (map_of ms n))"
  by (induction ms t rule: create_all.induct) (auto split: option.split simp: map_of_eq_None_iff)

lemma extend_nothing [simp]: "extend_table [] tb = tb"
  by (simp add: extend_table_def)

lemma table_ok_extend:
  assumes "table_ok tb" "distinct (map fst kvs)" "set (map fst kvs) \<inter> set (tb_cols tb) = {}"
  shows "table_ok (extend_table kvs tb)"
  using assms by (auto simp: table_ok_def extend_table_def list_all_iff)

text \<open>The migrations of a server that takes their syntax, on tables that all exist.\<close>

lemma migrations_apply:
  assumes "t ''edo_challenge'' \<noteq> None" "t ''edo_instances'' \<noteq> None"
  shows "run_column_migrations True COLUMN_MIGRATIONS t =
     (Inr (), \<lambda>n. map_option (\<lambda>tb. extend_table (lacking n tb) tb) (t n))"
proof -
  have other: "lacking n tb = []" if "n \<noteq> ''edo_challenge''" "n \<noteq> ''edo_instances''" for n tb
    using that by (simp add: lacking_def migrated_def COLUMN_MIGRATIONS_def)
  obtain x y where t: "t ''edo_challenge'' = Some x" "t ''edo_instances'' = Some y" using assms by blast
  have ch: "lacking ''edo_challenge'' tb = (if ''access_mode'' \<in> set (tb_cols tb) then [] else [(''access_mode'', JStr ''vpn'')])"
    and ins: "lacking ''edo_instances'' tb = (if ''published_ports'' \<in> set (tb_cols tb) then [] else [(''published_ports'', JNull)])" for tb
    by (simp_all add: lacking_def migrated_def COLUMN_MIGRATIONS_def)
  have "run_column_migrations True COLUMN_MIGRATIONS t = (Inr (),
      t(''edo_challenge'' \<mapsto> extend_table (lacking ''edo_challenge'' x) x,
        ''edo_instances'' \<mapsto> extend_table (lacking ''edo_instances'' y) y))"
    by (simp add: COLUMN_MIGRATIONS_def add_column_def t ch ins fun_upd_idem)
  moreover have "t(''edo_challenge'' \<mapsto> extend_table (lacking ''edo_challenge'' x) x,
        ''edo_instances'' \<mapsto> extend_table (lacking ''edo_instances'' y) y) =
      (\<lambda>n. map_option (\<lambda>tb. extend_table (lacking n tb) tb) (t n))"
    by (rule ext) (simp add: t other option.map_ident)
  ultimately show ?thesis by simp
qed

lemma model_names: "distinct (map fst MODEL_TABLES)"
  by (simp add: MODEL_TABLES_def)

text \<open>The whole effect on the tables: a missing one is made, a present one gets what it lacks.\<close>

definition upgraded :: "schema \<Rightarrow> schema" where
  "upgraded t = (\<lambda>n. map_option (\<lambda>tb. extend_table (lacking n tb) tb) (create_all MODEL_TABLES t n))"

lemma load_tables_upgrades: "load_tables True t = (Inr (), upgraded t)"
proof -
  have "create_all MODEL_TABLES t n \<noteq> None" if "n \<in> fst ` set MODEL_TABLES" for n
    using that by (auto simp: create_all_apply[OF model_names] dest: weak_map_of_SomeI split: option.split)
  moreover have "''edo_challenge'' \<in> fst ` set MODEL_TABLES" "''edo_instances'' \<in> fst ` set MODEL_TABLES"
    by (simp_all add: MODEL_TABLES_def)
  ultimately have "create_all MODEL_TABLES t ''edo_challenge'' \<noteq> None" "create_all MODEL_TABLES t ''edo_instances'' \<noteq> None"
    by blast+
  from migrations_apply[OF this] show ?thesis by (simp add: load_tables_def upgraded_def)
qed

lemma upgraded_present: "t n = Some tb \<Longrightarrow> upgraded t n = Some (extend_table (lacking n tb) tb)"
  by (simp add: upgraded_def create_all_apply[OF model_names])

lemma lacking_disjoint: "set (map fst (lacking n tb)) \<inter> set (tb_cols tb) = {}"
  by (auto simp: lacking_def)

lemma distinct_lacking: "distinct (map fst (lacking n tb))"
proof -
  have "distinct (map fst (migrated n))" by (simp add: migrated_def COLUMN_MIGRATIONS_def)
  then show ?thesis by (simp add: lacking_def map_filter_distinct)
qed

lemma lacks_nothing: "fst ` set (migrated n) \<subseteq> set (tb_cols tb) \<Longrightarrow> lacking n tb = []"
  by (auto simp: lacking_def filter_empty_conv)

lemma migrated_in_model: "(n, cols) \<in> set MODEL_TABLES \<Longrightarrow> fst ` set (migrated n) \<subseteq> set cols"
  by (auto simp: MODEL_TABLES_def migrated_def COLUMN_MIGRATIONS_def)

lemma older_becomes_current:
  assumes "older_table (n, cols) tb" "(n, cols) \<in> set MODEL_TABLES"
  shows "table_ok (extend_table (lacking n tb) tb) \<and> set (tb_cols (extend_table (lacking n tb) tb)) = set cols"
proof
  show "table_ok (extend_table (lacking n tb) tb)"
    using assms(1) table_ok_extend[OF _ distinct_lacking lacking_disjoint] by (simp add: older_table_def)
  have "set (map fst (lacking n tb)) = fst ` set (migrated n) - set (tb_cols tb)"
    by (auto simp: lacking_def)
  then show "set (tb_cols (extend_table (lacking n tb) tb)) = set cols"
    using assms(1) migrated_in_model[OF assms(2)] by (auto simp: older_table_def extend_table_def)
qed

lemma upgraded_current:
  assumes "older_schema t"
  shows "current_schema (upgraded t)"
proof -
  have "current_table (n, cols) (upgraded t n)" if m: "(n, cols) \<in> set MODEL_TABLES" for n cols
  proof -
    obtain tb where tb: "create_all MODEL_TABLES t n = Some tb" "older_table (n, cols) tb"
    proof (cases "t n")
      case None
      then have "create_all MODEL_TABLES t n = Some \<lparr>tb_cols = cols, tb_rows = []\<rparr>"
        using m model_names by (simp add: create_all_apply)
      moreover have "distinct cols" using m by (auto simp: MODEL_TABLES_def)
      ultimately show ?thesis using that by (simp add: older_table_def table_ok_def)
    next
      case (Some tb)
      moreover have "older_table (n, cols) tb"
        using assms m Some unfolding older_schema_def list_all_iff by fastforce
      ultimately show ?thesis using that by (simp add: create_all_apply[OF model_names])
    qed
    then show ?thesis using older_becomes_current[OF tb(2) m] by (simp add: current_table_def upgraded_def)
  qed
  then show ?thesis by (auto simp: current_schema_def list_all_iff)
qed

text \<open>Tables that are current stay as they are, so a boot that is repeated changes none.\<close>

lemma upgraded_idem:
  assumes "current_schema t"
  shows "upgraded t = t"
proof
  fix n
  show "upgraded t n = t n"
  proof (cases "n \<in> fst ` set MODEL_TABLES")
    case True
    then obtain cols where m: "(n, cols) \<in> set MODEL_TABLES" by auto
    then obtain tb where "t n = Some tb" "set (tb_cols tb) = set cols"
      using assms unfolding current_schema_def list_all_iff current_table_def by (fastforce split: option.splits)
    moreover have "lacking n tb = []" if "set (tb_cols tb) = set cols" for tb
      using that migrated_in_model[OF m] by (intro lacks_nothing) simp
    ultimately show ?thesis by (simp add: upgraded_present)
  next
    case False
    then have "map_of MODEL_TABLES n = None" by (simp add: map_of_eq_None_iff)
    moreover have "migrated n = []" using False by (auto simp: MODEL_TABLES_def migrated_def COLUMN_MIGRATIONS_def)
    ultimately show ?thesis
      by (simp add: upgraded_def create_all_apply[OF model_names] lacking_def split: option.split)
  qed
qed

section \<open>A boot\<close>

text \<open>A boot leaves the tables upgraded and the settings seeded, and a boot over what one left changes neither.\<close>

definition seeded :: "site \<Rightarrow> site" where
  "seeded d = seed_loop DEFAULTS d"

lemma seeded_ok:
  assumes "constraints_ok d"
  shows "constraints_ok (seeded d) \<and> fst ` set DEFAULTS \<subseteq> fst ` set (st_settings (seeded d)) \<and>
     (\<forall>k t. setting_row k d = Some t \<longrightarrow> setting_row k (seeded d) = Some t) \<and> seeded (seeded d) = seeded d"
proof -
  obtain kvs where kvs: "seeded d = d\<lparr>st_settings := st_settings d @ kvs\<rparr>"
    "fst ` set DEFAULTS \<subseteq> fst ` set (st_settings d @ kvs)" "distinct (map fst (st_settings d @ kvs))"
    using seed_loop_settings[of DEFAULTS d] assms unfolding constraints_ok_def seeded_def by blast
  have "constraints_ok (seeded d)"
    using assms kvs(1,3) by (simp add: constraints_ok_def instances_unique_def peers_unique_def challenges_filled_def)
  moreover have "seeded (seeded d) = seeded d"
    using kvs(1,2) unfolding seeded_def by (intro seed_loop_done) simp
  ultimately show ?thesis using kvs by (auto simp: setting_row_def map_add_def split: option.split)
qed

lemma load_plugin_seeds:
  assumes "constraints_ok (now_db s)"
  shows "in_session (load_plugin running) s =
     (Inr (start_scheduler running (seeded (now_db s))), s\<lparr>now_db := seeded (now_db s), saved_db := seeded (now_db s)\<rparr>)"
  using seeded_ok[OF assms]
  by (simp add: in_session_def load_plugin_def seed_defaults_def commit_def flush_def edit_def rollback_def seeded_def)

lemma load_app_boots:
  assumes "''edo'' \<notin> fst ` set (wk_blueprints a)" "constraints_ok (now_db (wk_site a))"
  shows "load_app True a = (Inr (), a\<lparr>wk_tables := upgraded (wk_tables a),
       wk_types := AList.update ''edo'' ''EdoChallengeType'' (wk_types a),
       wk_blueprints := wk_blueprints a @ [(''edo'', ''/plugins/edo_plugin'')],
       wk_assets := wk_assets a @ [''/plugins/edo_plugin/assets/''],
       wk_menu := wk_menu a @ [(''VPN'', ''plugins/edo_plugin/vpn'')],
       wk_site := (wk_site a)\<lparr>now_db := seeded (now_db (wk_site a)), saved_db := seeded (now_db (wk_site a))\<rparr>,
       wk_schedule := start_scheduler (wk_schedule a) (seeded (now_db (wk_site a)))\<rparr>)"
  using assms
  by (simp add: load_app_def load_tables_upgrades register_blueprint_def seed_and_start_def load_plugin_seeds)

text \<open>
  On a server that refuses the syntax no boot gets past the migrations: the worker dies before it
  registers the challenge type or mounts a route, with the tables made.
\<close>

lemma load_app_refused:
  "load_app False a =
     (Inl (DatabaseError ''syntax error near IF NOT EXISTS''), a\<lparr>wk_tables := create_all MODEL_TABLES (wk_tables a)\<rparr>)"
  by (simp add: load_app_def load_tables_def COLUMN_MIGRATIONS_def add_column_def)

section \<open>Two workers that boot at once\<close>

text \<open>
  \<open>_seed_defaults\<close> reads which settings are missing and inserts those. Its two halves, the reads on
  the database as the worker saw it and the inserts on the database as it is by then.
\<close>

definition missing_defaults :: "site \<Rightarrow> (string \<times> string) list" where
  "missing_defaults d = filter (\<lambda>kv. map_of (st_settings d) (fst kv) = None) DEFAULTS"

definition insert_defaults :: "(string \<times> string) list \<Rightarrow> ('w ctf, unit) act" where
  "insert_defaults kvs s =
     commit (edit (\<lambda>d. d\<lparr>st_settings := st_settings d @ map (\<lambda>(k, v). (k, Some v)) kvs\<rparr>) s)"

lemma seed_loop_inserts:
  "distinct (map fst kvs) \<Longrightarrow> seed_loop kvs d =
     d\<lparr>st_settings := st_settings d @
        map (\<lambda>(k, v). (k, Some v)) (filter (\<lambda>kv. map_of (st_settings d) (fst kv) = None) kvs)\<rparr>"
proof (induction kvs d rule: seed_loop.induct)
  case (2 k v kvs d)
  have "filter (\<lambda>kv. map_of (st_settings d @ [(k, Some v)]) (fst kv) = None) kvs =
      filter (\<lambda>kv. map_of (st_settings d) (fst kv) = None) kvs"
    using 2(2) by (intro filter_cong) (auto simp: map_add_def split: option.split)
  then show ?case using 2 by simp
qed simp

lemma seed_halves: "seed_defaults s = insert_defaults (missing_defaults (now_db s)) s"
proof -
  have "distinct (map fst DEFAULTS)" by (simp add: DEFAULTS_def)
  then show ?thesis
    by (simp add: seed_defaults_def insert_defaults_def missing_defaults_def edit_def seed_loop_inserts)
qed

lemma insert_defaults_clash:
  assumes "kv \<in> set kvs" "fst kv \<in> fst ` set (st_settings (now_db s))"
  shows "insert_defaults kvs s =
     (Inl (IntegrityError ''UNIQUE constraint failed''),
      edit (\<lambda>d. d\<lparr>st_settings := st_settings d @ map (\<lambda>(k, v). (k, Some v)) kvs\<rparr>) s)"
proof -
  let ?d = "(now_db s)\<lparr>st_settings := st_settings (now_db s) @ map (\<lambda>(k, v). (k, Some v)) kvs\<rparr>"
  have "map fst (st_settings ?d) = map fst (st_settings (now_db s)) @ map fst kvs" by (simp add: case_prod_unfold)
  then have "\<not> distinct (map fst (st_settings ?d))" using assms by auto
  then have "\<not> constraints_ok ?d" unfolding constraints_ok_def by blast
  then show ?thesis unfolding insert_defaults_def commit_def flush_def edit_def by simp
qed

text \<open>
  A second worker that read the settings before the first one had committed inserts what is there
  by now. Nothing catches the error: \<open>load\<close> of that worker raises.
\<close>

lemma seed_race_loses:
  assumes "constraints_ok d" "missing_defaults d \<noteq> []" "now_db s = seeded d" "saved_db s = seeded d"
  shows "in_session (insert_defaults (missing_defaults d)) s = (Inl (IntegrityError ''UNIQUE constraint failed''), s)"
proof -
  obtain kv where kv: "kv \<in> set (missing_defaults d)" using assms(2) by (cases "missing_defaults d") auto
  then have "kv \<in> set DEFAULTS" by (simp add: missing_defaults_def)
  then have "fst kv \<in> fst ` set (st_settings (now_db s))" using seeded_ok[OF assms(1)] assms(3) by auto
  from insert_defaults_clash[OF kv this] show ?thesis
    using assms(3,4) by (simp add: in_session_def rollback_def edit_def)
qed

end
