(* ===== verification/Spawn_Teardown.thy ===== *)
theory Spawn_Teardown
  imports Plugin_Daemon Spawn_Race
begin

text \<open>
  Spawns that overlap with other requests. \<open>spawn_instance\<close> of \<open>api/user.py\<close> commits the reserving row,
  waits for the daemon, which builds and starts the container, and then updates the row: three
  transactions, between which the other requests, the jobs and the spawns of other workers run. The
  route of \<open>Participant_Api\<close> is the three without anything in between. Afterwards the row may be gone:
  the session that updates it expects one row to match, and raises when none does.
\<close>

section \<open>The three parts\<close>

record pending =
  pd_row :: edo_instance
  pd_challenge :: challenge_row
  pd_ttl :: int

definition spawn_begin :: "'w plugin \<Rightarrow> int \<Rightarrow> owner \<Rightarrow> 'w ctf \<Rightarrow> (response + pending) \<times> 'w ctf" where
  "spawn_begin g cid ow s =
     (case challenge_by_id cid (now_db s) of
        None \<Rightarrow> (Inl (fail_json 404 ''challenge_not_found'' []), s)
      | Some c \<Rightarrow>
          if \<not> truthy (col ''build_path'' c) then (Inl (fail_json 400 ''challenge_has_no_build_path'' []), s)
          else if int (length (active_of ow (now_db s))) \<ge> max_containers (now_db s)
          then (Inl (fail_json 429 ''owner_container_limit'' [(''limit'', JInt (max_containers (now_db s)))]), s)
          else
            let ttl = ttl_of c (now_db s); now = clock_now g s;
                i = new_row (st_next (now_db s)) cid ow now (now + micros ttl)
            in (case reserve i s of
                  (Inl r, s') \<Rightarrow> (Inl r, s')
                | (Inr _, s') \<Rightarrow> (Inr \<lparr>pd_row = i, pd_challenge = c, pd_ttl = ttl\<rparr>, s')))"

text \<open>The call, with the arguments that may raise before it.\<close>

definition spawn_call :: "'w plugin \<Rightarrow> pending \<Rightarrow> ('w, json) act" where
  "spawn_call g p w =
     (case (security_of g (pd_challenge p), col ''build_path'' (pd_challenge p)) of
        (Inr sec, JStr path) \<Rightarrow>
          container_ensure_instance (rpc g) (ei_owner (pd_row p)) (str_int (ei_challenge (pd_row p))) path sec
            (Some (pd_ttl p)) (col ''access_mode'' (pd_challenge p) = JStr ''public'') w
      | (Inl e, _) \<Rightarrow> (Inl e, w)
      | _ \<Rightarrow> (Inl (TypeError ''build_path''), w))"

text \<open>
  What is written when the daemon has answered: the UPDATE sets the columns of the answer in the row as
  it is by then, and fails when it matches no row. After a failure the audit entry needs the id of the
  row, which the commit of the reservation has expired, so it is read again, and a row that is gone raises.
\<close>

definition spawn_record :: "'w plugin \<Rightarrow> pending \<Rightarrow> exc + json \<Rightarrow> ('w ctf, response) act" where
  "spawn_record g p out s =
     (case out of
        Inl e \<Rightarrow>
          if \<not> is_DaemonError e then (Inl e, s)
          else if instance_by_id (ei_id (pd_row p)) (now_db s) = None
          then (Inl (ObjectDeletedError ''Instance has been deleted, or its row is otherwise not present''), s)
          else spawn_failed_answer g (pd_row p) e s
      | Inr result \<Rightarrow>
          (case instance_by_id (ei_id (pd_row p)) (now_db s) of
             Some i \<Rightarrow> spawn_done g i result s
           | None \<Rightarrow>
               (case fill_row result (pd_row p) of
                  Inl e \<Rightarrow> (Inl e, s)
                | Inr _ \<Rightarrow> (Inl (StaleDataError ''UPDATE expected to update 1 row(s); 0 were matched''), s))))"

text \<open>With nothing in between the three are the route. (\<open>float\<close> raises no \<open>DaemonError\<close>.)\<close>

definition spawn_in_parts :: "'w plugin \<Rightarrow> int \<Rightarrow> owner \<Rightarrow> ('w ctf, response) act" where
  "spawn_in_parts g cid ow s =
     (case spawn_begin g cid ow s of
        (Inl r, s') \<Rightarrow> (Inr r, s')
      | (Inr p, s') \<Rightarrow> (case spawn_call g p (remote s') of (out, w) \<Rightarrow> spawn_record g p out (s'\<lparr>remote := w\<rparr>)))"

lemma reserve_ok:
  assumes "reserve i s = (Inr u, s')"
  shows "now_db s' = (now_db s)\<lparr>st_instances := st_instances (now_db s) @ [i], st_next := st_next (now_db s) + 1\<rparr>"
    "saved_db s' = now_db s'" "remote s' = remote s" "constraints_ok (now_db s')"
  using assms
  by (auto simp: reserve_def commit_def flush_def edit_def Let_def split: prod.splits sum.splits if_splits option.splits)

lemma reserved_row_found:
  assumes "ids_ok d" "ei_id i = st_next d"
  shows "find (\<lambda>j. ei_id j = ei_id i) (st_instances d @ [i]) = Some i"
proof -
  have "find (\<lambda>j. ei_id j = ei_id i) (st_instances d) = None"
    using assms by (auto simp: find_None_iff ids_ok_def)
  then show ?thesis by (simp add: find_append)
qed

lemma security_quiet:
  assumes "\<And>j e. to_float g j = Inl e \<Longrightarrow> \<not> is_DaemonError e" "security_of g c = Inl e"
  shows "\<not> is_DaemonError e"
  using assms by (auto simp: security_of_def sum_bind_def split: sum.splits if_splits)

lemma spawn_parts:
  assumes "\<And>j e. to_float g j = Inl e \<Longrightarrow> \<not> is_DaemonError e" "ids_ok (now_db s)"
  shows "spawn_in_parts g cid ow s = spawn_route g cid ow s"
proof (cases "challenge_by_id cid (now_db s)")
  case None
  then show ?thesis by (simp add: spawn_in_parts_def spawn_begin_def spawn_route_def)
next
  case (Some c)
  let ?ttl = "ttl_of c (now_db s)" and ?now = "clock_now g s"
  let ?i = "new_row (st_next (now_db s)) cid ow ?now (?now + micros ?ttl)"
  let ?p = "\<lparr>pd_row = ?i, pd_challenge = c, pd_ttl = ?ttl\<rparr>"
  have i: "ei_owner ?i = ow" "ei_challenge ?i = cid" "ei_id ?i = st_next (now_db s)" by (simp_all add: new_row_def)
  have row: "spawn_row g c ow ?ttl ?i s =
      (case spawn_call g ?p (remote s') of (out, w) \<Rightarrow> spawn_record g ?p out (s'\<lparr>remote := w\<rparr>))"
    if res: "reserve ?i s = (Inr u, s')" for u s'
  proof -
    have found: "instance_by_id (st_next (now_db s)) (now_db s') = Some ?i"
      using reserved_row_found[OF assms(2) i(3)] reserve_ok(1)[OF res] by (simp add: instance_by_id_def i(3))
    have quiet: "\<not> is_DaemonError e" if "security_of g c = Inl e" for e
      by (rule security_quiet[OF _ that]) (rule assms(1))
    show ?thesis
      by (auto dest: quiet simp: spawn_row_def res spawn_call_def spawn_record_def ask_daemon_def remotely_def i found
          split: sum.split json.split prod.split)
  qed
  show ?thesis
  proof (cases "reserve ?i s")
    case (Pair r s')
    then show ?thesis
      using row[of _ s'] Some
      by (cases r) (auto simp: spawn_in_parts_def spawn_begin_def spawn_route_def spawn_row_def Let_def)
  qed
qed

section \<open>Interleavings\<close>

text \<open>
  What a worker is doing with a spawn: waiting to call, or holding the answer of the daemon. All else
  that happens on the site are the steps of \<open>Plugin_System\<close>, the daemon's own threads among the drift.
\<close>

datatype spawn_stage = Calling pending | Answered pending "exc + json"

type_synonym ('w, 't) workers = "'w site_state \<times> ('t \<Rightarrow> spawn_stage option)"

inductive worker_step ::
  "'w plugin \<Rightarrow> (rat \<Rightarrow> rat) \<Rightarrow> ('w \<Rightarrow> 'w \<Rightarrow> bool) \<Rightarrow> ('w, 't) workers \<Rightarrow> ('w, 't) workers \<Rightarrow> bool"
  for g :: "'w plugin" and fl :: "rat \<Rightarrow> rat" and drift :: "'w \<Rightarrow> 'w \<Rightarrow> bool" where
  whole: "site_step g fl drift s s' \<Longrightarrow> worker_step g fl drift (s, ph) (s', ph)"
| begun: "ph t = None \<Longrightarrow> spawn_begin g cid ow (site_of s) = (Inr p, c) \<Longrightarrow>
     worker_step g fl drift (s, ph) (s\<lparr>site_of := rollback c\<rparr>, ph(t \<mapsto> Calling p))"
| called: "ph t = Some (Calling p) \<Longrightarrow> spawn_call g p (remote (site_of s)) = (out, w) \<Longrightarrow>
     worker_step g fl drift (s, ph) (s\<lparr>site_of := (site_of s)\<lparr>remote := w\<rparr>\<rparr>, ph(t \<mapsto> Answered p out))"
| recorded: "ph t = Some (Answered p out) \<Longrightarrow>
     worker_step g fl drift (s, ph) (s\<lparr>site_of := snd (in_session (spawn_record g p out) (site_of s))\<rparr>, ph(t := None))"

inductive_cases worker_stepE: "worker_step g fl drift (s, ph) (s', ph')"

definition worker_runs ::
  "'w plugin \<Rightarrow> (rat \<Rightarrow> rat) \<Rightarrow> ('w \<Rightarrow> 'w \<Rightarrow> bool) \<Rightarrow> ('w, 't) workers \<Rightarrow> ('w, 't) workers \<Rightarrow> bool" where
  "worker_runs g fl drift = (worker_step g fl drift)\<^sup>*\<^sup>*"

context site_law
begin

lemma begin_kept:
  assumes "sound P R s"
  shows "sound P R (snd (spawn_begin g cid ow s))"
proof -
  have "sound P R s'" if "reserve (new_row (st_next (now_db s)) cid ow n x) s = (r, s')" for n x r s'
    using reserve_kept[OF assms refl, of cid ow n x] that by (simp add: kept_def)
  then show ?thesis
    using assms by (auto simp: spawn_begin_def Let_def split: option.split prod.split sum.split)
qed

lemma call_kept: "R w \<Longrightarrow> R (snd (spawn_call g p w))"
  by (auto simp: spawn_call_def calls_kept split: sum.split json.split)

lemma record_kept: "sound P R s \<Longrightarrow> kept P R (spawn_record g p out s)"
proof -
  have fin: "sound P R s \<Longrightarrow> kept P R (spawn_done g i result s)" for i result s
    unfolding spawn_done_def by (intro site_keeps edits_kept)
  have bad: "sound P R s \<Longrightarrow> kept P R (spawn_failed_answer g i e s)" for i e s
    unfolding spawn_failed_answer_def by (intro site_keeps edits_kept)
  show "sound P R s \<Longrightarrow> kept P R (spawn_record g p out s)"
    unfolding spawn_record_def by (intro site_keeps fin bad)
qed

lemma worker_step_kept:
  assumes "worker_step g fl drift (s, ph) (s', ph')" "sound P R (site_of s)"
    and "\<And>d. core_edit (saved_db (site_of s)) d \<Longrightarrow> P (saved_db (site_of s)) \<Longrightarrow> P d \<and> constraints_ok d"
    and "\<And>w w'. drift w w' \<Longrightarrow> R w \<Longrightarrow> R w'"
  shows "sound P R (site_of s')"
  using assms(1)
proof cases
  case whole
  then show ?thesis using step_kept[OF _ assms(2-4)] by simp
next
  case (begun t cid ow p c)
  then show ?thesis using begin_kept[OF assms(2), of cid ow] by (simp add: sound_rollback)
next
  case (called t p out w)
  then show ?thesis using call_kept[of "remote (site_of s)" p] assms(2) by (simp add: sound_def)
next
  case (recorded t p out)
  then show ?thesis using kept_session[of P R "spawn_record g p out", OF record_kept[OF assms(2)]] by simp
qed

end

lemma worker_step_settled:
  assumes "worker_step g fl drift (s, ph) (s', ph')" "settled (site_of s)"
  shows "settled (site_of s')"
proof -
  have "sound records_ok (\<lambda>_. True) (site_of s')"
    using assms(2) core_edit_records core_edit_tables(4)
    by (intro anywhere.worker_step_kept[OF assms(1)]) (auto simp: settled_iff sound_def)
  moreover have "now_db (site_of s') = saved_db (site_of s')"
    using assms(1)
  proof cases
    case whole
    then show ?thesis using settled_step[OF _ assms(2)] by (simp add: settled_def)
  qed (use assms(2) session_ends in \<open>auto simp: rollback_def settled_def\<close>)
  ultimately show ?thesis by (simp add: settled_iff)
qed

lemma worker_runs_settled:
  assumes "worker_runs g fl drift (s, ph) (s', ph')" "settled (site_of s)"
  shows "settled (site_of s')"
  using assms(1) unfolding worker_runs_def
proof (induction "(s', ph')" arbitrary: s' ph' rule: rtranclp_induct)
  case (step x)
  then show ?case using worker_step_settled[of g fl drift "fst x" "snd x"] by (cases x) auto
qed (use assms(2) in simp)

text \<open>The same over the link to the daemon, whose tables keep their invariant too.\<close>

lemma linked_worker_runs:
  assumes "worker_runs (g\<lparr>rpc := unix_link n v uid\<rparr>) fl drift (s, ph) (s', ph')" "settled (site_of s)"
    and "service_ok (store (remote (site_of s)))"
    and "\<And>w w'. drift w w' \<Longrightarrow> service_ok (store w) \<Longrightarrow> service_ok (store w')"
  shows "settled (site_of s') \<and> service_ok (store (remote (site_of s')))"
  using assms(1) unfolding worker_runs_def
proof (induction "(s', ph')" arbitrary: s' ph' rule: rtranclp_induct)
  case (step x)
  obtain s1 ph1 where x: "x = (s1, ph1)" by (cases x)
  have IH: "settled (site_of s1)" "service_ok (store (remote (site_of s1)))" using step(3)[OF x] by simp_all
  have "sound records_ok (\<lambda>s. service_ok (store s)) (site_of s')"
    using IH core_edit_records core_edit_tables(4) assms(4)
    by (intro linked.worker_step_kept[OF step(2)[unfolded x]]) (auto simp: settled_iff sound_def)
  then show ?case using worker_step_settled[OF step(2)[unfolded x] IH(1)] by (simp add: sound_def)
qed (use assms(2,3) in simp)

section \<open>A row that is still there when the answer comes\<close>

lemma find_unique_id:
  assumes "ids_ok d" "i \<in> set (st_instances d)"
  shows "instance_by_id (ei_id i) d = Some i"
proof (cases "instance_by_id (ei_id i) d")
  case None
  then show ?thesis using assms(2) by (auto simp: instance_by_id_def find_None_iff)
next
  case (Some j)
  then show ?thesis using instance_by_id_unique[OF assms(1) Some assms(2)] by simp
qed

lemma spawn_call_reply:
  assumes "spawn_call g p w = (Inr j, w')" "rpc g = unix_link n v uid" "float_literals g"
  shows "\<exists>k \<in> set (instances (store w')). inst_owner k = ei_owner (pd_row p) \<and>
    challenge_ref k = str_int (ei_challenge (pd_row p)) \<and> spawn_reply k = Inr j"
proof -
  obtain sec path where "security_of g (pd_challenge p) = Inr sec"
    "container_ensure_instance (rpc g) (ei_owner (pd_row p)) (str_int (ei_challenge (pd_row p))) path sec
       (Some (pd_ttl p)) (col ''access_mode'' (pd_challenge p) = JStr ''public'') w = (Inr j, w')"
    using assms(1) by (auto simp: spawn_call_def split: sum.splits json.splits)
  then show ?thesis using spawn_called security_wf[OF assms(3)] assms(2) by metis
qed

text \<open>
  The row gets the container that the daemon answered with, and keeps what others wrote to it meanwhile,
  such as an extension of its expiry.
\<close>

lemma late_answer:
  assumes "spawn_record g p (Inr j) s = (Inr r, s')" "ids_ok (now_db s)"
    and "spawn_reply k = Inr j" "inst_owner k = ei_owner (pd_row p)" "challenge_ref k = str_int (ei_challenge (pd_row p))"
    and "i \<in> set (st_instances (now_db s))" "ei_id i = ei_id (pd_row p)" "slot_of i = slot_of (pd_row p)"
  shows "\<exists>i' \<in> set (st_instances (saved_db s')). slot_of i' = slot_of (pd_row p) \<and> same_container i' k \<and>
    ei_status i' = ''running'' \<and> ei_expires i' = ei_expires i"
proof -
  have found: "instance_by_id (ei_id (pd_row p)) (now_db s) = Some i"
    using find_unique_id[OF assms(2,6)] assms(7) by simp
  then have "spawn_done g i j s = (Inr r, s')" using assms(1) by (simp add: spawn_record_def)
  then obtain i' where i': "fill_row j i = Inr i'" "st_instances (saved_db s') = st_instances (put_instance i' (now_db s))"
    using spawn_done_returns by blast
  have "same_container i' k"
    using fill_row_reply[OF assms(3) i'(1)] assms(4,5,8) by (simp add: slot_of_def)
  moreover have "i' \<in> set (st_instances (saved_db s'))"
    using i' fill_row_facts[OF i'(1)] assms(6) by (force simp: put_instance_def)
  ultimately show ?thesis using fill_row_facts[OF i'(1)] assms(8) by (auto simp: slot_of_def)
qed

section \<open>A row that is torn down while its container is built\<close>

lemma deleted_constraints: "constraints_ok d \<Longrightarrow> constraints_ok (delete_instance i d)"
  using filter_unique[of d "\<lambda>j. ei_id j \<noteq> ei_id i"]
  by (simp add: constraints_ok_def delete_instance_def peers_unique_def challenges_filled_def)

lemma audited_constraints: "constraints_ok (audit_entry n a ev i x d) = constraints_ok d"
  by (simp add: constraints_ok_def audit_entry_def instances_unique_def peers_unique_def challenges_filled_def)

text \<open>The teardown of a row without a container calls nobody, answers ok and removes the row.\<close>

lemma teardown_pending:
  assumes "settled s" "i \<in> set (st_instances (now_db s))" "ei_container i = None"
  shows "in_session (teardown_route g (ei_id i) (ei_owner i)) s = (Inr (ok_json []),
     s\<lparr>now_db := delete_instance i (audit_entry (clock_now g s) ''user'' ''teardown'' (Some i) JNull (now_db s)),
       saved_db := delete_instance i (audit_entry (clock_now g s) ''user'' ''teardown'' (Some i) JNull (now_db s))\<rparr>)"
proof -
  have "instance_by_id (ei_id i) (now_db s) = Some i"
    using assms(1,2) find_unique_id[of "now_db s" i] by (simp add: settled_def records_ok_def)
  then show ?thesis
    using assms(1,3)
    by (simp add: teardown_route_def owned_instance_def ask_daemon_def remotely_def release_container_def in_session_def
        forget_instance_def commit_def flush_def edit_def audit_def settled_def audited_constraints deleted_constraints rollback_def)
qed

lemma reply_fills_row: "spawn_reply k = Inr j \<Longrightarrow> \<exists>i'. fill_row j i = Inr i'"
  by (auto simp: spawn_reply_def fill_row_def sum_bind_def obj_get_def text_column_def opt_text_def split: sum.splits option.splits)

text \<open>An answer for a row that is gone raises and changes nothing.\<close>

lemma record_missing:
  assumes "spawn_reply k = Inr j" "instance_by_id (ei_id (pd_row p)) (now_db s) = None"
  shows "spawn_record g p (Inr j) s = (Inl (StaleDataError ''UPDATE expected to update 1 row(s); 0 were matched''), s)"
  using reply_fills_row[OF assms(1), of "pd_row p"] assms(2) by (auto simp: spawn_record_def)

lemma deleted_missing: "instance_by_id (ei_id i) (delete_instance i d) = None"
  by (auto simp: instance_by_id_def delete_instance_def find_None_iff)

lemma deleted_slot:
  assumes "constraints_ok d" "i \<in> set (st_instances d)" "j \<in> set (st_instances (delete_instance i d))"
  shows "slot_of j \<noteq> slot_of i"
proof
  assume eq: "slot_of j = slot_of i"
  have "j \<in> set (st_instances d)" "ei_id j \<noteq> ei_id i" using assms(3) by (simp_all add: delete_instance_def)
  then show False
    using distinct_map_inj[of slot_of "st_instances d" j i] assms(1,2) eq by (simp add: constraints_ok_def instances_unique_def)
qed

lemma audit_entry_rows: "st_instances (audit_entry n a ev i x d) = st_instances d"
  by (simp add: audit_entry_def)

text \<open>
  The run: a teardown by the owner while the daemon builds, then the answer, then the update. In the end
  the daemon holds an instance of the owner for the challenge, and the site has no row for the two.
\<close>

lemma teardown_orphans:
  fixes s :: "'w daemon site_state"
  assumes "settled (site_of s)" "rpc g = unix_link n v uid" "float_literals g"
    and "ph t = Some (Calling p)" "pd_row p \<in> set (st_instances (now_db (site_of s)))" "ei_container (pd_row p) = None"
    and "resolve_owner g rq = Some (ei_owner (pd_row p))"
    and "spawn_call g p (remote (site_of s)) = (Inr j, w)"
  shows "\<exists>s'. worker_runs g fl drift (s, ph) (s', ph(t := None)) \<and> remote (site_of s') = w \<and>
     (\<forall>i \<in> set (st_instances (saved_db (site_of s'))). slot_of i \<noteq> slot_of (pd_row p)) \<and>
     (\<exists>k \<in> set (instances (store w)). inst_owner k = ei_owner (pd_row p) \<and> challenge_ref k = str_int (ei_challenge (pd_row p)))"
proof -
  let ?i = "pd_row p" and ?c = "site_of s"
  let ?d = "delete_instance ?i (audit_entry (clock_now g ?c) ''user'' ''teardown'' (Some ?i) JNull (now_db ?c))"
  obtain k where k: "k \<in> set (instances (store w))" "inst_owner k = ei_owner ?i"
    "challenge_ref k = str_int (ei_challenge ?i)" "spawn_reply k = Inr j"
    using spawn_call_reply[OF assms(8,2,3)] by blast
  let ?s1 = "s\<lparr>site_of := ?c\<lparr>now_db := ?d, saved_db := ?d\<rparr>\<rparr>"
  let ?s2 = "?s1\<lparr>site_of := (site_of ?s1)\<lparr>remote := w\<rparr>\<rparr>"
  have down: "perform g fl (Teardown rq (ei_id ?i)) ?c = site_of ?s1"
    using teardown_pending[OF assms(1,5,6), of g]
    by (simp add: owner_required_cases assms(7) in_session_def split: prod.splits)
  have one: "worker_step g fl drift (s, ph) (?s1, ph)"
    using site_step.request[of g fl drift s "Teardown rq (ei_id ?i)"] unfolding down by (auto intro: worker_step.whole)
  have two: "worker_step g fl drift (?s1, ph) (?s2, ph(t \<mapsto> Answered p (Inr j)))"
    by (rule worker_step.called) (simp_all add: assms(4,8))
  have "spawn_record g p (Inr j) (site_of ?s2) =
      (Inl (StaleDataError ''UPDATE expected to update 1 row(s); 0 were matched''), site_of ?s2)"
    by (rule record_missing[OF k(4)]) (simp add: deleted_missing)
  then have "snd (in_session (spawn_record g p (Inr j)) (site_of ?s2)) = site_of ?s2"
    by (simp add: in_session_def rollback_def)
  then have three: "worker_step g fl drift (?s2, ph(t \<mapsto> Answered p (Inr j))) (?s2, ph(t := None))"
    using worker_step.recorded[of "ph(t \<mapsto> Answered p (Inr j))" t p "Inr j" g fl drift ?s2] by simp
  have "worker_runs g fl drift (s, ph) (?s2, ph(t := None))"
    unfolding worker_runs_def
    by (rule three_steps[of "worker_step g fl drift", OF one two three])
  moreover have "\<forall>i \<in> set (st_instances ?d). slot_of i \<noteq> slot_of ?i"
    using deleted_slot[of "audit_entry (clock_now g ?c) ''user'' ''teardown'' (Some ?i) JNull (now_db ?c)" ?i] assms(1,5)
    by (auto simp: audited_constraints audit_entry_rows settled_def)
  ultimately show ?thesis using k(1-3) by (intro exI[of _ ?s2]) auto
qed

end
