(* ===== verification/Sample_Overlap.thy ===== *)
theory Sample_Overlap
  imports Sample_Threads Sample_Site Command_Race Daemon_Process Plugin_Boot Spawn_Teardown
begin

text \<open>
  Concrete inputs for the properties of overlapping operations and of the two start-ups: a machine on
  which every rebuild of the firewall succeeds, tables before and after an octet has changed hands, a
  process with its socket, a worker with the tables of an earlier version, a spawn that waits.
\<close>

section \<open>A machine on which every rebuild succeeds\<close>

lemma sim_raw:
  "raw_run sim_host (cmd (''iptables'' # args)) w =
     (case ipt_effect args w of Some w' \<Rightarrow> (Inr (0, [], []), w') | None \<Rightarrow> (Inr (1, [], ''no''), w))"
  by (simp add: raw_run_def sim_host_def cmd_def split: option.split)

lemma sim_py:
  "py_run sim_host (cmd (''iptables'' # args)) w =
     (case ipt_effect args w of Some w' \<Rightarrow> (Inr [], w') | None \<Rightarrow> (Inl (CalledProcessError ''no''), w))"
  by (simp add: py_run_def sim_host_def cmd_def split: option.split)

lemma sim_check: "iptables_check sim_host (c # r) w = (has_rule w c r, w)"
  by (auto simp: iptables_check_def sim_raw has_rule_def split: option.split)

lemma sim_exists: "chain_exists sim_host c w = (w c \<noteq> None, w)"
  by (auto simp: chain_exists_def sim_raw split: option.split)

lemma sim_append:
  "w c \<noteq> None \<Longrightarrow> \<exists>res w'. iptables_append sim_host (c # r) w = (Inr res, w') \<and> rr_success res \<and> dom w' = dom w"
  by (auto simp: iptables_append_def sim_check run_recorded_def sim_py)

lemma sim_delete:
  "\<exists>res w'. iptables_delete sim_host (c # r) w = (Inr res, w') \<and> dom w' = dom w"
  by (auto simp: iptables_delete_def sim_check run_recorded_def sim_py has_rule_def)

lemma sim_install:
  "EDO_CHAIN \<in> dom w \<Longrightarrow>
   \<exists>res w'. install_rules sim_host (map ((#) EDO_CHAIN) specs) w = (Inr res, w') \<and> dom w' = dom w"
proof (induction specs arbitrary: w)
  case (Cons r specs)
  obtain res w1 where step: "iptables_append sim_host (EDO_CHAIN # r) w = (Inr res, w1)" "rr_success res" "dom w1 = dom w"
    using sim_append[of w EDO_CHAIN r] Cons.prems by auto
  obtain res' w2 where "install_rules sim_host (map ((#) EDO_CHAIN) specs) w1 = (Inr res', w2)" "dom w2 = dom w1"
    using Cons.IH[of w1] Cons.prems step(3) by auto
  then show ?case using step by simp
qed simp

lemma sim_unhook_loop: "\<exists>rs w'. unhook_loop n sim_host (c # r) w = (Inr rs, w') \<and> dom w' = dom w"
proof (induction n arbitrary: w)
  case (Suc n)
  obtain res w1 where step: "iptables_delete sim_host (c # r) w = (Inr res, w1)" "dom w1 = dom w"
    using sim_delete by blast
  obtain rs w2 where "unhook_loop n sim_host (c # r) w1 = (Inr rs, w2)" "dom w2 = dom w1" using Suc by blast
  then show ?case using step by (simp add: sim_check)
qed (simp add: sim_check)

lemma sim_unhook: "\<exists>rs w'. unhook_chains sim_host cs w = (Inr rs, w') \<and> dom w' = dom w"
proof (induction cs arbitrary: w)
  case (Cons c cs)
  obtain rs w1 where step: "unhook_loop 5 sim_host (forward_hook c) w = (Inr rs, w1)" "dom w1 = dom w"
    using sim_unhook_loop[of 5 c "[''-j'', EDO_CHAIN]" w] by (auto simp: forward_hook_def)
  obtain rs' w2 where "unhook_chains sim_host cs w1 = (Inr rs', w2)" "dom w2 = dom w1" using Cons by blast
  then show ?case using step Cons[of w] by (simp add: sim_exists)
qed simp

lemma sim_new:
  "\<exists>x w1. raw_run sim_host (cmd [''iptables'', ''-N'', c]) w = (Inr x, w1) \<and> dom w1 = insert c (dom w)"
  by (cases "w c") (auto simp: sim_raw)

lemma sim_hook:
  assumes "''FORWARD'' \<in> dom w"
  shows "\<exists>target w'. hook_chain sim_host w = (Inr target, w') \<and> dom w' = insert EDO_CHAIN (dom w)"
proof -
  obtain x w1 where new: "raw_run sim_host (cmd [''iptables'', ''-N'', EDO_CHAIN]) w = (Inr x, w1)" "dom w1 = insert EDO_CHAIN (dom w)"
    using sim_new by blast
  obtain rs w2 where un: "unhook_edo_from_all sim_host w1 = (Inr rs, w2)" "dom w2 = dom w1"
    using sim_unhook unfolding unhook_edo_from_all_def by blast
  have "''FORWARD'' \<in> dom w2" using assms new(2) un(2) by simp
  then have "\<exists>target. preferred_forward_hook sim_host w2 = (target, w2) \<and> target \<in> dom w2"
    by (cases "w2 ''DOCKER-USER''") (auto simp: preferred_forward_hook_def FORWARD_HOOK_CANDIDATES_def sim_exists)
  then obtain target where t: "preferred_forward_hook sim_host w2 = (target, w2)" "target \<in> dom w2" by blast
  then obtain rs' where "w2 target = Some rs'" by blast
  moreover have "EDO_CHAIN \<in> dom w2" using new(2) un(2) by simp
  then obtain rs'' where "w2 EDO_CHAIN = Some rs''" by blast
  ultimately show ?thesis
    using new un t by (auto simp: hook_chain_def run_or_raise_def sim_py)
qed

lemma sim_input: "\<exists>res w'. apply_wg_input_rule sim_host port w = (Inr res, w') \<and> dom w \<subseteq> dom w'"
proof -
  have "firewalld_active sim_host w = (False, w)" by (simp add: firewalld_active_def sim_host_def)
  moreover obtain x w1 where new: "raw_run sim_host (cmd [''iptables'', ''-N'', EDO_INPUT_CHAIN]) w = (Inr x, w1)"
      "dom w1 = insert EDO_INPUT_CHAIN (dom w)"
    using sim_new by blast
  moreover have refill: "\<exists>res w'. run_or_return sim_host [''iptables'', ''-F'', EDO_INPUT_CHAIN] [''-F'', EDO_INPUT_CHAIN]
      (iptables_append sim_host (wg_input_rule port)) w1 = (Inr res, w') \<and> dom w1 \<subseteq> dom w'" if "EDO_INPUT_CHAIN \<in> dom w1" for w1
    using sim_append[of "w1(EDO_INPUT_CHAIN \<mapsto> [])" EDO_INPUT_CHAIN "tl (wg_input_rule port)"] that
    by (auto simp: run_or_return_def sim_py wg_input_rule_def split: option.splits)
  moreover have "\<exists>res w'. run_or_return sim_host [''iptables'', ''-I'', ''INPUT'', ''1'', ''-j'', EDO_INPUT_CHAIN] input_hook
      (run_or_return sim_host [''iptables'', ''-F'', EDO_INPUT_CHAIN] [''-F'', EDO_INPUT_CHAIN] (iptables_append sim_host (wg_input_rule port))) w1
      = (Inr res, w') \<and> dom w1 \<subseteq> dom w'"
  proof (cases "w1 ''INPUT''")
    case None
    then show ?thesis by (simp add: run_or_return_def[of _ "[''iptables'', ''-I'', _, _, _, _]"] sim_py)
  next
    case (Some rs)
    then show ?thesis
      using refill[of "w1(''INPUT'' \<mapsto> [''-j'', EDO_INPUT_CHAIN] # rs)"] new(2)
      by (auto simp: run_or_return_def[of _ "[''iptables'', ''-I'', _, _, _, _]"] sim_py)
  qed
  moreover have "EDO_INPUT_CHAIN \<in> dom w1" using new(2) by simp
  note refill[OF this]
  ultimately show ?thesis
    using new(2) by (cases "has_rule w1 ''INPUT'' [''-j'', EDO_INPUT_CHAIN]")
      (fastforce simp: apply_wg_input_rule_def input_hook_def sim_check Let_def)+
qed

lemma sim_interface: "get_public_interface sim_host w = (Inr (Some ''eth0''), w)"
  by (simp add: get_public_interface_def sim_host_def cmd_def py_run_def split_ws_def is_space_def)

lemma sim_apply:
  assumes "wf_inputs ps os" "''FORWARD'' \<in> dom w"
  shows "\<exists>res w'. apply_firewall sim_host ps os port w = (Inr res, w') \<and> ''FORWARD'' \<in> dom w' \<and> public_interface res = ''eth0''"
proof -
  have sys: "run_or_raise sim_host [''sysctl'', ''-w'', ''net.ipv4.ip_forward=1''] t w = (Inr [], w)" for t
    by (simp add: run_or_raise_def py_run_def sim_host_def cmd_def)
  obtain target w1 where hook: "hook_chain sim_host w = (Inr target, w1)" "dom w1 = insert EDO_CHAIN (dom w)"
    using sim_hook[OF assms(2)] by blast
  obtain rules where rules: "build_chain_rules ''eth0'' ps os = Inr rules" using build_rules_ok[OF assms(1)] by blast
  obtain rs w2 where inst: "install_rules sim_host rules w1 = (Inr rs, w2)" "dom w2 = dom w1"
    using sim_install[of w1 "map tl rules"] hook(2) build_rules_head[OF rules] by auto
  obtain r w3 where "apply_wg_input_rule sim_host port w2 = (Inr r, w3)" "dom w2 \<subseteq> dom w3" using sim_input by blast
  then show ?thesis
    using hook inst rules assms(2) by (auto simp: apply_firewall_def sim_interface sys)
qed

section \<open>An octet that changes hands\<close>

text \<open>Octet 1 of \<open>busy_db\<close> is team 7's; here team 7 has left and team 9 has it, while the peer of team 7 remains.\<close>

definition handed_db :: db where
  "handed_db = busy_db
     \<lparr>octets := [\<lparr>oct_owner = (''team'', 9), octet = 1\<rparr>, \<lparr>oct_owner = (''team'', 8), octet = 2\<rparr>],
      instances := [sample_inst\<lparr>inst_owner := (''team'', 9)\<rparr>]\<rparr>"

lemma handed_db_ok: "db_ok handed_db" "get_octet (''team'', 9) handed_db = Some 1"
  using busy_db_ok
  by (simp_all add: db_ok_def peers_ok_def octets_ok_def instances_ok_def handed_db_def busy_db_def sample_peer_def sample_inst_def
      get_octet_def)

definition race_start :: "(chains, bool) rebuilds" where
  "race_start = \<lparr>rb_daemon = busy_daemon fresh_chains, rb_threads = (\<lambda>_. Idle_thread), rb_last = None\<rparr>"

lemma race_start_sel [simp]:
  "rb_daemon race_start = busy_daemon fresh_chains" "rb_threads race_start t = Idle_thread" "rb_last race_start = None"
  by (simp_all add: race_start_def)

definition command_start :: "(chains, bool) race" where
  "command_start = \<lparr>rc_daemon = busy_daemon fresh_chains, rc_threads = (\<lambda>_. Resting), rc_returned = False, rc_raised = False\<rparr>"

lemma command_start_sel [simp]:
  "rc_daemon command_start = busy_daemon fresh_chains" "rc_threads command_start t = Resting"
  "\<not> rc_returned command_start" "\<not> rc_raised command_start"
  by (simp_all add: command_start_def)

lemma sim_plain_routes: "plain_routes sim_host"
  by (simp add: plain_routes_def sim_interface eth_plain)

lemma sim_machine [simp]: "host_of (machine_of (sample_service h fs)) = h"
  by (simp add: sample_service_def sample_machine_def)

lemma sim_apply_tables:
  assumes "db_ok d" "''FORWARD'' \<in> dom (world s)"
  shows "\<exists>res s'. apply_tables (sample_service sim_host no_files) (peers_grouped_by_owner d, octets_by_owner d) s = (Inr res, s') \<and>
    ''FORWARD'' \<in> dom (world s') \<and> public_interface res = ''eth0''"
proof -
  let ?v = "sample_service sim_host no_files :: chains service"
  obtain res w' where "apply_firewall sim_host (peers_grouped_by_owner d) (octets_by_owner d) (vpn_port ?v) (world s) = (Inr res, w')"
    "''FORWARD'' \<in> dom w'" "public_interface res = ''eth0''"
    using sim_apply[OF fwdb.inputs_ok[OF assms(1)] assms(2)] by blast
  then show ?thesis by (simp add: apply_tables_def on_world_def)
qed

lemma race_applies:
  "\<exists>r1 s1 r2 s2.
     apply_tables (sample_service sim_host no_files) (peers_grouped_by_owner handed_db, octets_by_owner handed_db)
       ((busy_daemon fresh_chains)\<lparr>store := handed_db\<rparr>) = (Inr r1, s1) \<and>
     apply_tables (sample_service sim_host no_files) (peers_grouped_by_owner busy_db, octets_by_owner busy_db) s1 = (Inr r2, s2) \<and>
     public_interface r2 = ''eth0''"
proof -
  have "''FORWARD'' \<in> dom (world ((busy_daemon fresh_chains)\<lparr>store := handed_db\<rparr>))"
    by (simp add: busy_daemon_def fresh_chains_def)
  from sim_apply_tables[OF handed_db_ok(1) this] sim_apply_tables[OF busy_db_ok] show ?thesis by blast
qed

section \<open>A process and its clients\<close>

definition sample_settings :: settings where
  "sample_settings =
     \<lparr>cf_path = ''/run/edo/edo.sock'', cf_owner = ''root:ctfd'', cf_uid = Some ''1000'',
      cf_endpoint = ''vpn.example.com:51820'', cf_port = 51820, cf_spawns = 4\<rparr>"

definition sample_accounts :: accounts where
  "sample_accounts = \<lparr>getpwnam = [''root'' \<mapsto> 0], getgrnam = [''ctfd'' \<mapsto> 990]\<rparr>"

lemma sample_socket_owner:
  "split_owner (cf_owner sample_settings) = Some (''root'', ''ctfd'')"
  "getpwnam sample_accounts ''root'' = Some 0" "getgrnam sample_accounts ''ctfd'' = Some 990"
  by (simp_all add: sample_settings_def split_owner_def sample_accounts_def)

lemma thousand: "int_of_text ''1000'' = Inr 1000"
proof -
  have "''1000'' = str_int 1000" by code_simp
  then show ?thesis by simp
qed

definition uid_process :: "32 word \<Rightarrow> client_process" where
  "uid_process w = \<lparr>cl_cred = \<lparr>uc_pid = 7, uc_uid = w, uc_gid = 33\<rparr>, cl_groups = []\<rparr>"

definition started_process :: "'w \<Rightarrow> 'w process" where
  "started_process w = \<lparr>pr_daemon = fresh_daemon w, pr_files = Map.empty\<rparr>"

section \<open>A worker over the tables of an earlier version\<close>

definition old_tables :: schema where
  "old_tables =
     [''edo_challenge'' \<mapsto>
        \<lparr>tb_cols = [''id'', ''difficulty'', ''scoring_mode'', ''initial_value'', ''minimum_value'', ''decay'', ''build_path'',
           ''cpu_limit'', ''memory_limit_mb'', ''pids_limit'', ''read_only_rootfs'', ''ttl_seconds''],
         tb_rows = [[(''id'', JInt 1), (''difficulty'', JStr ''easy''), (''scoring_mode'', JStr ''static''), (''initial_value'', JInt 500),
           (''minimum_value'', JInt 100), (''decay'', JInt 25), (''build_path'', JStr ''/srv/web''), (''cpu_limit'', JFloat ''1.0''),
           (''memory_limit_mb'', JInt 512), (''pids_limit'', JInt 256), (''read_only_rootfs'', JBool False), (''ttl_seconds'', JNull)]]\<rparr>]"

lemma old_tables_older: "older_schema old_tables"
  by (simp add: older_schema_def MODEL_TABLES_def old_tables_def older_table_def table_ok_def migrated_def COLUMN_MIGRATIONS_def)

definition old_worker :: "'w \<Rightarrow> 'w worker" where
  "old_worker w =
     \<lparr>wk_tables = old_tables, wk_types = [(''standard'', ''CTFdStandardChallenge'')], wk_blueprints = [(''views'', [])], wk_assets = [],
      wk_menu = [], wk_site = small_ctf w, wk_schedule = None\<rparr>"

section \<open>A spawn that waits for the daemon\<close>

definition waiting_row :: edo_instance where
  "waiting_row = new_row 7 1 (''user'', 3) 5000 (5000 + micros 3600)"

definition waiting_pending :: pending where
  "waiting_pending = \<lparr>pd_row = waiting_row, pd_challenge = web_challenge, pd_ttl = 3600\<rparr>"

definition waiting_site :: site where
  "waiting_site = open_site\<lparr>st_instances := [waiting_row], st_next := 8\<rparr>"

definition waiting_state :: "chains daemon site_state" where
  "waiting_state =
     \<lparr>site_of = \<lparr>now_db = waiting_site, saved_db = waiting_site, remote = web_daemon, limits = (\<lambda>_. [])\<rparr>, leases = Map.empty\<rparr>"

lemma waiting_row_sel [simp]:
  "ei_id waiting_row = 7" "ei_owner waiting_row = (''user'', 3)" "ei_challenge waiting_row = 1" "ei_container waiting_row = None"
  "pd_row waiting_pending = waiting_row" "now_db (site_of waiting_state) = waiting_site" "saved_db (site_of waiting_state) = waiting_site"
  "remote (site_of waiting_state) = web_daemon" "st_instances waiting_site = [waiting_row]"
  by (simp_all add: waiting_row_def new_row_def waiting_pending_def waiting_state_def waiting_site_def)

lemma waiting_settled: "settled (site_of waiting_state)"
proof -
  have "constraints_ok waiting_site"
    unfolding waiting_site_def by (rule web_row_constraints(1))
  moreover have "records_ok waiting_site"
    using small_records
    by (simp add: records_ok_def ids_ok_def weights_ok_def finds_ok_def) (simp add: waiting_site_def open_site_def)
  ultimately show ?thesis by (simp add: settled_def)
qed

lemma waiting_call:
  "\<exists>w. spawn_call (sample_plugin (unix_link n (sample_service sim_host no_files) 0)) waiting_pending web_daemon = (Inr web_answer, w) \<and>
     store w = web_db"
proof -
  have one: "str_int 1 = ''1''" by code_simp
  have p: "pd_challenge waiting_pending = web_challenge" "pd_ttl waiting_pending = 3600" by (simp_all add: waiting_pending_def)
  have cols: "col ''build_path'' web_challenge = JStr ''/srv/web''" "col ''access_mode'' web_challenge = JStr ''vpn''"
    by (simp_all add: col_def web_challenge_def)
  show ?thesis
    using web_call[of n] by (simp add: spawn_call_def p cols web_security_of one)
qed

text \<open>The answer is recorded in the row that waits.\<close>

lemma waiting_recorded:
  "\<exists>r s'. spawn_record (sample_plugin c) waiting_pending (Inr web_answer) (site_of waiting_state) = (Inr r, s')"
proof -
  have found: "instance_by_id 7 waiting_site = Some waiting_row" by (simp add: instance_by_id_def)
  obtain i' where i': "fill_row web_answer waiting_row = Inr i'" "ei_id i' = 7"
    by (auto simp: fill_row_def web_answer_def obj_get_def text_column_def)
  have "constraints_ok (open_site\<lparr>st_instances := [i'], st_audit := as, st_next := k\<rparr>)" for as k
    by (rule web_row_constraints(2))
  moreover have "spawn_record (sample_plugin c) waiting_pending (Inr web_answer) (site_of waiting_state) =
      spawn_done (sample_plugin c) waiting_row web_answer (site_of waiting_state)"
    by (simp add: spawn_record_def found)
  ultimately show ?thesis
    using i' by (simp add: spawn_done_def commit_def flush_def audit_def audit_entry_def edit_def put_instance_def)
      (simp add: waiting_site_def)
qed

end
