(* ===== verification/Challenge_Laws.thy ===== *)
theory Challenge_Laws
  imports Scoring_Laws
begin

text \<open>
  The types of the columns of a challenge: whatever a form or a JSON body holds, a column that
  the code coerces is NULL or of the type of its column after a create or an update.
\<close>

definition well_typed :: "string \<Rightarrow> json \<Rightarrow> bool" where
  "well_typed k v \<longleftrightarrow> v = JNull \<or>
     ((k \<in> set INT_FIELDS \<longrightarrow> (\<exists>i. v = JInt i)) \<and> (k \<in> set FLOAT_FIELDS \<longrightarrow> (\<exists>t. v = JFloat t)) \<and>
      (k \<in> set BOOL_FIELDS \<longrightarrow> (\<exists>b. v = JBool b)))"

definition typed_cols :: "(string \<times> json) list \<Rightarrow> bool" where
  "typed_cols cols \<longleftrightarrow> (\<forall>(k, v) \<in> set cols. well_typed k v)"

definition challenges_typed :: "site \<Rightarrow> bool" where
  "challenges_typed d \<longleftrightarrow> (\<forall>c \<in> set (st_challenges d). typed_cols (cg_cols c))"

lemma or_none_cases: "or_none r = Inr v \<Longrightarrow> v = JNull \<or> r = Inr v"
  by (auto simp: or_none_def split: sum.splits if_splits)

lemma field_sets:
  "k \<in> set INT_FIELDS \<Longrightarrow> k \<notin> set FLOAT_FIELDS \<and> k \<notin> set BOOL_FIELDS"
  "k \<in> set FLOAT_FIELDS \<Longrightarrow> k \<notin> set BOOL_FIELDS"
  by (auto simp: INT_FIELDS_def FLOAT_FIELDS_def BOOL_FIELDS_def)

lemma coerce_field_typed:
  assumes "coerce_field g k v = Inr w"
  shows "well_typed k w"
proof -
  consider (i) "k \<in> set INT_FIELDS" | (f) "k \<notin> set INT_FIELDS" "k \<in> set FLOAT_FIELDS"
    | (b) "k \<notin> set INT_FIELDS" "k \<notin> set FLOAT_FIELDS" "k \<in> set BOOL_FIELDS"
    | (other) "k \<notin> set INT_FIELDS" "k \<notin> set FLOAT_FIELDS" "k \<notin> set BOOL_FIELDS" by blast
  then show ?thesis
  proof cases
    case i
    then have "w = JNull \<or> (\<exists>n. w = JInt n)"
      using assms
      by (auto simp: coerce_field_def sum_bind_def dest!: or_none_cases split: if_splits sum.splits)
    then show ?thesis using i field_sets(1)[of k] by (auto simp: well_typed_def)
  next
    case f
    then have "w = JNull \<or> (\<exists>t. w = JFloat t)"
      using assms
      by (auto simp: coerce_field_def sum_bind_def dest!: or_none_cases split: if_splits sum.splits)
    then show ?thesis using f field_sets(2)[of k] by (auto simp: well_typed_def)
  next
    case b
    then have "\<exists>x. w = JBool x" using assms by (cases v) (auto simp: coerce_field_def)
    then show ?thesis using b by (simp add: well_typed_def)
  qed (simp add: well_typed_def)
qed

lemma typed_Nil [simp]: "typed_cols []" and typed_Cons [simp]: "typed_cols ((k, v) # kvs) \<longleftrightarrow> well_typed k v \<and> typed_cols kvs"
  by (simp_all add: typed_cols_def)

lemma coerce_fields_typed: "coerce_fields g names kvs = Inr cs \<Longrightarrow> typed_cols cs"
proof (induction kvs arbitrary: cs)
  case (Cons kv kvs)
  obtain k v where kv: "kv = (k, v)" by (cases kv)
  show ?case
  proof (cases "k \<in> set names")
    case True
    then show ?thesis
      using Cons by (cases "coerce_field g k v"; cases "coerce_fields g names kvs") (auto simp: kv coerce_field_typed)
  qed (use Cons in \<open>simp add: kv\<close>)
qed simp

lemma defaults_typed: "typed_cols dflts \<Longrightarrow> typed_cols cols \<Longrightarrow> typed_cols (with_defaults dflts cols)"
  by (force simp: typed_cols_def with_defaults_def)

lemma challenge_defaults_typed: "typed_cols challenge_defaults"
  by (auto simp: typed_cols_def challenge_defaults_def well_typed_def INT_FIELDS_def FLOAT_FIELDS_def BOOL_FIELDS_def
      intro: exI[of _ False])

lemma update_one_typed: "well_typed k v \<Longrightarrow> typed_cols cols \<Longrightarrow> typed_cols (AList.update k v cols)"
  by (induction cols) auto

lemma update_typed: "typed_cols kvs \<Longrightarrow> typed_cols cols \<Longrightarrow> typed_cols (foldl (\<lambda>cols (k, v). AList.update k v cols) cols kvs)"
  by (induction kvs arbitrary: cols) (auto simp: update_one_typed)

lemma set_cols_typed: "typed_cols kvs \<Longrightarrow> typed_cols (cg_cols c) \<Longrightarrow> typed_cols (cg_cols (set_cols kvs c))"
  by (simp add: set_cols_def update_typed)

lemma append_typed: "typed_cols (xs @ ys) \<longleftrightarrow> typed_cols xs \<and> typed_cols ys"
  by (auto simp: typed_cols_def)

lemma create_typed:
  fixes s :: "'w ctf"
  assumes "challenges_typed (now_db s)" "challenges_typed (saved_db s)" "typed_cols (core_defaults g)"
  shows "outcome (\<lambda>c s'. challenges_typed (saved_db s') \<and> c \<in> set (st_challenges (saved_db s')))
    (\<lambda>_ s'. saved_db s' = saved_db s) (create_challenge g rq s)"
proof (cases "sum_bind (request_data rq) (\<lambda>data. sum_bind (obj_items data) (coerce_fields g CREATE_FIELDS))")
  case (Inr cols)
  then have "typed_cols cols" by (auto simp: sum_bind_def coerce_fields_typed split: sum.splits)
  then have "typed_cols (with_defaults (challenge_defaults @ core_defaults g) cols)"
    using assms(3) by (simp add: defaults_typed append_typed challenge_defaults_typed)
  then show ?thesis
    using Inr assms(1) by (simp add: create_challenge_def Let_def outcome_commit challenges_typed_def)
qed (simp add: create_challenge_def)

lemma update_challenge_typed:
  fixes s :: "'w ctf"
  assumes "challenges_typed (now_db s)" "challenges_typed (saved_db s)"
  shows "outcome (\<lambda>_ s'. challenges_typed (saved_db s')) (\<lambda>_ s'. saved_db s' = saved_db s) (update_challenge g cid rq s)"
proof (cases "sum_bind (request_data rq) (\<lambda>data. sum_bind (obj_items data) (coerce_fields g EDITABLE))")
  case (Inr kvs)
  then have "typed_cols kvs" by (auto simp: sum_bind_def coerce_fields_typed split: sum.splits)
  then show ?thesis
    using Inr assms(1)
    by (auto simp: update_challenge_def outcome_commit challenges_typed_def set_cols_typed)
qed (simp add: update_challenge_def)

end
