(* ===== verification/Plugin_Properties.thy ===== *)
theory Plugin_Properties
  imports Sample_Overlap Challenge_Laws
begin

text \<open>
  The properties of the plugin, of its scheduler and of the plugin joined to the daemon, each with an
  application to the site of \<open>Sample_Site\<close>.
\<close>

section \<open>The plugin and the daemon\<close>



text \<open>
  Along every run of a site whose plugin is linked to the daemon (any requests, ticks of the jobs in
  any workers, edits by CTFd, and anything else the machine does to the daemon within its own
  invariant), the invariant of the plugin's committed tables and the invariant of the daemon's
  database hold together.
\<close>

theorem system_state_invariant:
  assumes "site_runs (g\<lparr>rpc := unix_link n v uid\<rparr>) fl drift s s'"
    and "settled (site_of s)" "service_ok (store (remote (site_of s)))"
    and "\<And>w w'. drift w w' \<Longrightarrow> service_ok (store w) \<Longrightarrow> service_ok (store w')"
  shows "settled (site_of s') \<and> service_ok (store (remote (site_of s')))"
  using assms by (rule linked_runs)

lemma system_state_invariant_witness:
  "\<forall>a. settled (perform ((sample_plugin offline_client)\<lparr>rpc := unix_link 0 (sample_service calm_host mem_files) 1000\<rparr>) id a
        (small_ctf (busy_daemon Map.empty))) \<and>
     service_ok (store (remote (perform
        ((sample_plugin offline_client)\<lparr>rpc := unix_link 0 (sample_service calm_host mem_files) 1000\<rparr>) id a
        (small_ctf (busy_daemon Map.empty)))))"
proof
  fix a
  let ?g = "(sample_plugin offline_client)\<lparr>rpc := unix_link 0 (sample_service calm_host mem_files) 1000\<rparr>"
  let ?s = "small_state (busy_daemon Map.empty)"
  have "site_runs ?g id (\<lambda>_ _. False) ?s (?s\<lparr>site_of := perform ?g id a (site_of ?s)\<rparr>)"
    unfolding site_runs_def by (intro r_into_rtranclp site_step.request)
  from system_state_invariant[OF this]
  show "settled (perform ?g id a (small_ctf (busy_daemon Map.empty))) \<and>
     service_ok (store (remote (perform ?g id a (small_ctf (busy_daemon Map.empty)))))"
    by (simp add: small_settled busy_ok(2))
qed

text \<open>
  C14: An instance that the plugin reports as spawned is one that the daemon has: when the route answers
  200, the committed table has exactly one new row, it is running and in the slot of the owner and
  the challenge, and the daemon's table holds a container of that owner and challenge with the id,
  the name and the address of the row.
\<close>

theorem spawn_reaches_daemon:
  assumes "float_literals g" "rpc g = unix_link n v uid" "settled s"
    and "spawn_route g cid ow s = (Inr (Answer 200 j), s')"
  shows "\<exists>i k. st_instances (saved_db s') = st_instances (saved_db s) @ [i] \<and> slot_of i = (cid, ow) \<and>
     ei_status i = ''running'' \<and> k \<in> set (instances (store (remote s'))) \<and>
     inst_owner k = ow \<and> challenge_ref k = str_int cid \<and> ei_container i = Some (container_id k) \<and>
     ei_name i = Some (container_name k) \<and> ei_ip i = Some (assigned_ip k)"
proof -
  have "ids_ok (saved_db s)" "now_db s = saved_db s" using assms(3) by (simp_all add: settled_def records_ok_def)
  then show ?thesis
    using spawn_linked[OF assms(1,2) _ _ assms(4)] by (fastforce simp: same_container_def slot_of_def)
qed

lemma spawn_reaches_daemon_witness:
  "\<exists>(s' :: chains daemon ctf) i k. st_instances (saved_db s') = [i] \<and> slot_of i = (1, (''user'', 3)) \<and>
     k \<in> set (instances (store (remote s'))) \<and> ei_container i = Some (container_id k)"
proof -
  let ?g = "sample_plugin (unix_link 0 (sample_service sim_host no_files) 0)"
  obtain j s' where run: "spawn_route ?g 1 (''user'', 3) open_ctf = (Inr (Answer 200 j), s')"
    using web_spawned[of 0] by blast
  have "st_instances (saved_db open_ctf) = []" by (simp add: open_ctf_def open_site_def)
  then obtain i k where "st_instances (saved_db s') = [i]" "slot_of i = (1, (''user'', 3))"
    "k \<in> set (instances (store (remote s')))" "ei_container i = Some (container_id k)"
    using spawn_reaches_daemon[OF sample_floats sample_plugin_sel(1) open_settled run] by auto
  then show ?thesis by blast
qed

text \<open>
  C15: A spawn is all or nothing for the plugin: an answer 200 leaves exactly one new row, running, in a
  slot that was free, of an owner below the limit; any other answer leaves the committed table of
  instances as it was; and when the route raises, at most the pending row that reserved the slot
  is left.
\<close>

theorem spawn_route_is_atomic:
  assumes "settled s" "saved_db s = d"
  shows "outcome
    (\<lambda>r s'. \<exists>code j. r = Answer code j \<and>
       (if code = 200
        then (\<exists>i. st_instances (saved_db s') = st_instances d @ [i] \<and> slot_of i = (cid, ow) \<and> ei_status i = ''running'') \<and>
          (\<forall>i \<in> set (st_instances d). slot_of i \<noteq> (cid, ow)) \<and> int (length (active_of ow d)) < max_containers d
        else st_instances (saved_db s') = st_instances d))
    (\<lambda>_ s'. st_instances (saved_db s') = st_instances d \<or>
       (\<exists>i. st_instances (saved_db s') = st_instances d @ [i] \<and> slot_of i = (cid, ow) \<and> ei_status i = ''pending''))
    (spawn_route g cid ow s)"
proof -
  have d: "ids_ok d" "now_db s = d" "sound records_ok (\<lambda>_. True) s"
    using assms by (auto simp: settled_def records_ok_def sound_def)
  obtain r s' where run: "spawn_route g cid ow s = (r, s')" by (cases "spawn_route g cid ow s")
  have ok: "constraints_ok (saved_db s')" using anywhere.spawn_kept[OF d(3), of g cid ow] by (simp add: kept_def sound_def run)
  have row: "(\<exists>i. st_instances (saved_db s') = st_instances d @ [i] \<and> slot_of i = (cid, ow) \<and> ei_status i = st) \<and>
      (\<forall>i \<in> set (st_instances d). slot_of i \<noteq> (cid, ow))" if "one_more cid ow st d (saved_db s')" for st
    using that one_more_slot[OF that ok] by (auto simp: one_more_def slot_of_def)
  show ?thesis
    using spawn_route_outcome[OF d(1,2) assms(2), of cid ow g] row[of "''running''"] row[of "''pending''"]
    by (cases r) (auto simp: run spawn_answer_def spawn_raise_def)
qed

lemma spawn_route_is_atomic_witness:
  "\<exists>r s'. spawn_route (sample_plugin offline_client) 1 (''user'', 3) (small_ctf ()) = (r, s') \<and>
     (\<forall>code j. r = Inr (Answer code j) \<longrightarrow> code \<noteq> 200)"
proof -
  obtain r s' where run: "spawn_route (sample_plugin offline_client) 1 (''user'', 3) (small_ctf ()) = (r, s')" by fastforce
  have "slot_of ann_instance = (1, (''user'', 3))" by (simp add: slot_of_def)
  then show ?thesis
    using spawn_route_is_atomic[where cid = 1 and ow = "(''user'', 3)" and g = "sample_plugin offline_client",
        OF small_settled[of "()"] refl] run
    by (cases r) (auto simp: small_tables split: if_splits)
qed

section \<open>The tables of the plugin\<close>

text \<open>
  C20: Whatever daemon the plugin talks to, along every run of the site the session sees what is
  committed between requests, and the committed tables keep their UNIQUE and NOT NULL constraints,
  distinct ids below the next one, weights from 0 to 100, and finds that name a flag of their
  own challenge.
\<close>

theorem plugin_state_invariant:
  "site_runs g fl drift s s' \<Longrightarrow> settled (site_of s) \<Longrightarrow> settled (site_of s')"
  by (rule settled_runs)

lemma plugin_state_invariant_witness:
  "\<forall>a worker. settled (site_of (sweep_tick (sample_plugin offline_client) worker 15
     (small_state ()\<lparr>site_of := perform (sample_plugin offline_client) id a (small_ctf ())\<rparr>)))"
proof (intro allI)
  fix a worker
  let ?g = "sample_plugin offline_client" and ?s = "small_state ()"
  let ?s1 = "?s\<lparr>site_of := perform ?g id a (site_of ?s)\<rparr>"
  have "site_runs ?g id (\<lambda>_ _. False) ?s (sweep_tick ?g worker 15 ?s1)"
    unfolding site_runs_def
    by (rule rtranclp.rtrancl_into_rtrancl[OF r_into_rtranclp]) (rule site_step.request, rule site_step.sweep)
  from plugin_state_invariant[OF this]
  show "settled (site_of (sweep_tick ?g worker 15 (small_state ()\<lparr>site_of := perform ?g id a (small_ctf ())\<rparr>)))"
    by (simp add: small_settled)
qed

text \<open>
  C21: An owner acts on its own instances only: a teardown or an extension leaves the committed rows of
  all other owners as they are, whatever the daemon does; asked about an instance of another owner,
  both answer 403, call nothing and change nothing.
\<close>

theorem owners_act_on_own_rows:
  assumes "settled s" "saved_db s = d"
  shows "outcome (\<lambda>_ s'. others ow (saved_db s') = others ow d) (\<lambda>_ s'. others ow (saved_db s') = others ow d)
      (teardown_route g k ow s) \<and>
    outcome (\<lambda>_ s'. others ow (saved_db s') = others ow d) (\<lambda>_ s'. others ow (saved_db s') = others ow d)
      (extend_route g k ow s) \<and>
    (\<forall>i. instance_by_id k d = Some i \<and> ei_owner i \<noteq> ow \<longrightarrow>
       teardown_route g k ow s = (Inr (fail_json 403 ''forbidden'' []), s) \<and>
       extend_route g k ow s = (Inr (fail_json 403 ''forbidden'' []), s))"
proof -
  have d: "ids_ok d" "now_db s = d" using assms by (auto simp: settled_def records_ok_def)
  show ?thesis
    using teardown_others[OF d assms(2)] extend_others[OF d assms(2)] foreign_refused[of k s _ ow g] d(2) by auto
qed

lemma owners_act_on_own_rows_witness:
  "teardown_route (sample_plugin offline_client) 6 (''user'', 3) (small_ctf ()) =
     (Inr (fail_json 403 ''forbidden'' []), small_ctf ())"
proof -
  have "instance_by_id 6 small_site = Some bob_instance" by (simp add: instance_by_id_def small_tables)
  then show ?thesis
    using owners_act_on_own_rows[where ow = "(''user'', 3)" and g = "sample_plugin offline_client" and k = 6,
        OF small_settled[of "()"] refl] by simp
qed

section \<open>Flags and points\<close>

text \<open>
  C22: Points are awarded once and for all flags: a submission leaves CTFd's table of solves alone, or
  adds one row, for an owner that had none for the challenge, when every flag of it is found. This
  also holds when the route raises on its way.
\<close>

theorem points_awarded_once:
  assumes "settled s" "saved_db s = d" "resolve_owner g rq = Some ow"
    and "fst ow = ''team'' \<longrightarrow> (\<exists>t \<in> set (st_teams d). tr_id t = snd ow)"
  shows "outcome (\<lambda>_ s'. awarded cid ow d (saved_db s')) (\<lambda>_ s'. awarded cid ow d (saved_db s'))
    (submit_route g fl cid rq ow s)"
  using assms by (intro submit_awarded) (auto simp: settled_def records_ok_def team_known_def)

lemma points_awarded_once_witness:
  "outcome (\<lambda>_ s'. awarded 1 (''user'', 3) small_site (saved_db s')) (\<lambda>_ s'. awarded 1 (''user'', 3) small_site (saved_db s'))
     (submit_route (sample_plugin offline_client) id 1 ann_request (''user'', 3) (small_ctf ()))"
  by (rule points_awarded_once[OF small_settled _ ann_owner]) simp_all

text \<open>
  C23: The native attempt and the submission route agree on completion: \<open>attempt\<close>, which counts the rows
  it has, answers True exactly when the submitted flag is new to the owner and the progress that the
  route would compute after recording it is complete.
\<close>

theorem native_attempt_agrees:
  assumes "settled s" "saved_db s = d" "resolve_owner g rq = Some ow"
    and "sum_bind (request_data rq) submitted = Inr sub"
  shows "\<exists>ok msg. attempt g cid rq d = Inr (ok, msg) \<and>
    (ok \<longleftrightarrow> sub \<noteq> [] \<and> (\<exists>f. first_matching_flag g cid sub d = Some f \<and> \<not> has_find ow (fl_id f) d \<and>
       complete_of (owner_progress fl cid ow (add_find cid ow (fl_id f) d))))"
proof (cases "first_matching_flag g cid sub d")
  case (Some f)
  have d: "finds_ok d" "constraints_ok d" using assms(1,2) by (auto simp: settled_def records_ok_def)
  have f: "f \<in> set (flags_of cid d)" using Some by (auto simp: first_matching_flag_def dest: find_Some_in)
  show ?thesis
    using attempt_completes[OF d f, of ow fl] assms(3,4) Some by (auto simp: attempt_def Let_def)
qed (use assms(3,4) in \<open>auto simp: attempt_def\<close>)

lemma native_attempt_agrees_witness:
  "\<exists>msg. attempt (sample_plugin offline_client :: unit plugin) 1 ann_request small_site = Inr (True, msg)"
proof -
  let ?g = "sample_plugin offline_client :: unit plugin" and ?d = "add_find 1 (''user'', 3) 11 small_site"
  have sub: "sum_bind (request_data ann_request) submitted = Inr ''flag-b''"
    by (simp add: request_data_def ann_request_def form_json_def submitted_def obj_get_def strip_def lstrip_def rstrip_def is_space_def)
  have match: "first_matching_flag ?g 1 ''flag-b'' small_site = Some second_flag"
    by (simp add: first_matching_flag_def flags_of_def small_tables)
  have new: "\<not> has_find (''user'', 3) 11 small_site" by (simp add: has_find_def small_tables)
  have all: "complete_of (owner_progress id 1 (''user'', 3) ?d)"
    by (simp add: complete_of_def owner_progress_def Let_def add_find_def flags_of_def finds_of_def small_tables)
  show ?thesis
    using native_attempt_agrees[where cid = 1 and fl = id, OF small_settled refl ann_owner[of "offline_client :: unit client"] sub] match new all by auto
qed



text \<open>
  The progress shown to an owner is in range: the percentage is between 0.0 and 100.0, and no more
  flags are solved than there are, whatever weights are missing or zero.
\<close>

theorem progress_within_bounds:
  assumes "float_rounding fl" "records_ok d"
  shows "0 \<le> percent_tenths (owner_progress fl cid ow d) \<and> percent_tenths (owner_progress fl cid ow d) \<le> 1000 \<and>
    flags_solved (owner_progress fl cid ow d) \<le> flags_total (owner_progress fl cid ow d)"
  using assms by (intro progress_bounds) (simp_all add: records_ok_def)

lemma progress_within_bounds_witness:
  "percent_tenths (owner_progress id 1 (''user'', 3) small_site) \<le> 1000"
  using progress_within_bounds[OF exact_rounding small_records] by blast

section \<open>Jobs\<close>

text \<open>
  C24: The sweep leaves nothing expired behind: when it returns, no committed row is live past its
  expiry at the time the sweep began, whether the daemon released the container or not, and the
  rows it did not select are still there.
\<close>

theorem sweep_clears_expired:
  assumes "settled s" "saved_db s = d"
  shows "outcome (\<lambda>_ s'. expired_of (clock_now g s) (saved_db s') = [] \<and>
      (\<forall>i \<in> set (st_instances d). i \<notin> set (expired_of (clock_now g s) d) \<longrightarrow> i \<in> set (st_instances (saved_db s'))))
    (\<lambda>_ _. True) (sweep_expired g s)"
proof -
  let ?ex = "expired_of (clock_now g s) d"
  have d: "now_db s = d" "distinct (map ei_id (st_instances d))"
    using assms by (auto simp: settled_def records_ok_def ids_ok_def)
  have "ei_id i \<notin> ei_id ` set ?ex" if "i \<in> set (st_instances d)" "i \<notin> set ?ex" for i
    using that d(2) by (force simp: expired_of_def dest: distinct_map_inj)
  then show ?thesis
    by (intro outcome_mono[OF sweep_clears[OF d(1) assms(2), of g]]) auto
qed

lemma sweep_clears_expired_witness:
  "outcome (\<lambda>_ s'. expired_of 5000 (saved_db s') = [] \<and> bob_instance \<in> set (st_instances (saved_db s')))
     (\<lambda>_ _. True) (sweep_expired (sample_plugin offline_client) (small_ctf ())) \<and>
   expired_of 5000 small_site = [ann_instance]"
proof -
  have ex: "expired_of 5000 small_site = [ann_instance]" by (simp add: expired_of_def small_tables)
  have "bob_instance \<noteq> ann_instance" by (metis small_rows(1,2) numeral_eq_iff semiring_norm)
  then show ?thesis
    using sweep_clears_expired[where g = "sample_plugin offline_client", OF small_settled[of "()"] refl] ex
    by (auto simp: small_tables elim!: outcome_mono)
qed



section \<open>Challenges and peers\<close>

text \<open>
  C37: A challenge is typed: whatever text or JSON a form holds, after a create or an update every column
  that the code coerces is NULL or of its own type (integers, the float, the boolean), for all
  challenges; a create or an update that raises commits nothing.
\<close>

theorem created_challenge_is_typed:
  assumes "challenges_typed (saved_db s)" "settled s" "typed_cols (core_defaults g)"
  shows "outcome (\<lambda>c s'. challenges_typed (saved_db s') \<and> c \<in> set (st_challenges (saved_db s')))
      (\<lambda>_ s'. saved_db s' = saved_db s) (create_challenge g rq s) \<and>
    outcome (\<lambda>_ s'. challenges_typed (saved_db s')) (\<lambda>_ s'. saved_db s' = saved_db s) (update_challenge g cid rq s)"
  using create_typed[of s g rq] update_challenge_typed[of s g cid rq] assms by (simp add: settled_def)

lemma created_challenge_is_typed_witness:
  "outcome (\<lambda>c s'. challenges_typed (saved_db s') \<and> c \<in> set (st_challenges (saved_db s')))
     (\<lambda>_ s'. saved_db s' = small_site) (create_challenge (sample_plugin offline_client) ann_request (small_ctf ()))"
proof -
  have "challenges_typed small_site"
    by (auto simp: challenges_typed_def small_tables web_challenge_def well_typed_def INT_FIELDS_def FLOAT_FIELDS_def BOOL_FIELDS_def
        intro: exI[of _ False])
  moreover have "typed_cols (core_defaults (sample_plugin offline_client))"
    by (simp add: well_typed_def INT_FIELDS_def FLOAT_FIELDS_def BOOL_FIELDS_def)
  ultimately show ?thesis
    using created_challenge_is_typed[of "small_ctf ()" "sample_plugin offline_client" ann_request] small_settled[of "()"] by simp
qed

text \<open>
  C38: A user whose peer was revoked cannot get a configuration again: the revoked row stays in the table, where
  the user id is unique, so the new row is refused by the database. The route answers 502 or raises,
  and commits nothing, although the daemon may have made a peer meanwhile.
\<close>

theorem revoked_user_cannot_download:
  assumes "p \<in> set (st_peers (now_db s))" "ep_user p = uid" "live_peer_of uid (now_db s) = None"
  shows "outcome
    (\<lambda>r s'. (\<exists>e. r = fail_json 502 ''daemon_error'' [(''detail'', JStr e)]) \<and> saved_db s' = saved_db s)
    (\<lambda>_ s'. saved_db s' = saved_db s) (download_config g uid ow s)"
  using assms by (rule revoked_download)

lemma revoked_user_cannot_download_witness:
  "outcome
    (\<lambda>r s'. (\<exists>e. r = fail_json 502 ''daemon_error'' [(''detail'', JStr e)]) \<and> saved_db s' = small_site)
    (\<lambda>_ s'. saved_db s' = small_site)
    (download_config (sample_plugin (unix_link 0 (sample_service calm_host mem_files) 1000)) 4 (''user'', 4)
       (small_ctf (busy_daemon Map.empty)))"
  using revoked_user_cannot_download[of bob_peer "small_ctf (busy_daemon Map.empty)" 4]
  by (simp add: small_tables live_peer_of_def bob_peer_def)

section \<open>Concurrent spawns\<close>

text \<open>
  C39: The limit on the containers of an owner can be passed by concurrent spawns, but not by much: with a
  finite number of threads that each spawn once, starting at or below the limit, the owner
  never has more active rows than the limit plus the threads less one, and each slot is held once.
\<close>

theorem cap_overshoot_bounded:
  fixes chal :: "'t::finite \<Rightarrow> int"
  assumes "spawn_runs ow chal cap (d, \<lambda>_. Counting) (d', ph)" "int (length (active_of ow d)) \<le> cap" "instances_unique d"
  shows "int (length (active_of ow d')) \<le> max cap (cap - 1 + int (card (UNIV :: 't set))) \<and> instances_unique d'"
  using spawn_runs_bound[OF assms(1,2)] slots_exclusive[OF assms(1)] assms(3) by simp

text \<open>Two threads, a limit of one: both count no row, then both insert theirs.\<close>

lemma cap_overshoot_bounded_witness:
  "\<exists>d' ph. spawn_runs (''user'', 3) (\<lambda>t. if t then 1 else 2) 1 (open_site, \<lambda>_. Counting) (d', ph) \<and>
     length (active_of (''user'', 3) d') = 2 \<and> instances_unique d'"
proof -
  let ?ow = "(''user'', 3)" and ?chal = "\<lambda>t. if t then 1 else 2 :: int"
  let ?ph = "\<lambda>_::bool. Counting"
  let ?d1 = "with_row (?chal True) ?ow 0 9 open_site"
  let ?d2 = "with_row (?chal False) ?ow 0 9 ?d1"
  have none: "active_of ?ow open_site = []" by (simp add: active_of_def open_site_def)
  have ok: "constraints_ok ?d1" "constraints_ok ?d2"
    using small_constraints
    by (auto simp: constraints_ok_def with_row_def open_site_def instances_unique_def peers_unique_def challenges_filled_def
        new_row_def slot_of_def List.map_filter_simps)
  let ?p1 = "?ph(True := Reserving)" and ?p2 = "?ph(True := Reserving, False := Reserving)"
  let ?p3 = "?p2(True := Reserved)"
  have "spawn_step ?ow ?chal 1 (open_site, ?ph) (open_site, ?p1)" by (rule spawn_step.count) (simp_all add: none)
  moreover have "spawn_step ?ow ?chal 1 (open_site, ?p1) (open_site, ?p2)" by (rule spawn_step.count) (simp_all add: none)
  moreover have "spawn_step ?ow ?chal 1 (open_site, ?p2) (?d1, ?p3)"
    using spawn_step.insert[of ?p2 True ?chal ?ow 0 9 open_site 1] ok by simp
  moreover have "spawn_step ?ow ?chal 1 (?d1, ?p3) (?d2, ?p3(False := Reserved))"
    using spawn_step.insert[of ?p3 False ?chal ?ow 0 9 ?d1 1] ok by simp
  ultimately have run: "spawn_runs ?ow ?chal 1 (open_site, ?ph) (?d2, ?p3(False := Reserved))"
    unfolding spawn_runs_def by (meson converse_rtranclp_into_rtranclp rtranclp.rtrancl_refl)
  have "length (active_of ?ow ?d2) = 2" by (simp add: active_with_row none)
  moreover have "instances_unique ?d2"
    using cap_overshoot_bounded[OF run] by (simp add: none) (simp add: instances_unique_def open_site_def List.map_filter_simps)
  ultimately show ?thesis using run by blast
qed

section \<open>Spawns that overlap with other requests\<close>

text \<open>
  C13: Along every run in which spawns wait for the daemon while other requests, jobs and spawns go on (a
  spawn reserves its row, calls, and records the answer, in three transactions), with anything else the
  machine does to the daemon within its own invariant, the committed tables of the plugin keep their
  constraints and references and the daemon's database keeps its own.
\<close>

theorem overlapping_spawns_keep_state:
  assumes "worker_runs (g\<lparr>rpc := unix_link n v uid\<rparr>) fl drift (s, ph) (s', ph')"
    and "settled (site_of s)" "service_ok (store (remote (site_of s)))"
    and "\<And>w w'. drift w w' \<Longrightarrow> service_ok (store w) \<Longrightarrow> service_ok (store w')"
  shows "settled (site_of s') \<and> service_ok (store (remote (site_of s')))"
  using assms by (rule linked_worker_runs)

lemma overlapping_spawns_keep_state_witness:
  "\<exists>out w. spawn_call ((sample_plugin offline_client)\<lparr>rpc := unix_link 0 (sample_service calm_host mem_files) 1000\<rparr>)
       waiting_pending (busy_daemon Map.empty) = (out, w) \<and> service_ok (store w)"
proof -
  let ?g = "(sample_plugin offline_client)\<lparr>rpc := unix_link 0 (sample_service calm_host mem_files) 1000\<rparr>"
  let ?s = "small_state (busy_daemon Map.empty)" and ?ph = "[True \<mapsto> Calling waiting_pending]"
  obtain out w where call: "spawn_call ?g waiting_pending (remote (site_of ?s)) = (out, w)" by fastforce
  have "worker_step ?g id (\<lambda>_ _. False) (?s, ?ph) (?s\<lparr>site_of := (site_of ?s)\<lparr>remote := w\<rparr>\<rparr>, ?ph(True \<mapsto> Answered waiting_pending out))"
    by (rule worker_step.called[OF _ call]) simp
  then have "worker_runs ?g id (\<lambda>_ _. False) (?s, ?ph) (?s\<lparr>site_of := (site_of ?s)\<lparr>remote := w\<rparr>\<rparr>, ?ph(True \<mapsto> Answered waiting_pending out))"
    unfolding worker_runs_def by (rule r_into_rtranclp)
  from overlapping_spawns_keep_state[OF this] call show ?thesis
    by (intro exI[of _ out] exI[of _ w]) (simp add: small_settled busy_ok(2))
qed

text \<open>
  C16: An answer that comes late finds its row: when the row that the spawn reserved is still there, whatever
  was written to it meanwhile, and the recording returns, the row in the slot is running, names the
  container of the daemon's answer with its name and address, and keeps the expiry it had by then.
\<close>

theorem late_answer_fills_row:
  assumes "spawn_record g p (Inr j) s = (Inr r, s')" "settled s"
    and "spawn_reply k = Inr j" "inst_owner k = ei_owner (pd_row p)" "challenge_ref k = str_int (ei_challenge (pd_row p))"
    and "i \<in> set (st_instances (saved_db s))" "ei_id i = ei_id (pd_row p)" "slot_of i = slot_of (pd_row p)"
  shows "\<exists>i' \<in> set (st_instances (saved_db s')). slot_of i' = slot_of (pd_row p) \<and> ei_status i' = ''running'' \<and>
    ei_container i' = Some (container_id k) \<and> ei_name i' = Some (container_name k) \<and> ei_ip i' = Some (assigned_ip k) \<and>
    ei_expires i' = ei_expires i"
proof -
  have "ids_ok (now_db s)" "now_db s = saved_db s" using assms(2) by (simp_all add: settled_def records_ok_def)
  then show ?thesis
    using late_answer[OF assms(1) _ assms(3-5) _ assms(7,8)] assms(6) by (fastforce simp: same_container_def)
qed

lemma late_answer_fills_row_witness:
  "\<exists>r s'. spawn_record (sample_plugin offline_client) waiting_pending (Inr web_answer) (site_of waiting_state) = (Inr r, s') \<and>
     (\<exists>i' \<in> set (st_instances (saved_db s')). slot_of i' = (1, (''user'', 3)) \<and> ei_status i' = ''running'' \<and>
        ei_container i' = Some ''c1'' \<and> ei_expires i' = ei_expires waiting_row)"
proof -
  obtain r s' where run: "spawn_record (sample_plugin offline_client) waiting_pending (Inr web_answer) (site_of waiting_state) = (Inr r, s')"
    using waiting_recorded by blast
  have one: "str_int 1 = ''1''" by code_simp
  have k: "inst_owner web_inst = (''user'', 3)" "challenge_ref web_inst = ''1''" "container_id web_inst = ''c1''"
    by (simp_all add: web_inst_def sample_inst_def)
  have slot: "slot_of waiting_row = (1, (''user'', 3))" by (simp add: slot_of_def)
  have "\<exists>i' \<in> set (st_instances (saved_db s')). slot_of i' = slot_of (pd_row waiting_pending) \<and> ei_status i' = ''running'' \<and>
    ei_container i' = Some (container_id web_inst) \<and> ei_name i' = Some (container_name web_inst) \<and>
    ei_ip i' = Some (assigned_ip web_inst) \<and> ei_expires i' = ei_expires waiting_row"
    by (rule late_answer_fills_row[OF run waiting_settled web_reply]) (simp_all add: k one)
  then show ?thesis using run k slot by auto
qed



section \<open>The start of a worker\<close>

text \<open>
  C26: A boot upgrades any earlier version, loses nothing and can be repeated. Over tables each of which is
  missing or short of added columns, and on a server that takes the migrations, it leaves every table
  with all its columns, the old rows as they were with the defaults of the new columns, every setting
  present and none that was set changed; a later boot, of this or another worker, changes no table and
  no row.
\<close>

theorem boot_upgrades_site:
  assumes "older_schema (wk_tables a)" "''edo'' \<notin> fst ` set (wk_blueprints a)" "constraints_ok (now_db (wk_site a))"
  shows "\<exists>a'. load_app True a = (Inr (), a') \<and> current_schema (wk_tables a') \<and>
     (\<forall>n tb. wk_tables a n = Some tb \<longrightarrow> wk_tables a' n = Some (extend_table (lacking n tb) tb)) \<and>
     map_of (wk_types a') ''edo'' = Some ''EdoChallengeType'' \<and> wk_schedule a' \<noteq> None \<and>
     constraints_ok (saved_db (wk_site a')) \<and> fst ` set DEFAULTS \<subseteq> fst ` set (st_settings (saved_db (wk_site a'))) \<and>
     (\<forall>k t. setting_row k (now_db (wk_site a)) = Some t \<longrightarrow> setting_row k (saved_db (wk_site a')) = Some t) \<and>
     (\<forall>b. wk_tables b = wk_tables a' \<longrightarrow> wk_site b = wk_site a' \<longrightarrow> ''edo'' \<notin> fst ` set (wk_blueprints b) \<longrightarrow>
        (\<exists>b'. load_app True b = (Inr (), b') \<and> wk_tables b' = wk_tables b \<and> wk_site b' = wk_site b))"
proof -
  note boot = load_app_boots[OF assms(2,3)] and seeds = seeded_ok[OF assms(3)]
  have started: "start_scheduler x d \<noteq> None" for x d by (simp add: start_scheduler_def split: option.split)
  have again: "\<exists>b'. load_app True b = (Inr (), b') \<and> wk_tables b' = wk_tables b \<and> wk_site b' = wk_site b"
    if "wk_tables b = upgraded (wk_tables a)" "''edo'' \<notin> fst ` set (wk_blueprints b)"
      "wk_site b = (wk_site a)\<lparr>now_db := seeded (now_db (wk_site a)), saved_db := seeded (now_db (wk_site a))\<rparr>" for b
    using load_app_boots[of b] that seeds upgraded_idem[OF upgraded_current[OF assms(1)]] by simp
  show ?thesis
    unfolding boot
    by (intro exI conjI, rule refl)
      (use seeds started again upgraded_current[OF assms(1)] in \<open>auto simp: upgraded_present update_conv'\<close>)
qed

lemma boot_upgrades_site_witness:
  "\<exists>a'. load_app True (old_worker Map.empty) = (Inr (), a') \<and> current_schema (wk_tables a') \<and>
     (\<exists>tb. wk_tables a' ''edo_challenge'' = Some tb \<and> (\<forall>r \<in> set (tb_rows tb). map_of r ''access_mode'' = Some (JStr ''vpn'')))"
proof -
  let ?a = "old_worker Map.empty"
  have a: "wk_tables ?a = old_tables" "wk_blueprints ?a = [(''views'', [])]" "now_db (wk_site ?a) = small_site"
    by (simp_all add: old_worker_def)
  obtain tb where tb: "old_tables ''edo_challenge'' = Some tb" "lacking ''edo_challenge'' tb = [(''access_mode'', JStr ''vpn'')]"
    "\<forall>r \<in> set (tb_rows tb). map_of r ''access_mode'' = None"
    by (simp add: old_tables_def lacking_def migrated_def COLUMN_MIGRATIONS_def)
  have "\<exists>a'. load_app True ?a = (Inr (), a') \<and> current_schema (wk_tables a') \<and>
      wk_tables a' ''edo_challenge'' = Some (extend_table [(''access_mode'', JStr ''vpn'')] tb)"
    using boot_upgrades_site[of ?a] old_tables_older small_constraints tb by (auto simp: a)
  moreover have "\<forall>r \<in> set (tb_rows (extend_table [(''access_mode'', JStr ''vpn'')] tb)). map_of r ''access_mode'' = Some (JStr ''vpn'')"
    using tb(3) by (auto simp: extend_table_def map_add_def)
  ultimately show ?thesis by blast
qed

end
