(* ===== verification/Octet_Race.thy ===== *)
theory Octet_Race
  imports Daemon_Db
begin

text \<open>
  Concurrent calls of \<open>allocate_octet\<close> (\<open>daemon/edo_core/db.py\<close>). The daemon serves every
  connection in its own thread; the manager's lock makes each \<open>with self._conn()\<close> block atomic,
  but \<open>allocate_octet\<close> runs several of them: \<open>get_octet\<close>, then one per attempt of its loop.
  A step of the relation is one such block (or the final \<open>raise\<close>) of one thread, so the runs are
  all interleavings of the blocks. \<open>own t\<close> is the owner for which thread \<open>t\<close> calls.
\<close>

datatype alloc_thread = Checking | Retrying nat "exc option" | Done "exc + int"

type_synonym 't alloc_state = "db \<times> ('t \<Rightarrow> alloc_thread)"

inductive octet_step :: "('t \<Rightarrow> owner) \<Rightarrow> 't alloc_state \<Rightarrow> 't alloc_state \<Rightarrow> bool"
  for own :: "'t \<Rightarrow> owner" where
  check_hit: "ts t = Checking \<Longrightarrow> get_octet (own t) d = Some k \<Longrightarrow>
     octet_step own (d, ts) (d, ts(t := Done (Inr k)))"
| check_miss: "ts t = Checking \<Longrightarrow> get_octet (own t) d = None \<Longrightarrow>
     octet_step own (d, ts) (d, ts(t := Retrying 254 None))"
| attempt_ok: "ts t = Retrying (Suc n) le \<Longrightarrow> octet_attempt (own t) d = (Inr k, d') \<Longrightarrow>
     octet_step own (d, ts) (d', ts(t := Done (Inr k)))"
| attempt_again: "ts t = Retrying (Suc n) le \<Longrightarrow> octet_attempt (own t) d = (Inl (IntegrityError s), d') \<Longrightarrow>
     octet_step own (d, ts) (d', ts(t := Retrying n (Some (IntegrityError s))))"
| attempt_raise: "ts t = Retrying (Suc n) le \<Longrightarrow> octet_attempt (own t) d = (Inl (RuntimeError s), d') \<Longrightarrow>
     octet_step own (d, ts) (d', ts(t := Done (Inl (RuntimeError s))))"
| give_up: "ts t = Retrying 0 le \<Longrightarrow>
     octet_step own (d, ts) (d, ts(t := Done (Inl (octet_give_up le))))"

inductive_cases octet_stepE: "octet_step own (d, ts) (d', ts')"

definition octet_runs :: "('t \<Rightarrow> owner) \<Rightarrow> 't alloc_state \<Rightarrow> 't alloc_state \<Rightarrow> bool" where
  "octet_runs own = (octet_step own)\<^sup>*\<^sup>*"

section \<open>Safety of every interleaving\<close>

text \<open>A thread that returned an octet returned the one its owner holds.\<close>

definition served :: "('t \<Rightarrow> owner) \<Rightarrow> 't alloc_state \<Rightarrow> bool" where
  "served own s \<longleftrightarrow> db_ok (fst s) \<and> (\<forall>t k. snd s t = Done (Inr k) \<longrightarrow> get_octet (own t) (fst s) = Some k)"

lemma attempt_Inr:
  assumes "octet_attempt ow d = (Inr k, d')"
  shows "allocate_octet ow d = (Inr k, d')"
proof -
  have "ow \<notin> oct_owner ` set (octets d)" using assms octet_attempt_taken[of ow d] by auto
  then show ?thesis
    using assms by (simp add: allocate_octet_eq octet_attempt_new get_octet_None[THEN iffD2])
qed

lemma attempt_Inl: "octet_attempt ow d = (Inl e, d') \<Longrightarrow> d' = d"
  using octet_attempt_taken[of ow d] octet_attempt_new[of ow d]
  by (cases "ow \<in> oct_owner ` set (octets d)") (auto split: option.splits)

lemma octet_step_keeps:
  "octet_step own (d, ts) (d', ts') \<Longrightarrow> db_ok d \<Longrightarrow>
   db_ok d' \<and> (\<forall>ow k. get_octet ow d = Some k \<longrightarrow> get_octet ow d' = Some k)"
  by (erule octet_stepE)
    (auto dest!: attempt_Inl attempt_Inr dest: op.claim_inv op.claim_keeps_all)

lemma served_step:
  assumes "octet_step own s s'" "served own s"
  shows "served own s'"
proof -
  obtain d ts d' ts' where s: "s = (d, ts)" "s' = (d', ts')" by (cases s; cases s')
  have ok: "db_ok d" and keeps: "db_ok d'" "\<And>ow k. get_octet ow d = Some k \<Longrightarrow> get_octet ow d' = Some k"
    using assms octet_step_keeps[of own d ts d' ts'] by (auto simp: s served_def)
  from assms(1)[unfolded s] show ?thesis
    by (rule octet_stepE)
      (use assms(2) keeps ok op.claim_held[OF ok attempt_Inr] in \<open>auto simp: s served_def\<close>)
qed

lemma served_runs: "octet_runs own s s' \<Longrightarrow> served own s \<Longrightarrow> served own s'"
  unfolding octet_runs_def by (induction rule: rtranclp_induct) (auto intro: served_step)

lemma served_agree:
  assumes "served own (d, ts)" "ts t = Done (Inr k)" "ts t' = Done (Inr k')"
  shows "own t = own t' \<longleftrightarrow> k = k'"
proof -
  have "db_ok d" "get_octet (own t) d = Some k" "get_octet (own t') d = Some k'"
    using assms by (auto simp: served_def)
  then show ?thesis using op.exclusive[of d "own t" k "own t'"] by auto
qed

section \<open>A thread that runs alone\<close>

text \<open>Without interference the steps of a thread are the function \<open>allocate_octet\<close>.\<close>

lemma loop_runs:
  "ts t = Retrying n le \<Longrightarrow> allocate_octet_loop n le (own t) d = (r, d') \<Longrightarrow>
   octet_runs own (d, ts) (d', ts(t := Done r))"
proof (induction n arbitrary: le d ts)
  case 0
  then have "octet_step own (d, ts) (d', ts(t := Done r))" using give_up[of ts t le own d] by simp
  then show ?case unfolding octet_runs_def by (rule r_into_rtranclp)
next
  case (Suc n)
  obtain x d1 where att: "octet_attempt (own t) d = (x, d1)" by (cases "octet_attempt (own t) d")
  show ?case
  proof (cases x)
    case (Inr k)
    then have "octet_step own (d, ts) (d', ts(t := Done r))"
      using Suc.prems att attempt_ok[of ts t n le own d k d1] by simp
    then show ?thesis unfolding octet_runs_def by (rule r_into_rtranclp)
  next
    case (Inl e)
    have "(\<exists>s. e = IntegrityError s) \<or> (\<exists>s. e = RuntimeError s)"
      using att Inl octet_attempt_taken[of "own t" d] octet_attempt_new[of "own t" d]
      by (cases "own t \<in> oct_owner ` set (octets d)") (auto split: option.splits)
    then show ?thesis
    proof (elim disjE exE)
      fix s assume e: "e = IntegrityError s"
      have "octet_step own (d, ts) (d1, ts(t := Retrying n (Some e)))"
        unfolding e using Suc.prems(1) att Inl e by (auto intro: attempt_again)
      moreover have "octet_runs own (d1, ts(t := Retrying n (Some e))) (d', (ts(t := Retrying n (Some e)))(t := Done r))"
        by (rule Suc.IH) (use Suc.prems(2) att Inl e in simp_all)
      ultimately show ?thesis
        unfolding octet_runs_def fun_upd_upd by (rule converse_rtranclp_into_rtranclp)
    next
      fix s assume "e = RuntimeError s"
      then have "octet_step own (d, ts) (d', ts(t := Done r))"
        using Suc.prems att Inl attempt_raise[of ts t n le own d s d1] by simp
      then show ?thesis unfolding octet_runs_def by (rule r_into_rtranclp)
    qed
  qed
qed

lemma alone_runs:
  assumes "ts t = Checking" "allocate_octet (own t) d = (r, d')"
  shows "octet_runs own (d, ts) (d', ts(t := Done r))"
proof (cases "get_octet (own t) d")
  case (Some k)
  then have "octet_step own (d, ts) (d', ts(t := Done r))"
    using assms check_hit[of ts t own d k] by (simp add: allocate_octet_def)
  then show ?thesis unfolding octet_runs_def by (rule r_into_rtranclp)
next
  case None
  have "octet_runs own (d, ts(t := Retrying 254 None)) (d', (ts(t := Retrying 254 None))(t := Done r))"
    by (rule loop_runs) (use assms(2) None in \<open>simp_all add: allocate_octet_def\<close>)
  moreover have "octet_step own (d, ts) (d, ts(t := Retrying 254 None))"
    using assms(1) None by (rule check_miss)
  ultimately show ?thesis
    unfolding octet_runs_def fun_upd_upd by (blast intro: converse_rtranclp_into_rtranclp)
qed

section \<open>The losing thread\<close>

text \<open>
  When another thread inserts the row of the same owner between the check and the first attempt,
  the losing thread never returns that octet: it keeps retrying and ends in an exception.
\<close>

definition lost :: "('t \<Rightarrow> owner) \<Rightarrow> 't \<Rightarrow> 't alloc_state \<Rightarrow> bool" where
  "lost own t s \<longleftrightarrow> get_octet (own t) (fst s) \<noteq> None \<and> db_ok (fst s) \<and>
     ((\<exists>n le. snd s t = Retrying n le) \<or> (\<exists>e. snd s t = Done (Inl e)))"

lemma lost_step:
  assumes "octet_step own s s'" "lost own t s"
  shows "lost own t s'"
proof -
  obtain d ts d' ts' where s: "s = (d, ts)" "s' = (d', ts')" by (cases s; cases s')
  have db: "db_ok d" "get_octet (own t) d \<noteq> None" using assms(2) by (simp_all add: s lost_def)
  then have ok: "db_ok d'" "get_octet (own t) d' \<noteq> None"
    using octet_step_keeps[OF assms(1)[unfolded s]] by fastforce+
  have "own t \<in> oct_owner ` set (octets d)"
    using assms(2) get_octet_None[of "own t" d] by (auto simp: s lost_def)
  then have "octet_attempt (own t) d \<noteq> (Inr k, d'')" for k d''
    using octet_attempt_taken[of "own t" d] by auto
  with assms(1)[unfolded s] show ?thesis
    by (elim octet_stepE) (use assms(2) ok in \<open>auto simp: s lost_def split: if_splits\<close>)
qed

lemma lost_runs: "octet_runs own s s' \<Longrightarrow> lost own t s \<Longrightarrow> lost own t s'"
  unfolding octet_runs_def by (induction rule: rtranclp_induct) (auto intro: lost_step)

section \<open>Termination\<close>

text \<open>The steps a thread may still take; each step of a thread lowers its own number only.\<close>

fun steps_left :: "alloc_thread \<Rightarrow> nat" where
  "steps_left Checking = 256"
| "steps_left (Retrying n _) = Suc n"
| "steps_left (Done _) = 0"

lemma octet_step_decreases:
  "octet_step own (d, ts) (d', ts') \<Longrightarrow>
   \<exists>t. steps_left (ts' t) < steps_left (ts t) \<and> (\<forall>t'. t' \<noteq> t \<longrightarrow> ts' t' = ts t')"
  by (erule octet_stepE) (auto intro: exI[where x = t for t])

lemma octet_step_progress:
  assumes "steps_left (ts t) > 0"
  shows "\<exists>d' ts'. octet_step own (d, ts) (d', ts') \<and> steps_left (ts' t) < steps_left (ts t)"
proof (cases "ts t")
  case Checking
  then show ?thesis
    using check_hit[of ts t own d] check_miss[of ts t own d]
    by (cases "get_octet (own t) d") fastforce+
next
  case (Retrying n le)
  show ?thesis
  proof (cases n)
    case 0
    then show ?thesis using Retrying give_up[of ts t le own d] by fastforce
  next
    case (Suc m)
    obtain x d1 where att: "octet_attempt (own t) d = (x, d1)" by (cases "octet_attempt (own t) d")
    then have "(\<exists>k. x = Inr k) \<or> (\<exists>s. x = Inl (IntegrityError s)) \<or> (\<exists>s. x = Inl (RuntimeError s))"
      using octet_attempt_taken[of "own t" d] octet_attempt_new[of "own t" d]
      by (cases "own t \<in> oct_owner ` set (octets d)") (auto split: option.splits)
    then show ?thesis
      using att Retrying Suc attempt_ok[of ts t m le own d] attempt_again[of ts t m le own d]
        attempt_raise[of ts t m le own d]
      by fastforce
  qed
qed (use assms in simp)

end
