(* ===== verification/Spec2Isabelle.thy ===== *)
theory Spec2Isabelle
  imports Plugin_Properties Octet_Race Lease Sample_Overlap
begin

text \<open>
  A verification library of edo-plugin: a plugin for CTFd that gives every participant (or team)
  containers of their own, and the root daemon that runs them. The sources are under \<open>src/\<close>.

  \<^bold>\<open>The program.\<close> The plugin (\<open>src/*.py\<close>, \<open>src/api\<close>) runs in CTFd's web workers. It keeps tables in CTFd's
  database, answers the routes of participants and administrators, and runs two background jobs
  in the worker that holds a lease. What needs root is done by the daemon (\<open>src/daemon\<close>), which it
  calls over a Unix socket with framed JSON: containers, a docker network per owner, WireGuard peers
  and the firewall that keeps the owners apart. The daemon has a SQLite database of its own.

  \<^bold>\<open>Conventions.\<close> A fallible operation returns \<open>exc + 'a\<close>, a stateful one is an \<open>act\<close>, a function from a
  state to a result and a state; \<open>and_then\<close> and \<open>except\<close> are the sequencing and the \<open>try\<close> of the code.
  Records are the classes and rows of the code, a table is the list of its rows. Python's integers
  are \<open>int\<close>, texts are lists of characters up to 255. Code that is not in the repository (docker's
  SDK, host programs, the file system, sockets, clocks, CTFd's flag classes) is a record of
  functions on an arbitrary state \<open>'w\<close> of the machine; what the theorems need of it is a hypothesis
  with a name, such as \<open>documented_match\<close>, \<open>iptables_ok\<close>, \<open>plain_routes\<close>, \<open>documented_files\<close>, \<open>float_rounding\<close>, and each
  has an instance in \<open>Sample_World\<close>, \<open>Sample_Site\<close>, \<open>Sample_Threads\<close> or \<open>Sample_Overlap\<close>.

  \<^bold>\<open>The base.\<close> \<open>Edo_Prelude\<close>: exceptions, actions, the picker of the first free candidate.
  \<open>Py_Text\<close>, \<open>Json_Text\<close>, \<open>Ini_Text\<close>: what the code uses of \<open>str\<close>, \<open>json\<close> and \<open>configparser\<close>, with \<open>dumps\<close> and
  \<open>loads\<close> as inverses. \<open>Wire_Format\<close>, \<open>Json_Wire\<close>: the framing of both ends. \<open>Store_Contracts\<close>: the
  contracts of a pool that hands out values and of a store of keyed rows, as locales.

  \<^bold>\<open>The daemon.\<close> \<open>Net_Topology\<close>, \<open>Firewall_Rules\<close>, \<open>Firewall_Apply\<close>, \<open>Host_Process\<close>: \<open>edo_core/network.py\<close>,
  \<open>_run\<close> and \<open>install_hints.py\<close>. \<open>Daemon_Db\<close>: \<open>edo_core/db.py\<close>, one function per method, with its UNIQUE
  constraints; the contracts are interpreted on it. \<open>Docker_Sdk\<close>, \<open>Containers\<close>: \<open>edo_core/containers.py\<close>.
  \<open>Wireguard\<close>: \<open>edo_core/wireguard.py\<close>. \<open>Daemon_Rpc\<close>: \<open>edo_daemon.py\<close>, from the bytes of a connection to
  the reply, and the start-up. \<open>Daemon_Process\<close>: the process around it, with its settings, the credentials of a
  connection as machine words, the socket file and the accept loop. The laws: \<open>Daemon_Calculus\<close> (how proofs go through the
  statements), \<open>Container_Laws\<close>, \<open>Wireguard_Laws\<close>, \<open>Wg_Config_File\<close>, \<open>Port_Guard\<close>, \<open>Iptables_Machine\<close>
  (what a rebuild leaves in the kernel), \<open>Daemon_Laws\<close> (every request keeps what the locales
  \<open>tracked\<close> and \<open>enrolled\<close> ask for). Interleavings: \<open>Octet_Race\<close> at the blocks of \<open>allocate_octet\<close>,
  \<open>Daemon_Threads\<close> at the two halves of a spawn and the other requests, \<open>Rebuild_Race\<close> at the reads and the
  application of concurrent rebuilds of the firewall, \<open>Command_Race\<close> at their single commands, over the programs of
  \<open>Firewall_Steps\<close>, which are \<open>apply_firewall\<close> once more and equal to it when nothing comes in between.

  \<^bold>\<open>The plugin.\<close> \<open>Daemon_Client\<close>: \<open>daemon_client.py\<close>, joined to the server over any link that delivers
  the bytes. \<open>Plugin_Db\<close>: \<open>models.py\<close>, \<open>config.py\<close>, sessions with flush, commit and rollback, \<open>_audit\<close>
  and \<open>_seed_defaults\<close>. \<open>Owner_Scope\<close>: \<open>owner.py\<close> and \<open>owner_required\<close>. \<open>Rate_Limit\<close>: \<open>decorators.py\<close>.
  \<open>Challenge_Type\<close>: \<open>challenge_type.py\<close>. \<open>Participant_Api\<close>: \<open>api/user.py\<close>. \<open>Admin_Api\<close>: \<open>api/admin.py\<close>.
  \<open>Lease\<close>, \<open>Background_Jobs\<close>: \<open>scheduler.py\<close> and the start-up of a worker. The laws: \<open>Plugin_Laws\<close> (what
  every route keeps, locales \<open>site_edits\<close> and \<open>site_law\<close>), \<open>Plugin_System\<close> (the site as a step relation
  and its invariant), \<open>Instance_Laws\<close>, \<open>Job_Laws\<close>, \<open>Scoring_Laws\<close>, \<open>Challenge_Laws\<close>, \<open>Spawn_Race\<close> (concurrent
  reservations). \<open>Plugin_Boot\<close>: \<open>load\<close> of \<open>__init__.py\<close> with its tables, column migrations and registrations.
  \<open>Plugin_Daemon\<close> composes the two programs: \<open>site_law\<close> with the invariant of the
  daemon as the property of the world outside, a spawn from the route to the daemon's table, and the
  reconciliation with it. \<open>Spawn_Teardown\<close> interleaves the three parts of a spawn (reservation, call, record) with
  the other requests, jobs and spawns.

  \<^bold>\<open>The properties\<close> are in this theory (the daemon, leases, the rate limit) and in \<open>Plugin_Properties\<close>
  (the plugin and the system). The groups: isolation (C2 to C6, C8, C9, C27 to C30, C40: the rules, the octets
  and ports behind them, and the runs in which they fail), the daemon's tables and its clients (C1, C7, C10, C11,
  C18, C19, C31 to C33), the system across the socket (C12 to C17, C24, C25), the tables and points of the plugin
  (C20 to C23, C26, C36 to C39), leases and limits (C34, C35). Theorems without a number are further results.

  \<^bold>\<open>Bounds and fuel.\<close> \<open>launch_loop\<close> has the 8 tries of the code, \<open>allocate_octet\<close> its 254 attempts,
  \<open>allocate_peer\<close> one for each candidate and at least 8, \<open>unhook_loop\<close> the 5 of the code. \<open>loads\<close> runs with the length of its text
  plus one as fuel, which is enough because each nested call consumes a character (\<open>loads_dumps\<close> shows that it
  returns on every text that \<open>dumps\<close> writes). All other recursions are structural.

  \<^bold>\<open>Not modelled.\<close> Logging. Threads other than in \<open>Octet_Race\<close>, \<open>Daemon_Threads\<close>, \<open>Rebuild_Race\<close>, \<open>Command_Race\<close>,
  \<open>Spawn_Race\<close>, \<open>Spawn_Teardown\<close> and \<open>Lease\<close>: another request of the plugin runs alone, and \<open>daemon_main\<close> serves its connections one after
  another. That two runs of iptables block each other and fail is a refusal like any other; that a query then
  answers wrongly is excluded by \<open>iptables_ok\<close>. Directories of the socket and the database; templates and pages; CTFd's own code and caches. SQL is
  tables, columns, rows and constraints. Floats are their literals, and arithmetic on them is
  exact arithmetic with a rounding function as a parameter. Texts outside Latin-1 (the dash of one message is written
  as a hyphen), the wording of JSON errors, byte order marks and UTF-16 bodies. Foreign keys beyond their cascades,
  the lengths of columns, values of a type that no column takes (refused). A request whose user row is missing is
  refused at the first use of the row.
\<close>

section \<open>The daemon as a whole\<close>

text \<open>
  C1: Whatever clients connect one after another, with whatever uid and bytes, the database
  keeps the constraints of its tables, every owner with an instance keeps its octet, and every
  peer address is a candidate of the WireGuard subnet.
\<close>

theorem session_keeps_state:
  "service_ok (store s) \<Longrightarrow> service_ok (store (serve_session v conns s))"
  by (rule kept.session)

lemma session_keeps_state_witness:
  "service_ok (store (serve_session (sample_service calm_host mem_files)
     [(1000, [Chunk ''abc'']), (0, [])] (busy_daemon Map.empty)))"
  by (rule session_keeps_state) (simp add: busy_ok)

text \<open>
  C2: After start-up, any session and any interleaving of concurrent requests, the rules that the daemon
  computes from its database drop every packet between two addresses of the pool of container subnets,
  so no container reaches a container of another owner through the host.
\<close>

theorem run_isolates_containers:
  assumes "peers_in_pool (store s)" "thread_runs v (run_daemon v conns s, ph) (s', ph')"
    and "documented_match rm" "plain_iface i" "wf_packet p"
    and "in_net (pkt_src p) DOCKER_POOL" "in_net (pkt_dst p) DOCKER_POOL"
  shows "chain_decision rm i (peers_grouped_by_owner (store s')) (octets_by_owner (store s')) p = Dropped"
proof -
  have "peers_in_pool (store (run_daemon v conns s))" by (rule boot.daemon_run[OF assms(1)])
  then have "peers_in_pool (store s')" using boot.thread_runs_law[OF assms(2)] by simp
  then have "db_ok (store s')" by (simp add: peers_in_pool_def)
  then show ?thesis by (rule fwdb.containers_isolated[OF assms(3,4) _ assms(5-7)])
qed

lemma run_isolates_containers_witness:
  "chain_decision reading_match ''eth0''
     (peers_grouped_by_owner (store (run_daemon (sample_service calm_host mem_files) [] (fresh_daemon Map.empty))))
     (octets_by_owner (store (run_daemon (sample_service calm_host mem_files) [] (fresh_daemon Map.empty))))
     pool_packet = Dropped"
proof -
  let ?v = "sample_service calm_host mem_files" and ?s = "fresh_daemon Map.empty"
  have "thread_runs ?v (run_daemon ?v [] ?s, \<lambda>_ :: bool. None) (run_daemon ?v [] ?s, \<lambda>_. None)"
    by (simp add: thread_runs_def)
  from run_isolates_containers[OF _ this documented_reading_match eth_plain] show ?thesis
    by (simp add: empty_ok pool_packet_facts)
qed

text \<open>
  C3: Traffic that the rules accept goes from a peer to the subnet of the peer's own owner, or from
  that subnet back to the peer: no peer is let into the subnet of another owner.
\<close>

theorem accepted_stays_with_owner:
  assumes "db_ok d" "documented_match rm" "plain_iface i" "wf_packet p"
    and "chain_decision rm i (peers_grouped_by_owner d) (octets_by_owner d) p = Accepted"
  shows "\<exists>q \<in> set (peers d). \<exists>k. get_octet (peer_owner q) d = Some k \<and>
     (ip_address q = ip_str (pkt_src p) \<and> in_net (pkt_dst p) (owner_net (nat k)) \<or>
      ip_address q = ip_str (pkt_dst p) \<and> in_net (pkt_src p) (owner_net (nat k)))"
  using fwdb.accepted_only_own[OF assms(2,3,1,4,5)]
  unfolding grouped_iff octets_by_owner_iff[OF assms(1)] by blast

text \<open>
  C4: A peer reaches the subnet of its own owner: once the owner has an octet, every packet from
  the peer's address to that subnet is accepted.
\<close>

theorem own_subnet_reachable:
  assumes "db_ok d" "documented_match rm" "plain_iface i" "wf_packet p"
    and "q \<in> set (peers d)" "ip_address q = ip_str (pkt_src p)"
    and "get_octet (peer_owner q) d = Some k" "in_net (pkt_dst p) (owner_net (nat k))"
  shows "chain_decision rm i (peers_grouped_by_owner d) (octets_by_owner d) p = Accepted"
  using assms(5-8)
  by (intro fwdb.own_access_accepted[OF assms(2,3,1,4)]) (auto simp: grouped_iff octets_by_owner_iff[OF assms(1)])

lemma own_subnet_reachable_witness:
  "chain_decision reading_match ''eth0'' (peers_grouped_by_owner busy_db) (octets_by_owner busy_db) own_packet = Accepted"
proof (rule own_subnet_reachable[OF busy_db_ok documented_reading_match eth_plain own_packet_facts(1)])
  show "sample_peer \<in> set (peers busy_db)" "get_octet (peer_owner sample_peer) busy_db = Some 1"
    "ip_address sample_peer = ip_str (pkt_src own_packet)"
    by (simp_all add: own_packet_facts) (simp_all add: busy_db_def sample_peer_def get_octet_def)
qed (use own_packet_facts in simp)

lemma accepted_stays_with_owner_witness:
  "\<exists>q \<in> set (peers busy_db). \<exists>k. get_octet (peer_owner q) busy_db = Some k \<and>
     (ip_address q = ip_str (pkt_src own_packet) \<and> in_net (pkt_dst own_packet) (owner_net (nat k)) \<or>
      ip_address q = ip_str (pkt_dst own_packet) \<and> in_net (pkt_src own_packet) (owner_net (nat k)))"
  by (rule accepted_stays_with_owner[OF busy_db_ok documented_reading_match eth_plain own_packet_facts(1) own_packet_accepted])



text \<open>
  A client whose uid is neither root's nor the configured one is told so: nothing it sends is
  read and nothing changes.
\<close>

theorem strangers_are_refused:
  assumes "uid \<noteq> 0" "allowed_uid v = Some t" "int_of_text t = Inr n" "uid \<noteq> n"
  shows "serve_one v uid evs s = send_reply (error_reply ''unauthorized'') s"
  using assms by (intro refused_reply) (simp add: authorized_def)

lemma strangers_are_refused_witness:
  "serve_one (sample_service calm_host mem_files) 33 [Chunk ''abc''] (busy_daemon Map.empty)
   = send_reply (error_reply ''unauthorized'') (busy_daemon Map.empty)"
proof (rule strangers_are_refused)
  have "''1000'' = str_int 1000" by code_simp
  then show "int_of_text ''1000'' = Inr 1000" by simp
qed (simp_all add: sample_service_def)

section \<open>Concurrent requests\<close>



text \<open>
  C8: A spawn can end in the subnet of another owner. There is a run from a consistent state in which an
  owner releases its last container while its next spawn is building: the octet is freed and given to
  another owner, then the container is created in that network. Its owner has no octet any more; by C3
  and C4 the rules let the other owner's peers into that subnet, and not those of its own.
\<close>

theorem building_spawn_loses_subnet:
  "\<exists>(v :: dock service) s s' ph i ow k a. service_ok (store s) \<and>
     thread_runs v (s, \<lambda>_ :: bool. None) (s', ph) \<and> \<not> service_ok (store s') \<and>
     i \<in> set (instances (store s')) \<and> get_octet (inst_owner i) (store s') = None \<and>
     ow \<noteq> inst_owner i \<and> get_octet ow (store s') = Some k \<and> in_net a (owner_net (nat k)) \<and> assigned_ip i = ip_str a"
proof -
  obtain i s' where run: "thread_runs dock_service (dock_daemon, \<lambda>_ :: bool. None) (s', [False \<mapsto> (other_request, 1)])"
    and i: "instances (store s') = [i]" "octets (store s') = octets given_db" "inst_owner i = (''team'', 7)" "assigned_ip i = ip_str (ip_of_octets 10 9 1 2)"
    using late_run by blast
  have oct: "get_octet (''team'', 7) (store s') = None" "get_octet (''team'', 9) (store s') = Some 1"
    using i(2) by (simp_all add: get_octet_def given_db_def freed_db_def)
  have "in_net (ip_of_octets 10 9 1 2) (owner_net (nat 1))" by (simp add: in_owner_net_iff ip_of_octets_def)
  moreover have "\<not> service_ok (store s')" using i(1,3) oct(1) by (simp add: service_ok_def daemon_ok_def housed_def)
  moreover have "i \<in> set (instances (store s'))" "service_ok (store dock_daemon)" "get_octet (inst_owner i) (store s') = None"
    "(''team'', 9) \<noteq> inst_owner i" using i(1,3) oct(1) busy_ok(2) by simp_all
  ultimately show ?thesis using run i(4) oct(2) by blast
qed

section \<open>Concurrent rebuilds\<close>



text \<open>
  When the commands of each rebuild stay together, more is known. However the threads interleave their
  reads of the tables, their writes and their applications, when the last application succeeded the
  kernel has a chain, hooked first, whose verdict is the policy of the tables which that one had read,
  and packets between container subnets are dropped, even when peers and octets were read at different
  moments or hold no longer.
\<close>

theorem concurrent_rebuilds_isolate:
  assumes "iptables_ok (host_of (machine_of v)) ch" "no_firewalld (host_of (machine_of v))" "documented_match rm"
    and "rebuild_runs v ch b b'" "db_ok (store (rb_daemon b))" "\<forall>x. rb_threads b x = Idle_thread" "rb_last b = None"
    and "rb_last b' = Some (i, tb)" "plain_iface i"
  shows "\<exists>specs target rs. ch (world (rb_daemon b')) EDO_CHAIN = Some specs \<and> target \<in> set FORWARD_HOOK_CANDIDATES \<and>
     ch (world (rb_daemon b')) target = Some ([''-j'', EDO_CHAIN] # rs) \<and>
     (\<forall>p. wf_packet p \<longrightarrow> decision_of (chain_verdict rm specs p) = policy i (fst tb) (snd tb) p) \<and>
     (\<forall>p. wf_packet p \<longrightarrow> in_net (pkt_src p) DOCKER_POOL \<longrightarrow> in_net (pkt_dst p) DOCKER_POOL \<longrightarrow>
        decision_of (chain_verdict rm specs p) = Dropped)"
proof -
  have "rebuilds_ok ch b" using assms(5-7) by (simp add: rebuilds_ok_def reads_ok_def)
  then have held: "chain_holds (ch (world (rb_daemon b'))) i tb"
    using rebuild_runs_ok[OF assms(1,2,4)] assms(8) by (cases tb) (simp add: rebuilds_ok_def)
  then have "some_tables tb" by (simp add: chain_holds_def)
  from held_verdict[OF held assms(3,9)] some_tables_isolate[OF this assms(3,9)] show ?thesis by fastforce
qed

lemma concurrent_rebuilds_isolate_witness:
  "\<exists>b' specs. rebuild_runs (sample_service sim_host no_files) id race_start b' \<and>
     world (rb_daemon b') EDO_CHAIN = Some specs \<and> decision_of (chain_verdict reading_match specs pool_packet) = Dropped"
proof -
  let ?v = "sample_service sim_host no_files :: chains service"
  have "''FORWARD'' \<in> dom (world (busy_daemon fresh_chains))" by (simp add: busy_daemon_def fresh_chains_def)
  from sim_apply_tables[OF busy_db_ok this] obtain res s' where
    run: "apply_tables ?v (peers_grouped_by_owner busy_db, octets_by_owner busy_db) (busy_daemon fresh_chains) = (Inr res, s')"
    and res: "public_interface res = ''eth0''" by blast
  let ?b' = "\<lparr>rb_daemon = s', rb_threads = rb_threads race_start,
    rb_last = Some (''eth0'', peers_grouped_by_owner busy_db, octets_by_owner busy_db)\<rparr>"
  have runs: "rebuild_runs ?v id race_start ?b'"
    using apply_in_steps[of race_start True ?v "Inr res" s' id] run res by (simp add: last_of_def)
  from concurrent_rebuilds_isolate[OF _ _ documented_reading_match this] show ?thesis
    using runs pool_packet_facts by (fastforce simp: sim_host_ok sim_no_firewalld busy_db_ok eth_plain)
qed

text \<open>
  C9: A rebuild can install tables that no longer hold, and so let a peer into the subnet of another
  owner. An octet that belonged to the peer's owner when a thread read the tables has since been given to
  another owner, whose own rebuild has run; when the first thread then applies what it read, all is
  quiet, the tables are the new ones, and the chain accepts the peer's packets to the subnet.
\<close>

theorem stale_rebuild_opens_subnet:
  assumes "iptables_ok (host_of (machine_of v)) ch" "no_firewalld (host_of (machine_of v))" "documented_match rm"
    and "db_ok (store (rb_daemon b))" "\<forall>x. rb_threads b x = Idle_thread" "rb_last b = None" "(t :: 't) \<noteq> u" "db_ok d"
    and "apply_tables v (peers_grouped_by_owner d, octets_by_owner d) ((rb_daemon b)\<lparr>store := d\<rparr>) = (Inr r1, s1)"
    and "apply_tables v (peers_grouped_by_owner (store (rb_daemon b)), octets_by_owner (store (rb_daemon b))) s1 = (Inr r2, s2)"
    and "plain_iface (public_interface r2)" "q \<in> set (peers (store (rb_daemon b)))"
    and "get_octet (peer_owner q) (store (rb_daemon b)) = Some k" "get_octet ow d = Some k" "ow \<noteq> peer_owner q"
  shows "\<exists>(b' :: ('w, 't) rebuilds) specs. rebuild_runs v ch b b' \<and> (\<forall>x. rb_threads b' x = Idle_thread) \<and> store (rb_daemon b') = d \<and>
     get_octet (peer_owner q) d \<noteq> Some k \<and> ch (world (rb_daemon b')) EDO_CHAIN = Some specs \<and>
     (\<forall>p. wf_packet p \<longrightarrow> ip_address q = ip_str (pkt_src p) \<longrightarrow> in_net (pkt_dst p) (owner_net (nat k)) \<longrightarrow>
        decision_of (chain_verdict rm specs p) = Accepted)"
proof -
  let ?d = "store (rb_daemon b)" and ?i = "public_interface r2"
  have start: "rebuilds_ok ch b" using assms(4-6) by (simp add: rebuilds_ok_def reads_ok_def)
  obtain b' where b': "rebuild_runs v ch b b'" "rb_threads b' = rb_threads b" "store (rb_daemon b') = d" "rebuilds_ok ch b'"
    "rb_last b' = Some (?i, peers_grouped_by_owner ?d, octets_by_owner ?d)"
    using stale_tables[OF assms(1,2) start _ _ assms(7-10)] assms(5) by blast
  then have "chain_holds (ch (world (rb_daemon b'))) ?i (peers_grouped_by_owner ?d, octets_by_owner ?d)"
    by (simp add: rebuilds_ok_def)
  from held_verdict[OF this assms(3,11)] obtain specs where specs: "ch (world (rb_daemon b')) EDO_CHAIN = Some specs"
    "\<And>p. wf_packet p \<Longrightarrow> decision_of (chain_verdict rm specs p) = policy ?i (peers_grouped_by_owner ?d) (octets_by_owner ?d) p"
    by auto
  have "policy ?i (peers_grouped_by_owner ?d) (octets_by_owner ?d) p = Accepted"
    if "wf_packet p" "ip_address q = ip_str (pkt_src p)" "in_net (pkt_dst p) (owner_net (nat k))" for p
  proof -
    have "chain_decision rm ?i (peers_grouped_by_owner ?d) (octets_by_owner ?d) p = Accepted"
      using assms(12,13) that(2,3)
      by (intro fwdb.own_access_accepted[OF assms(3,11,4) that(1)]) (auto simp: grouped_iff octets_by_owner_iff[OF assms(4)])
    then show ?thesis by (simp add: chain_decision_policy[OF assms(3,11) fwdb.inputs_ok[OF assms(4)] that(1)])
  qed
  moreover have "get_octet (peer_owner q) d \<noteq> Some k" using op.exclusive[OF assms(8,14)] assms(15) by blast
  ultimately show ?thesis using b'(1-3) specs assms(5) by (intro exI[of _ b'] exI[of _ specs]) simp
qed

lemma stale_rebuild_opens_subnet_witness:
  "\<exists>b' specs. rebuild_runs (sample_service sim_host no_files) id race_start b' \<and> get_octet (''team'', 9) (store (rb_daemon b')) = Some 1 \<and>
     sample_peer \<in> set (peers (store (rb_daemon b'))) \<and> peer_owner sample_peer = (''team'', 7) \<and>
     world (rb_daemon b') EDO_CHAIN = Some specs \<and> decision_of (chain_verdict reading_match specs own_packet) = Accepted"
proof -
  let ?v = "sample_service sim_host no_files :: chains service"
  obtain r1 s1 r2 s2 where runs:
    "apply_tables ?v (peers_grouped_by_owner handed_db, octets_by_owner handed_db)
       ((rb_daemon race_start)\<lparr>store := handed_db\<rparr>) = (Inr r1, s1)"
    "apply_tables ?v (peers_grouped_by_owner (store (rb_daemon race_start)), octets_by_owner (store (rb_daemon race_start))) s1 = (Inr r2, s2)"
    "public_interface r2 = ''eth0''"
    using race_applies by auto
  have host: "iptables_ok (host_of (machine_of ?v)) id" "no_firewalld (host_of (machine_of ?v))"
    by (simp_all add: sim_host_ok sim_no_firewalld)
  have start: "db_ok (store (rb_daemon race_start))" "\<forall>x. rb_threads race_start x = Idle_thread" "rb_last race_start = None"
    by (simp_all add: busy_db_ok)
  have q: "sample_peer \<in> set (peers (store (rb_daemon race_start)))" "get_octet (peer_owner sample_peer) (store (rb_daemon race_start)) = Some 1"
    "(''team'', 9) \<noteq> peer_owner sample_peer" "plain_iface (public_interface r2)" "peer_owner sample_peer = (''team'', 7)"
    "sample_peer \<in> set (peers handed_db)"
    by (simp_all add: runs(3) eth_plain) (simp_all add: busy_db_def sample_peer_def get_octet_def handed_db_def)
  have src: "ip_address sample_peer = ip_str (pkt_src own_packet)" by (simp add: own_packet_facts) (simp add: sample_peer_def)
  from stale_rebuild_opens_subnet[OF host documented_reading_match start True_not_False handed_db_ok(1) runs(1,2) q(4,1,2) handed_db_ok(2) q(3)]
  obtain b' specs where b': "rebuild_runs ?v id race_start b'" "store (rb_daemon b') = handed_db" "id (world (rb_daemon b')) EDO_CHAIN = Some specs"
    "\<And>p. wf_packet p \<Longrightarrow> ip_address sample_peer = ip_str (pkt_src p) \<Longrightarrow> in_net (pkt_dst p) (owner_net (nat 1)) \<Longrightarrow>
       decision_of (chain_verdict reading_match specs p) = Accepted"
    by auto
  have "decision_of (chain_verdict reading_match specs own_packet) = Accepted"
    by (rule b'(4)[OF own_packet_facts(1) src]) (use own_packet_facts(2) in simp)
  then show ?thesis using b'(1-3) handed_db_ok(2) q(5,6) by auto
qed

section \<open>The process and its clients\<close>

text \<open>
  C10: Only root and the allowed account can make the daemon do anything. When the socket file has the owner
  and group of \<open>EDO_SOCKET_OWNER\<close>, the whole process, from its start to its end, goes as if no other client
  had ever come: not one with another uid, whatever it sends and whatever groups it is in, and not one
  whose uid the kernel's unsigned word and the daemon's signed reading make different.
\<close>

theorem untrusted_have_no_effect:
  assumes "cf_uid cf = Some t" "int_of_text t = Inr n" "0 \<le> n"
    and "split_owner (cf_owner cf) = Some (u, g)" "getpwnam a u = Some ow" "getgrnam a g = Some gr"
  shows "daemon_main m f a umask cf es p = daemon_main m f a umask cf (filter (trusted n ow gr) es) p"
  using assms by (rule main_trusted)

lemma untrusted_have_no_effect_witness:
  "daemon_main (sample_machine calm_host) mem_files sample_accounts 18 sample_settings
     [Client (uid_process 33) [Chunk ''abc''], Client (uid_process 4294967295) [], Stop_signal] (started_process Map.empty) =
   daemon_main (sample_machine calm_host) mem_files sample_accounts 18 sample_settings [Stop_signal] (started_process Map.empty)"
proof -
  let ?es = "[Client (uid_process 33) [Chunk ''abc''], Client (uid_process 4294967295) [], Stop_signal]"
  have "cf_uid sample_settings = Some ''1000''" by (simp add: sample_settings_def)
  note untrusted_have_no_effect[OF this thousand _ sample_socket_owner,
      of "sample_machine calm_host" mem_files 18 ?es "started_process Map.empty"]
  moreover have "filter (trusted 1000 0 990) ?es = [Stop_signal]" by (simp add: uid_process_def cl_uid_def)
  ultimately show ?thesis by simp
qed

text \<open>
  C11: Which uid passes is decided on the 32 bits of the kernel. A connection is served exactly when its uid
  is 0 or the allowed one, and the allowed one is below \<open>2 ^ 31\<close>: the credentials are unpacked as signed
  integers, so a larger allowed uid is refused its own connections, and no uid is mistaken for root's.
\<close>

theorem kernel_uid_decides:
  assumes "allowed_uid v = Some t" "int_of_text t = Inr n" "0 \<le> n"
  shows "serve_connection v (ucred_bytes c) evs s =
     (if uint (uc_uid c) = 0 \<or> n < 2 ^ 31 \<and> uint (uc_uid c) = n then serve_one v (uint (uc_uid c)) evs s
      else send_reply (error_reply ''unauthorized'') s)"
  using assms by (rule connection_served)

lemma kernel_uid_decides_witness:
  "serve_connection ((sample_service calm_host mem_files)\<lparr>allowed_uid := Some (str_int 4000000000)\<rparr>)
     (ucred_bytes \<lparr>uc_pid = 7, uc_uid = 4000000000, uc_gid = 33\<rparr>) [Chunk ''abc''] (busy_daemon Map.empty)
   = send_reply (error_reply ''unauthorized'') (busy_daemon Map.empty) \<and>
   serve_connection (sample_service calm_host mem_files)
     (ucred_bytes \<lparr>uc_pid = 7, uc_uid = 1000, uc_gid = 33\<rparr>) [Chunk ''abc''] (busy_daemon Map.empty)
   = serve_one (sample_service calm_host mem_files) 1000 [Chunk ''abc''] (busy_daemon Map.empty)"
proof
  let ?v = "sample_service calm_host mem_files"
  show "serve_connection (?v\<lparr>allowed_uid := Some (str_int 4000000000)\<rparr>)
     (ucred_bytes \<lparr>uc_pid = 7, uc_uid = 4000000000, uc_gid = 33\<rparr>) [Chunk ''abc''] (busy_daemon Map.empty)
   = send_reply (error_reply ''unauthorized'') (busy_daemon Map.empty)"
    using kernel_uid_decides[of "?v\<lparr>allowed_uid := Some (str_int 4000000000)\<rparr>" "str_int 4000000000" 4000000000
        "\<lparr>uc_pid = 7, uc_uid = 4000000000, uc_gid = 33\<rparr>" "[Chunk ''abc'']" "busy_daemon Map.empty"]
    by simp
  have "allowed_uid ?v = Some ''1000''" by (simp add: sample_service_def)
  from kernel_uid_decides[OF this thousand, of "\<lparr>uc_pid = 7, uc_uid = 1000, uc_gid = 33\<rparr>" "[Chunk ''abc'']" "busy_daemon Map.empty"]
  show "serve_connection ?v (ucred_bytes \<lparr>uc_pid = 7, uc_uid = 1000, uc_gid = 33\<rparr>) [Chunk ''abc''] (busy_daemon Map.empty)
   = serve_one ?v 1000 [Chunk ''abc''] (busy_daemon Map.empty)"
    by simp
qed

section \<open>Octets\<close>

text \<open>
  Octets are exclusive: after any sequence of allocations and releases no two owners hold the
  same octet, and every octet held is in 1..254, so the subnets of two owners are disjoint.
\<close>

theorem octets_exclusive:
  assumes "db_ok d"
    and "get_octet ow (serve allocate_octet free_octet rs d) = Some k"
    and "get_octet ow' (serve allocate_octet free_octet rs d) = Some k'" "ow \<noteq> ow'"
    and "in_net a (owner_net (nat k))"
  shows "\<not> in_net a (owner_net (nat k')) \<and> in_net a DOCKER_POOL"
proof -
  have k: "1 \<le> k \<and> k \<le> 254" "1 \<le> k' \<and> k' \<le> 254"
    using op.serve_exclusive[OF assms(1,2,2)] op.serve_exclusive[OF assms(1,3,3)] by auto
  have "k \<noteq> k'" using op.serve_exclusive[OF assms(1,2), of ow'] assms(3,4) by blast
  then show ?thesis
    using k assms(5) owner_nets_disjoint[of "nat k" "nat k'" a] owner_net_in_pool[of "nat k" a] by fastforce
qed

lemma octets_exclusive_witness:
  "\<not> in_net 168362242 (owner_net (nat 2)) \<and> in_net 168362242 DOCKER_POOL"
proof (rule octets_exclusive[OF empty_db_ok])
  let ?rs = "[Claim (''team'', 7), Claim (''team'', 8)]"
  have "serve allocate_octet free_octet ?rs empty_db =
      empty_db\<lparr>octets := [\<lparr>oct_owner = (''team'', 7), octet = 1\<rparr>, \<lparr>oct_owner = (''team'', 8), octet = 2\<rparr>]\<rparr>"
    by (simp add: first_octet second_octet)
  then show "get_octet (''team'', 7) (serve allocate_octet free_octet ?rs empty_db) = Some 1"
    "get_octet (''team'', 8) (serve allocate_octet free_octet ?rs empty_db) = Some 2"
    by (simp_all add: get_octet_def)
qed (simp_all add: in_owner_net_iff)

text \<open>
  An allocation of an octet fails only when all 254 are held, and then changes nothing.
\<close>

theorem octets_exhausted:
  assumes "db_ok d" "allocate_octet ow d = (Inl e, d')"
  shows "d' = d \<and> length (octets d) = 254 \<and> get_octet ow d = None \<and>
     e = RuntimeError ''docker subnet pool exhausted (254 owners already allocated)''"
proof -
  have none: "get_octet ow d = None" using assms(2) by (auto simp: allocate_octet_eq split: option.splits)
  have free: "first_free OCTETS (map octet (octets d)) = None"
    "e = RuntimeError ''docker subnet pool exhausted (254 owners already allocated)'' \<and> d' = d"
    using assms(2) none by (auto simp: allocate_octet_eq split: option.splits)
  have "distinct (map octet (octets d))" "octet ` set (octets d) \<subseteq> {1..254}"
    using assms(1) by (auto simp: db_ok_def octets_ok_def)
  moreover have "{1..254} \<subseteq> octet ` set (octets d)" using free(1) by (simp add: first_free_None)
  ultimately have "card (octet ` set (octets d)) = 254" "length (octets d) = card (octet ` set (octets d))"
    using distinct_card[of "map octet (octets d)"] by (simp_all add: subset_antisym)
  then show ?thesis using none free(2) by simp
qed

lemma octets_exhausted_witness: "length (octets full_db) = 254 \<and> get_octet (''user'', 1) full_db = None"
proof -
  have none: "get_octet (''user'', 1) full_db = None"
    unfolding get_octet_None list.set_map[symmetric] full_db_facts by auto
  have "first_free OCTETS (map octet (octets full_db)) = None" by (simp add: full_db_facts first_free_None)
  then have "allocate_octet (''user'', 1) full_db =
      (Inl (RuntimeError ''docker subnet pool exhausted (254 owners already allocated)''), full_db)"
    by (simp add: allocate_octet_eq none)
  then show ?thesis using octets_exhausted[OF full_db_ok] by blast
qed

text \<open>
  C27: In every interleaving of the database blocks of any number of concurrent allocations, the
  constraints hold, and a thread that returned an octet returned the one its owner holds: two
  threads agree exactly when they act for the same owner.
\<close>

theorem concurrent_octets_agree:
  assumes "db_ok d" "octet_runs own (d, \<lambda>_. Checking) (d', ts)"
    and "ts t = Done (Inr k)" "ts t' = Done (Inr k')"
  shows "db_ok d' \<and> get_octet (own t) d' = Some k \<and> (own t = own t' \<longleftrightarrow> k = k')"
proof -
  have "served own (d, \<lambda>_. Checking)" using assms(1) by (simp add: served_def)
  then have ok: "served own (d', ts)" by (rule served_runs[OF assms(2)])
  then show ?thesis using served_agree[OF ok assms(3,4)] assms(3) by (simp add: served_def)
qed

lemma concurrent_octets_agree_witness:
  "\<exists>d' ts k k'. octet_runs (\<lambda>b. if b then (''team'', 7) else (''team'', 8)) (empty_db, \<lambda>_. Checking) (d', ts) \<and>
     ts True = Done (Inr k) \<and> ts False = Done (Inr k') \<and> db_ok d' \<and> k \<noteq> k'"
proof -
  let ?own = "\<lambda>b. if b then (''team'', 7::int) else (''team'', 8)"
  let ?d1 = "empty_db\<lparr>octets := [\<lparr>oct_owner = (''team'', 7), octet = 1\<rparr>]\<rparr>"
  let ?d2 = "empty_db\<lparr>octets := [\<lparr>oct_owner = (''team'', 7), octet = 1\<rparr>, \<lparr>oct_owner = (''team'', 8), octet = 2\<rparr>]\<rparr>"
  let ?ts1 = "(\<lambda>_. Checking)(True := Done (Inr 1))" and ?ts2 = "(\<lambda>_. Checking)(True := Done (Inr 1), False := Done (Inr 2))"
  have one: "octet_runs ?own (empty_db, \<lambda>_. Checking) (?d1, ?ts1)"
    by (rule alone_runs) (simp_all add: first_octet)
  have two: "octet_runs ?own (?d1, ?ts1) (?d2, ?ts2)"
    using second_octet[of "(''team'', 8)" "(''team'', 7)"] by (intro alone_runs) simp_all
  have runs: "octet_runs ?own (empty_db, \<lambda>_. Checking) (?d2, ?ts2)"
    using one two unfolding octet_runs_def by (rule rtranclp_trans)
  then show ?thesis
    using concurrent_octets_agree[OF empty_db_ok runs, of True 1 False 2] by (intro exI[of _ ?d2] exI[of _ ?ts2]) simp
qed

text \<open>
  C28: The race is not idempotent, though \<open>allocate_octet\<close> promises to return the owner's octet: a
  thread that missed its check, and whose owner then got an octet from another thread, never
  returns an octet in any continuation; it retries against the primary key and raises.
\<close>

theorem race_loser_never_returns:
  assumes "db_ok d" "ts t = Retrying n le" "get_octet (own t) d \<noteq> None"
    and "octet_runs own (d, ts) (d', ts')"
  shows "ts' t \<noteq> Done (Inr k)"
proof -
  have "lost own t (d, ts)" using assms(1-3) by (simp add: lost_def)
  then have "lost own t (d', ts')" by (rule lost_runs[OF assms(4)])
  then show ?thesis by (auto simp: lost_def)
qed

lemma race_loser_never_returns_witness:
  "\<exists>ts'. octet_runs (\<lambda>_::bool. (''team'', 7)) (busy_db, (\<lambda>_. Retrying 0 None)) (busy_db, ts') \<and>
     ts' True = Done (Inl (octet_give_up None)) \<and> (\<forall>k. ts' True \<noteq> Done (Inr k))"
proof -
  let ?own = "\<lambda>_::bool. (''team'', 7::int)" and ?ts = "\<lambda>_::bool. Retrying 0 None"
  let ?ts' = "?ts(True := Done (Inl (octet_give_up None)))"
  have "octet_step ?own (busy_db, ?ts) (busy_db, ?ts')" by (rule give_up) simp
  then have runs: "octet_runs ?own (busy_db, ?ts) (busy_db, ?ts')"
    unfolding octet_runs_def by (rule r_into_rtranclp)
  have "get_octet (''team'', 7) busy_db \<noteq> None" by (simp add: busy_db_def get_octet_def)
  then have "?ts' True \<noteq> Done (Inr k)" for k
    using race_loser_never_returns[OF busy_db_ok _ _ runs, where t = True and n = 0 and le = None and k = k] by simp
  then show ?thesis using runs by (intro exI[of _ ?ts']) simp
qed

text \<open>
  C29: Concurrent allocation terminates: every step of any thread lowers the number of steps that
  the threads have left, and a thread that has steps left can take one.
\<close>

theorem concurrent_octets_terminate:
  fixes own :: "'t::finite \<Rightarrow> owner"
  shows "(octet_step own (d, ts) (d', ts') \<longrightarrow>
      (\<Sum>t\<in>UNIV. steps_left (ts' t)) < (\<Sum>t\<in>UNIV. steps_left (ts t))) \<and>
     (steps_left (ts t) > 0 \<longrightarrow> (\<exists>d' ts'. octet_step own (d, ts) (d', ts') \<and> ts' t \<noteq> ts t))"
proof (intro conjI impI)
  assume "octet_step own (d, ts) (d', ts')"
  then obtain t where t: "steps_left (ts' t) < steps_left (ts t)" "\<forall>u. u \<noteq> t \<longrightarrow> ts' u = ts u"
    using octet_step_decreases by blast
  show "(\<Sum>t\<in>UNIV. steps_left (ts' t)) < (\<Sum>t\<in>UNIV. steps_left (ts t))"
    by (rule sum_strict_mono_ex1) (use t in \<open>auto intro: le_less_trans\<close>, metis le_eq_less_or_eq)
next
  assume "steps_left (ts t) > 0"
  then show "\<exists>d' ts'. octet_step own (d, ts) (d', ts') \<and> ts' t \<noteq> ts t"
    using octet_step_progress[of ts t own d] by fastforce
qed

lemma concurrent_octets_terminate_witness:
  "\<exists>d' ts'. octet_step (\<lambda>_::bool. (''team'', 7)) (empty_db, \<lambda>_. Checking) (d', ts') \<and> ts' True \<noteq> Checking"
  using concurrent_octets_terminate[of "\<lambda>_::bool. (''team'', 7)" empty_db "\<lambda>_. Checking" empty_db "\<lambda>_. Checking" True]
  by simp

section \<open>Instances\<close>

text \<open>
  C18: What a spawn does to the database, when the owner has no instance of the challenge. A
  success appends one running row of that owner and challenge, with the name computed from
  both, to the database in which the owner has an octet; every other end, error result or
  exception, leaves the table of instances as it was.
\<close>

theorem spawn_records_one_instance:
  assumes "daemon_ok (store s)" "find_instance (sr_owner q) (sr_challenge q) (store s) = None"
  shows "outcome
     (\<lambda>res s'. (\<exists>i. res = spawned i \<and> instances (store s') = instances (store s) @ [i] \<and>
         inst_owner i = sr_owner q \<and> challenge_ref i = sr_challenge q \<and> status i = ''running'' \<and>
         container_name i = container_name_for (sr_challenge q) (sr_owner q) \<and>
         get_octet (sr_owner q) (store s') \<noteq> None) \<or>
       \<not> success res \<and> instances (store s') = instances (store s))
     (\<lambda>_ s'. instances (store s') = instances (store s)) (spawn_instance m q s)"
proof (rule outcome_mono[OF spawn_instance_outcome[OF assms(2), of m]], goal_cases)
  case (1 res s')
  show ?case
  proof (cases "\<not> success res \<and> store s' = store s")
    case False
    then obtain k d where k: "allocate_octet (sr_owner q) (store s) = (Inr k, d)" "spawn_end q k d res s'"
      using 1 by blast
    have d: "instances d = instances (store s)" "get_octet (sr_owner q) d = Some k"
      using allocate_octet_frame(1)[of "sr_owner q" "store s"] k(1) op.claim_held[OF _ k(1)] assms(1)
      by (auto simp: daemon_ok_def)
    show ?thesis
    proof (cases "\<not> success res")
      case True
      then show ?thesis using k(2) d by (auto simp: spawn_end_def)
    next
      case False
      then obtain pl i where i: "planned q k pl" "res = spawned i" "new_instance q pl i d (store s')"
        using k(2) by (auto simp: spawn_end_def)
      note new = new_instance_facts[OF i(3)]
      then show ?thesis using i(1,2) d by (auto simp: planned_def get_octet_instances)
    qed
  qed simp
next
  case (2 e s')
  then show ?case by (simp add: allocate_octet_frame)
qed

lemma spawn_records_one_instance_witness:
  "outcome
     (\<lambda>res s'. (\<exists>i. res = spawned i \<and> instances (store s') = instances busy_db @ [i] \<and>
         inst_owner i = (''team'', 8) \<and> challenge_ref i = ''web'' \<and> status i = ''running'' \<and>
         container_name i = container_name_for ''web'' (''team'', 8) \<and> get_octet (''team'', 8) (store s') \<noteq> None) \<or>
       \<not> success res \<and> instances (store s') = instances busy_db)
     (\<lambda>_ s'. instances (store s') = instances busy_db)
     (spawn_instance (sample_machine calm_host) web_request (busy_daemon ()))"
  using spawn_records_one_instance[of "busy_daemon ()" web_request "sample_machine calm_host"] busy_ok(2)
  by (simp add: service_ok_def web_request_def) (simp add: busy_db_def sample_inst_def find_instance_def)

text \<open>
  Spawning is idempotent: after a spawn that succeeded, another spawn of the same challenge by
  the same owner returns the same instance and changes nothing, whatever else it asks for.
\<close>

theorem spawn_is_idempotent:
  assumes "daemon_ok (store s)" "spawn_instance m q s = (Inr res, s')" "success res"
    and "sr_owner q' = sr_owner q" "sr_challenge q' = sr_challenge q"
  shows "spawn_instance m' q' s' = (Inr res, s')"
proof (cases "find_instance (sr_owner q) (sr_challenge q) (store s)")
  case (Some i)
  then show ?thesis using assms(2,4,5) by (simp add: spawn_instance_def)
next
  case None
  obtain k d where k: "allocate_octet (sr_owner q) (store s) = (Inr k, d)" "spawn_end q k d res s'"
    using outcome_InrD[OF spawn_instance_outcome[OF None] assms(2)] assms(3) by blast
  then obtain pl i where i: "res = spawned i" "new_instance q pl i d (store s')"
    using assms(3) by (auto simp: spawn_end_def)
  have "find_instance (sr_owner q) (sr_challenge q) d = None"
    using None allocate_octet_frame(1)[of "sr_owner q" "store s"] k(1) by (simp add: find_instance_def)
  then have "find_instance (sr_owner q) (sr_challenge q) (store s') = Some i"
    using new_instance_facts(1-3)[OF i(2)] by (simp add: find_instance_def find_append)
  then show ?thesis using assms(4,5) i(1) by (simp add: spawn_instance_def)
qed

lemma spawn_is_idempotent_witness:
  "spawn_instance (sample_machine calm_host) (web_request\<lparr>sr_owner := (''team'', 7), sr_publish := True\<rparr>) (busy_daemon ())
     = (Inr (spawned sample_inst), busy_daemon ())"
proof (rule spawn_is_idempotent[of _ "sample_machine calm_host" "web_request\<lparr>sr_owner := (''team'', 7)\<rparr>"])
  show "daemon_ok (store (busy_daemon ()))" using busy_ok(2) by (simp add: service_ok_def)
  show "spawn_instance (sample_machine calm_host) (web_request\<lparr>sr_owner := (''team'', 7)\<rparr>) (busy_daemon ())
      = (Inr (spawned sample_inst), busy_daemon ())"
    by (simp add: spawn_instance_def web_request_def) (simp add: busy_db_def sample_inst_def find_instance_def)
qed (simp_all add: web_request_def)


text \<open>
  A spawn that does not ask for published ports never sends docker a configuration that binds
  a host port: it cannot tell a docker that refuses every such configuration from the real one.
\<close>

theorem private_spawn_binds_no_port:
  assumes "\<not> sr_publish q"
  shows "spawn_instance (portless m) q s = spawn_instance m q s"
  using assms by (rule portless_spawn)

lemma private_spawn_binds_no_port_witness:
  "spawn_instance (portless (sample_machine calm_host)) web_request (busy_daemon ())
   = spawn_instance (sample_machine calm_host) web_request (busy_daemon ())"
  by (rule private_spawn_binds_no_port) (simp add: web_request_def)

text \<open>
  C30: Public ports do not collide: the ports chosen for a new instance are as many as asked for,
  distinct, in the configured range, not among the excluded ones, and none of them is recorded as
  published by an instance in the table.
\<close>

theorem public_ports_do_not_collide:
  assumes "allocate_public_ports m wanted exclude d = Inr ps" "0 < wanted"
    and "i \<in> set (instances d)" "published_ports i = json_published pm" "distinct (map fst pm)"
  shows "length ps = wanted \<and> distinct ps \<and> set ps \<subseteq> {port_range_start m .. port_range_end m} \<and>
     set ps \<inter> set exclude = {} \<and> set ps \<inter> snd ` set pm = {}"
  using allocate_public_ports_Inr[OF assms(1,2)] assms(3-5) by blast

lemma public_ports_do_not_collide_witness:
  "length [30002, 30003::int] = 2 \<and> distinct [30002, 30003::int] \<and>
     set [30002, 30003] \<subseteq> {port_range_start (sample_machine (calm_host :: unit host)) .. port_range_end (sample_machine (calm_host :: unit host))} \<and>
     set [30002, 30003] \<inter> set [30001] = ({} :: int set) \<and> set [30002, 30003] \<inter> snd ` set [(''80/tcp'', 30000::int)] = {}"
  by (rule public_ports_do_not_collide[OF published_ports_chosen, where i = "sample_inst\<lparr>published_ports := json_published [(''80/tcp'', 30000)]\<rparr>"])
    (simp_all add: published_db_def)

text \<open>
  The retry of a spawn cannot succeed: when docker refuses the first address as already in
  use, the next address the database offers is the same one, so all seven further tries are
  skipped and the spawn gives up.
\<close>

theorem address_retry_gives_up:
  assumes "find_next_owner_ip (sr_owner q) (pl_octet pl) (store s) = Inr ip"
    and "choose_port_map m q pl [] (store s) = Inr pm"
    and "build_secure_host_config m (sr_profile q) pm = Inr cfg"
    and "launch m q pl ip cfg s = (Inl e, s1)" "is_APIError e" "is_resource_conflict e"
    and "discard_container m (pl_name pl) s1 = (Inr (), s2)"
  shows "run_planned m q pl s =
     (Inr (spawn_failed (''could not allocate a free IP: '' @ exc_str e)), s2)"
proof -
  have "launch_loop m q pl (Suc 7) [] [] [] s = (Inr (Out_of_tries (exc_str e)), s2)"
    by (rule loop_gives_up[OF assms])
  moreover have "Suc 7 = 8" by simp
  ultimately show ?thesis by (simp only: run_planned_def and_then_simps launch_end.case)
qed

lemma address_retry_gives_up_witness:
  "run_planned taken_machine web_request web_plan (busy_daemon 0) =
     (Inr (spawn_failed (''could not allocate a free IP: '' @ exc_str (APIError ''Address already in use''))), busy_daemon 0)"
proof (rule address_retry_gives_up)
  show "find_next_owner_ip (sr_owner web_request) (pl_octet web_plan) (store (busy_daemon 0)) = Inr ''10.9.2.2''"
    by (simp add: web_request_def web_plan_def first_address)
  show "choose_port_map taken_machine web_request web_plan [] (store (busy_daemon 0)) = Inr None"
    by (simp add: choose_port_map_def web_request_def)
  show "build_secure_host_config taken_machine (sr_profile web_request) None =
      Inr (JObj [(''restart_policy'', JObj [(''Name'', JStr ''unless-stopped'')]),
        (''security_opt'', JList [JStr ''no-new-privileges:true'']), (''cap_drop'', JList [JStr ''NET_RAW''])])"
    by (simp add: build_secure_host_config_def host_config_kwargs_def web_request_def default_profile_def
        set_text_def taken_machine_def sample_docker_def)
  show "is_resource_conflict (APIError ''Address already in use'')" by code_simp
qed (simp_all add: launch_def discard_container_def taken_machine_def sample_docker_def on_world_def busy_daemon_def)

text \<open>
  The kill switch leaves the VPN alone and counts truthfully: the peers stay, the answer is the
  number of instances removed, and when it equals the number of rows marked as running no
  container of those rows is left in the table.
\<close>

theorem kill_switch_counts:
  "outcome
     (\<lambda>r s'. \<exists>n. r = JObj [(''containers_removed'', JInt n)] \<and>
        n \<le> int (length (get_active_instances (store s))) \<and> peers (store s') = peers (store s) \<and>
        (n = int (length (get_active_instances (store s))) \<longrightarrow>
          container_id ` set (get_active_instances (store s)) \<inter> container_id ` set (instances (store s')) = {}))
     (\<lambda>_ s'. peers (store s') = peers (store s)) (handle_kill_switch v params s)"
proof -
  have "holds (\<lambda>d. peers d = peers (store s)) (handle_kill_switch v params s)" by (rule killed_keeps_peers)
  then show ?thesis
    using killed_running[of s v params]
    by (cases "handle_kill_switch v params s"; cases "fst (handle_kill_switch v params s)")
      (auto simp: holds_def gone_def)
qed

lemma kill_switch_counts_witness:
  "outcome
     (\<lambda>r s'. \<exists>n. r = JObj [(''containers_removed'', JInt n)] \<and> n \<le> 1 \<and> peers (store s') = [sample_peer] \<and>
        (n = 1 \<longrightarrow> {''c1''} \<inter> container_id ` set (instances (store s')) = {}))
     (\<lambda>_ s'. peers (store s') = [sample_peer])
     (handle_kill_switch (sample_service calm_host no_files) JNull (busy_daemon ()))"
  using kill_switch_counts[of "busy_daemon ()" "sample_service calm_host no_files" JNull]
  by (simp add: busy_db_def get_active_instances_def) (simp add: sample_inst_def)

text \<open>
  The kill switch does not stop every tracked container, as its comment says: a row whose status
  is not \<open>running\<close>, such as one that \<open>reconcile\<close> marked as exited and docker restarted since, is
  still there afterwards, whatever docker answers.
\<close>

theorem kill_switch_skips_stopped:
  assumes "db_ok (store s)" "i \<in> set (instances (store s))" "status i \<noteq> ''running''"
  shows "i \<in> set (instances (store (snd (handle_kill_switch v params s))))"
proof -
  have "container_id i \<notin> container_id ` set (get_active_instances (store s))"
    using assms distinct_map_inj[of container_id "instances (store s)" i]
    by (auto simp: get_active_instances_def db_ok_def instances_ok_def)
  then have "holds (\<lambda>d. i \<in> set (instances d)) (handle_kill_switch v params s)"
    unfolding handle_kill_switch_def teardown_all_def by (intro keeps teardown_keeps_row assms(2))
  then show ?thesis by (simp add: holds_def)
qed

lemma kill_switch_skips_stopped_witness:
  "sample_inst\<lparr>status := ''exited''\<rparr>
     \<in> set (instances (store (snd (handle_kill_switch (sample_service calm_host no_files) JNull
          ((busy_daemon ())\<lparr>store := snd (update_instance_status ''c1'' ''exited'' busy_db)\<rparr>)))))"
proof (rule kill_switch_skips_stopped)
  show "db_ok (store ((busy_daemon ())\<lparr>store := snd (update_instance_status ''c1'' ''exited'' busy_db)\<rparr>))"
    using tables_kept(3)[OF busy_db_ok] by simp
qed (simp_all add: update_instance_status_def busy_db_def sample_inst_def)

text \<open>
  Adoption does not restore octets: when the state was lost, the containers that are adopted at
  start-up belong to owners without an octet, and the first owner to ask is given octet 1, in
  whose subnet an adopted container may still run.
\<close>

theorem adoption_restores_no_octet:
  assumes "octets (store s) = []"
  shows "fst (allocate_octet ow (store (snd (adopt_untracked m s)))) = Inr 1"
proof -
  have "octets (store (snd (adopt_untracked m s))) = []"
    using adopt_untracked_kept[of s m] assms by (simp add: holds_def adopt_kept_def)
  then show ?thesis by (simp add: allocate_octet_eq get_octet_def first_free_octet)
qed

lemma adoption_restores_no_octet_witness:
  "fst (allocate_octet (''user'', 5) (store (snd (adopt_untracked (sample_machine calm_host) (fresh_daemon ()))))) = Inr 1"
  by (rule adoption_restores_no_octet) (simp add: empty_db_def)

section \<open>Peers\<close>

text \<open>
  C31: Adding a peer is all or nothing in the database: a return means one new row of that owner and
  user, with an address and a user name that no other row has; any exception, raised anywhere
  in the operation, leaves the tables as they were.
\<close>

theorem add_peer_is_atomic:
  "outcome
     (\<lambda>cc s'. peers (store s') = peers (store s) @ [cl_peer cc] \<and> peer_owner (cl_peer cc) = ow \<and>
        username (cl_peer cc) = user \<and> user \<notin> username ` set (peers (store s)) \<and>
        ip_address (cl_peer cc) \<in> set peer_candidate_ips \<and>
        ip_address (cl_peer cc) \<notin> ip_address ` set (peers (store s)) \<and>
        octets (store s') = octets (store s) \<and> instances (store s') = instances (store s))
     (\<lambda>_ s'. peers (store s') = peers (store s) \<and> octets (store s') = octets (store s) \<and>
        instances (store s') = instances (store s))
     (add_peer h fs ow user server dir key s)"
proof (rule outcome_mono[OF add_peer_outcome], goal_cases)
  case (1 cc s')
  then obtain pub priv where
    "allocate_peer ow user pub peer_candidate_ips priv (store s) = (Inr (cl_peer cc), store s')"
    unfolding peer_added_def by blast
  from allocate_peer_Inr[OF this] show ?case by simp
qed auto

text \<open>
  Peer addresses are exclusive: after any sequence of additions and removals no two users hold
  the same address, and every address is one of the 253 candidates, so never the server's.
\<close>

theorem peer_addresses_exclusive:
  assumes "peers_in_pool d"
    and "peer_address user (serve (claim_address ow pub priv) remove_peer_row rs d) = Some ip"
    and "peer_address user' (serve (claim_address ow pub priv) remove_peer_row rs d) = Some ip"
  shows "user = user' \<and> ip \<in> set peer_candidate_ips \<and> ip \<noteq> WG_SERVER_IP"
  using wp.serve_exclusive[OF assms] server_not_candidate by auto

lemma peer_addresses_exclusive_witness:
  "''10.8.0.2'' \<in> set peer_candidate_ips \<and> ''10.8.0.2'' \<noteq> WG_SERVER_IP"
  using peer_addresses_exclusive[OF busy_ok(1), of "''user_3''" "(''team'', 7)" "[]" None "[]" "''10.8.0.2''" "''user_3''"]
  by (simp add: peer_address_def get_peer_def busy_db_def sample_peer_def)

text \<open>
  C32: The server's configuration file follows the table of peers: when it lists exactly the rows of
  the table, it still does after adding a peer and after removing one, when those return.
\<close>

theorem config_follows_table:
  assumes "documented_files fs h content" "config_in_step content port key s" "plain_value key"
    and "add_peer h fs ow user server None k s = (Inr cc, s1)"
    and "remove_peer h fs user' None s1 = (Inr removed, s2)"
  shows "config_in_step content port key s1 \<and> config_in_step content port key s2"
  using add_peer_in_step[OF assms(1,2,4)] remove_peer_in_step[OF assms(1) _ assms(3,5)] by blast

lemma config_follows_table_witness:
  "\<exists>cc s1 s2.
     add_peer calm_host mem_files (''team'', 7) ''user_3'' sample_server None None plain_daemon = (Inr cc, s1) \<and>
     remove_peer calm_host mem_files ''user_3'' None s1 = (Inr True, s2) \<and>
     config_in_step id 51820 ''a2V5'' s1 \<and> config_in_step id 51820 ''a2V5'' s2"
proof -
  obtain cc s1 s2 where run:
    "add_peer calm_host mem_files (''team'', 7) ''user_3'' sample_server None None plain_daemon = (Inr cc, s1)"
    "remove_peer calm_host mem_files ''user_3'' None s1 = (Inr True, s2)"
    using sample_add by blast
  have "config_in_step id 51820 ''a2V5'' plain_daemon"
    by (simp add: config_in_step_def config_text_def plain_daemon_def empty_db_def)
  then show ?thesis
    using config_follows_table[OF mem_files_documented _ sample_plain(1) run] run by blast
qed



text \<open>
  The roll back of \<open>add_peer\<close> is not complete: when a step after the append to the server's file
  fails, the row is taken back but the \<open>[Peer]\<close> block stays, so after a restart of the
  interface the file grants an address that the table will give to somebody else.
\<close>

theorem failed_add_leaves_block:
  assumes "documented_files fs h content" "config_in_step content port key s"
    and "allocate_peer ow user pub peer_candidate_ips priv (store s) = (Inr p, d1)"
    and "append_text fs WG_SERVER_CONFIG (peer_block p) (world s) = (Inr (), w)"
    and "finish_install h fs server None p (s\<lparr>store := d1, world := w\<rparr>) = (Inl e, s1)"
    and "config_text content s1 = config_text content (s\<lparr>store := d1, world := w\<rparr>)"
  shows "\<exists>s'. insert_and_install h fs ow user server None pub priv s = (Inl e, s') \<and>
     peers (store s') = peers (store s) \<and>
     config_text content s' = Some (config_form port key (peers (store s) @ [p])) \<and>
     \<not> config_in_step content port key s'"
proof -
  obtain s' where s': "insert_and_install h fs ow user server None pub priv s = (Inl e, s')"
    "peers (store s') = peers (store s)"
    "config_text content s' = Some (config_form port key (peers (store s) @ [p]))"
    using add_peer_leaves_block[OF assms] by blast
  then show ?thesis by (auto simp: config_in_step_def config_form_snoc peer_block_def)
qed

lemma failed_add_leaves_block_witness:
  "\<exists>ip s'. insert_and_install calm_host full_disk (''team'', 7) ''user_3'' sample_server None ''a2V5'' None plain_daemon
       = (Inl (OSError ''No space left on device''), s') \<and> peers (store s') = [] \<and>
     config_text id s' = Some (config_form 51820 ''a2V5''
       [\<lparr>peer_id = 1, peer_owner = (''team'', 7), username = ''user_3'', ip_address = ip, public_key = ''a2V5'', private_key = None\<rparr>])"
proof -
  obtain ip where ip: "first_free peer_candidate_ips [] = Some ip" using first_candidate by blast
  let ?p = "\<lparr>peer_id = 1, peer_owner = (''team'', 7), username = ''user_3'', ip_address = ip, public_key = ''a2V5'', private_key = None\<rparr>"
  let ?d = "empty_db\<lparr>peers := [?p], peer_seq := 1\<rparr>"
  let ?w = "[WG_SERVER_CONFIG \<mapsto> config_form 51820 ''a2V5'' [] @ peer_block ?p]"
  have "config_in_step id 51820 ''a2V5'' plain_daemon"
    by (simp add: config_in_step_def config_text_def plain_daemon_def empty_db_def)
  moreover have "allocate_peer (''team'', 7) ''user_3'' ''a2V5'' peer_candidate_ips None (store plain_daemon) = (Inr ?p, ?d)"
    by (simp add: allocate_peer_eq plain_daemon_def empty_db_def ip Let_def)
  moreover have "append_text full_disk WG_SERVER_CONFIG (peer_block ?p) (world plain_daemon) = (Inr (), ?w)"
    by (simp add: full_disk_def mem_files_def plain_daemon_def)
  moreover have "finish_install calm_host full_disk sample_server None ?p (plain_daemon\<lparr>store := ?d, world := ?w\<rparr>)
      = (Inl (OSError ''No space left on device''), plain_daemon\<lparr>store := ?d, world := ?w\<rparr>)"
    by (simp add: finish_install_def live_add_peer_def on_world_def py_run_def calm_host_def full_disk_def mem_files_def
        Let_def)
  ultimately show ?thesis
    using failed_add_leaves_block[OF full_disk_documented, of 51820 "''a2V5''" plain_daemon]
    by (fastforce simp: plain_daemon_def empty_db_def)
qed

text \<open>
  \<open>wg.ensure_peer\<close> is idempotent: once it has answered for a user, asking again, for any owner,
  leaves the database alone and describes the same peer, even when the server's key file changed.
\<close>

theorem ensure_peer_is_idempotent:
  assumes "ensure_peer v ow user s = (Inr r, s1)" "ensure_peer v' ow' user s2 = (Inr r', s3)"
    and "store s2 = store s1"
  shows "\<exists>p server server'. r = peer_reply p server \<and> r' = peer_reply p server' \<and>
     get_peer user (store s1) = Some p \<and> store s3 = store s1"
proof -
  obtain p server where p: "r = peer_reply p server" "get_peer user (store s1) = Some p"
  proof (cases "get_peer user (store s)")
    case None
    then show ?thesis using that outcome_InrD[OF ensure_peer_new[OF None] assms(1)] by blast
  next
    case (Some p)
    then show ?thesis using that outcome_InrD[OF ensure_peer_existing[OF Some] assms(1)] by auto
  qed
  then have "get_peer user (store s2) = Some p" using assms(3) by simp
  then show ?thesis using outcome_InrD[OF ensure_peer_existing assms(2)] p assms(3) by metis
qed

lemma ensure_peer_is_idempotent_witness:
  "\<exists>r s1 s3 server server'.
     ensure_peer (sample_service calm_host mem_files) (''team'', 7) ''user_3'' vpn_daemon = (Inr r, s1) \<and>
     ensure_peer (sample_service calm_host mem_files) (''team'', 8) ''user_3'' s1 = (Inr r, s3) \<and>
     r = peer_reply sample_peer server \<and> r = peer_reply sample_peer server' \<and> store s3 = store s1"
proof -
  obtain r where r: "ensure_peer (sample_service calm_host mem_files) ow ''user_3'' vpn_daemon = (Inr r, vpn_daemon)" for ow
    using sample_ensure by blast
  have "get_peer ''user_3'' (store vpn_daemon) = Some sample_peer"
    by (simp add: vpn_daemon_def busy_db_def sample_peer_def get_peer_def)
  then show ?thesis
    using ensure_peer_is_idempotent[OF r r refl] r by force
qed

section \<open>Texts and frames\<close>

text \<open>
  JSON round trip: what \<open>json.dumps\<close> writes with either of the separators in use, \<open>json.loads\<close>
  reads back as the same value, for every value with distinct keys and printable floats.
\<close>

theorem json_round_trip:
  assumes "wf_json j"
  shows "loads (dumps '', '' '': '' j) = Inr j \<and> loads (dumps '','' '':'' j) = Inr j"
  using assms by (simp add: loads_dumps seps_def json_space_def)

lemma json_round_trip_witness:
  "loads (dumps '', '' '': '' (JObj [(''80/tcp'', JInt 30000), (''x'', JList [JNull, JBool True])])) =
       Inr (JObj [(''80/tcp'', JInt 30000), (''x'', JList [JNull, JBool True])]) \<and>
   loads (dumps '','' '':'' (JObj [(''80/tcp'', JInt 30000), (''x'', JList [JNull, JBool True])])) =
       Inr (JObj [(''80/tcp'', JInt 30000), (''x'', JList [JNull, JBool True])])"
  by (rule json_round_trip) simp

text \<open>
  Framing: two frames written one after the other are received as they were sent, however the
  stream is cut into chunks, and nothing is left over.
\<close>

theorem frames_are_received:
  assumes "frame p = Inr b" "frame q = Inr c" "length p \<le> limit" "length q \<le> limit"
    and "stream evs" "bytes_of evs = b @ c"
  shows "\<exists>evs' evs''. recv_frame short limit evs = (Inr (Payload p), evs') \<and>
     recv_frame short limit evs' = (Inr (Payload q), evs'') \<and> bytes_of evs'' = []"
  using assms by (rule wire.two_frames)

lemma frames_are_received_witness:
  "\<exists>evs' evs''.
     recv_frame short_read MAX_REQUEST
       [Chunk [CHR 0x00, CHR 0x00], Chunk [CHR 0x00, CHR 0x02, CHR ''h''], Chunk (''i'' @ [CHR 0x00, CHR 0x00, CHR 0x00, CHR 0x00])]
       = (Inr (Payload ''hi''), evs') \<and>
     recv_frame short_read MAX_REQUEST evs' = (Inr (Payload []), evs'') \<and> bytes_of evs'' = []"
proof (rule frames_are_received)
  have len: "length ''hi'' = (2::nat)" by simp
  have chars: "char_of (2::nat) = CHR 0x02" "char_of (0::nat) = CHR 0x00" by code_simp+
  show "frame ''hi'' = Inr ([CHR 0x00, CHR 0x00, CHR 0x00, CHR 0x02] @ ''hi'')"
    by (simp only: frame_def pack_be32_def len) (simp add: chars)
  show "frame [] = Inr [CHR 0x00, CHR 0x00, CHR 0x00, CHR 0x00]"
    by (simp add: frame_def pack_be32_def chars)
qed (simp_all add: MAX_REQUEST_def stream_def bytes_of_def)

section \<open>Leases and limits\<close>

text \<open>
  C34: Leader election is safe under every interleaving of the statements of any number of workers: of
  two successful attempts by different workers, the later one read a clock past the expiry of
  the earlier lease, so no two workers hold the lock at the same time.
\<close>

theorem leases_are_disjoint:
  assumes "election_run secs (start_election t) e" "i < j" "j < length (wins e)"
    and "wins e ! i = (v, n, x)" "wins e ! j = (w, n', x')" "v \<noteq> w"
  shows "x < n'"
  using wins_before[OF run_ok[OF assms(1) start_ok] assms(2,3)] assms(4-6) by simp

lemma leases_are_disjoint_witness:
  "\<exists>e. election_run (\<lambda>_. 30) (start_election 0) e \<and> wins e = [(''w1'', 0, 30000000), (''w2'', 30000001, 60000001)] \<and>
     (30000000::int) < 30000001"
proof -
  obtain e where e: "election_run (\<lambda>_. 30) (start_election 0) e"
    "wins e = [(''w1'', 0, 30000000), (''w2'', 30000001, 60000001)]"
    using sample_election by blast
  then show ?thesis using leases_are_disjoint[OF e(1), of 0 1] by auto
qed

text \<open>
  The interleaved model contains the code: a worker whose statements are not interrupted ends with
  the row and the answer that \<open>_try_acquire_lease\<close> gives.
\<close>

theorem lease_refines_statements:
  assumes "phase_of e w = Idle" "table lock_name = row e"
    and "try_acquire_lease w lock_name (secs w) (clock e) table = (ok, table')"
  shows "\<exists>e'. election_run secs e e' \<and> phase_of e' = phase_of e \<and> clock e' = clock e \<and> row e' = table' lock_name \<and>
     (ok \<longleftrightarrow> wins e' = wins e @ [(w, clock e, new_expiry (clock e) (secs w))]) \<and> (\<not> ok \<longrightarrow> wins e' = wins e)"
  using assms by (rule alone_acquires)

lemma lease_refines_statements_witness:
  "\<exists>e'. election_run (\<lambda>_. 30) (start_election 0) e' \<and> phase_of e' ''w1'' = Idle \<and>
     row e' = Some \<lparr>holder = ''w1'', expires = 30000000\<rparr> \<and> wins e' = [(''w1'', 0, 30000000)]"
proof -
  have "try_acquire_lease ''w1'' ''sweep'' 30 (clock (start_election 0)) Map.empty =
      (True, [''sweep'' \<mapsto> \<lparr>holder = ''w1'', expires = 30000000\<rparr>])"
    by (simp add: acquire_eq start_election_def new_expiry_def seconds_def)
  then show ?thesis
    using lease_refines_statements[of "start_election 0" "''w1''" Map.empty "''sweep''" "\<lambda>_. 30" True]
    by (auto simp: start_election_def new_expiry_def seconds_def)
qed

text \<open>
  C35: The rate limiter keeps its promise over any run of calls whose clock does not go back: within
  every window that ends at an allowed call there are at most \<open>limit\<close> allowed calls.
\<close>

theorem allowed_calls_within_limit:
  assumes "0 \<le> window" "sorted calls" "b key = []"
  shows "windows_ok limit window [] (fst (run_calls key limit window calls b))"
  using assms by (rule run_calls_within)

lemma allowed_calls_within_limit_witness:
  "windows_ok 2 60 [] (fst (run_calls ''vpn'' 2 60 [0, 1, 2, 61, 62] (\<lambda>_. [])))"
  by (rule allowed_calls_within_limit) simp_all

text \<open>
  The wait that a refusal reports is enough: a call after that many seconds is allowed, when no
  other call came between and the limit was not lowered.
\<close>

theorem retry_after_is_enough:
  assumes "check_rate_limit key limit window now b = (Inr (False, retry), b')"
    and "sorted (b key)" "now' \<ge> now + of_int retry" "int (length (b' key)) \<le> limit"
  shows "\<exists>b''. check_rate_limit key limit window now' b' = (Inr (True, 0), b'')"
  using assms by (rule retry_enough)

lemma retry_after_is_enough_witness:
  "\<exists>b''. check_rate_limit ''vpn'' 1 60 61 (\<lambda>_. [0]) = (Inr (True, 0), b'')"
proof (rule retry_after_is_enough)
  show "check_rate_limit ''vpn'' 1 60 5 (\<lambda>_. [0]) = (Inr (False, 56), (\<lambda>_. [0]))"
    by (auto simp: check_rate_limit_def Let_def py_int_def)
qed simp_all

section \<open>Networks and the firewall chain\<close>

text \<open>
  The subnet text of an octet denotes what the rules need: it parses for exactly the octets
  1..254, its 256 addresses have that octet as third byte, and they lie in the container pool.
\<close>

theorem owner_subnet_addresses:
  "case owner_subnet k of
     Inl e \<Rightarrow> (k < 1 \<or> 254 < k) \<and> e = ValueError (''octet '' @ str_int k @ '' out of range 1-254'')
   | Inr n \<Rightarrow> 1 \<le> k \<and> k \<le> 254 \<and> ipv4_network_of (net_str n) = Inr n \<and>
       in_net a n = (a div 256 = 657664 + nat k) \<and> in_net (ip_of_octets 10 9 (nat k) 1) n \<and>
       owner_gateway_ip k = ip_str (ip_of_octets 10 9 (nat k) 1)"
proof (cases "1 \<le> k \<and> k \<le> 254")
  case True
  then have k: "nat k < 256" "0 \<le> k" by auto
  have "owner_gateway_ip k = ip_str (ip_of_octets 10 9 (nat k) 1)"
    using k ip_str_10_9[of "nat k" 1] str_nat_one by (simp add: owner_gateway_ip_def str_int_nat)
  moreover have "ip_of_octets 10 9 (nat k) 1 div 256 = 657664 + nat k" by (simp add: ip_of_octets_def)
  ultimately show ?thesis
    using True k network_of_net_str[OF wf_owner_net[OF k(1)]] by (simp add: owner_subnet_eq in_owner_net_iff)
qed (auto simp: owner_subnet_eq)

text \<open>
  A peer's packet to another owner's subnet matches no rule of the chain, against what the comment
  in \<open>network.py\<close> says: it is neither accepted nor dropped, and the rest of \<open>FORWARD\<close> decides.
\<close>

theorem foreign_subnet_undecided:
  assumes "db_ok d" "documented_match rm" "plain_iface i" "wf_packet p"
    and "q \<in> set (peers d)" "ip_address q = ip_str (pkt_src p)"
    and "get_octet ow d = Some k" "ow \<noteq> peer_owner q" "in_net (pkt_dst p) (owner_net (nat k))"
  shows "chain_decision rm i (peers_grouped_by_owner d) (octets_by_owner d) p = Undecided"
  using assms(5-9)
  by (intro fwdb.foreign_access_undecided[OF assms(2,3,1,4), where key = "peer_owner q" and key' = ow and k' = k])
    (auto simp: grouped_iff octets_by_owner_iff[OF assms(1)])

lemma foreign_subnet_undecided_witness:
  "chain_decision reading_match ''eth0'' (peers_grouped_by_owner busy_db) (octets_by_owner busy_db)
     (own_packet\<lparr>pkt_dst := 168362498\<rparr>) = Undecided"
proof (rule foreign_subnet_undecided[OF busy_db_ok documented_reading_match eth_plain])
  show "sample_peer \<in> set (peers busy_db)" "get_octet (''team'', 8) busy_db = Some 2" "(''team'', 8) \<noteq> peer_owner sample_peer"
    by (simp_all add: busy_db_def sample_peer_def get_octet_def)
  show "ip_address sample_peer = ip_str (pkt_src (own_packet\<lparr>pkt_dst := 168362498\<rparr>))"
    using own_packet_facts(3) by (simp add: sample_peer_def)
qed (simp_all add: own_packet_def wf_packet_def in_owner_net_iff)



end
